theory Spec2Isabelle
  imports Complex_Main "HOL-Library.Sublist"
begin

section \<open>JavaScript strings\<close>

text \<open>
  A string is a list of characters; a character stands for the code unit of the
  same number, 0 to 255. Among these code units the white space of JavaScript
  (what \<open>trim\<close> removes and what \<open>\s\<close> matches) is TAB, LF, VT, FF, CR, SPACE and
  the no-break space U+00A0.
\<close>

definition js_whitespace :: "char \<Rightarrow> bool" where
  "js_whitespace c \<longleftrightarrow>
     c \<in> {CHR 0x09, CHR 0x0A, CHR 0x0B, CHR 0x0C, CHR 0x0D, CHR 0x20, CHR 0xA0}"

definition trim :: "string \<Rightarrow> string" where
  "trim s = rev (dropWhile js_whitespace (rev (dropWhile js_whitespace s)))"

text \<open>
  \<open>toLowerCase\<close>: the letters A to Z and the upper-case letters of Latin-1
  (U+00C0 to U+00DE without the multiplication sign U+00D7) move up by 32.
\<close>

definition lower_char :: "char \<Rightarrow> char" where
  "lower_char c =
     (let n = (of_char c :: nat)
      in if (65 \<le> n \<and> n \<le> 90) \<or> (192 \<le> n \<and> n \<le> 222 \<and> n \<noteq> 215)
         then char_of (n + 32) else c)"

definition toLowerCase :: "string \<Rightarrow> string" where
  "toLowerCase s = map lower_char s"

text \<open>
  \<open>s.split(re)\<close> for a pattern \<open>re\<close> that matches the non-empty runs of a class of
  separator characters (\<open>/\s+/\<close>, \<open>/[,\s]+/\<close>): the pieces between the maximal
  runs, an empty piece before a leading run and after a trailing one.
\<close>

primrec split_runs :: "(char \<Rightarrow> bool) \<Rightarrow> string \<Rightarrow> string list" where
  "split_runs sep [] = [[]]"
| "split_runs sep (c # cs) =
     (if sep c
      then (if cs \<noteq> [] \<and> sep (hd cs) then split_runs sep cs else [] # split_runs sep cs)
      else (case split_runs sep cs of [] \<Rightarrow> [[c]] | l # ls \<Rightarrow> (c # l) # ls))"

text \<open>
  \<open>s.split(/\r?\n/)\<close>: a line ends at each LF, and a CR directly before that LF
  belongs to the line break.
\<close>

primrec split_lines :: "string \<Rightarrow> string list" where
  "split_lines [] = [[]]"
| "split_lines (c # cs) =
     (if c = CHR 0x0A then [] # split_lines cs
      else if c = CHR 0x0D \<and> cs \<noteq> [] \<and> hd cs = CHR 0x0A then split_lines cs
      else (case split_lines cs of [] \<Rightarrow> [[c]] | l # ls \<Rightarrow> (c # l) # ls))"

section \<open>Lists of channel references\<close>

text \<open>
  \<open>splitCommaWhitespaceList(value)\<close>; \<open>None\<close> is \<open>null\<close> or \<open>undefined\<close>.
\<close>

definition splitCommaWhitespaceList :: "string option \<Rightarrow> string list" where
  "splitCommaWhitespaceList v =
     (case v of
        None \<Rightarrow> []
      | Some s \<Rightarrow>
          filter (\<lambda>part. part \<noteq> [])
            (map trim (split_runs (\<lambda>c. c = CHR '','' \<or> js_whitespace c) s)))"

text \<open>
  \<open>uniqueStrings(values)\<close>: the loop over \<open>values\<close> with its two locals, the set
  \<open>seen\<close> of lower-cased keys and the array \<open>out\<close>.
\<close>

fun uniqueStrings_loop :: "string set \<Rightarrow> string list \<Rightarrow> string list \<Rightarrow> string list" where
  "uniqueStrings_loop seen out [] = out"
| "uniqueStrings_loop seen out (v # values) =
     (let trimmed = trim v
      in if trimmed = [] then uniqueStrings_loop seen out values
         else let key = toLowerCase trimmed
              in if key \<in> seen then uniqueStrings_loop seen out values
                 else uniqueStrings_loop (insert key seen) (out @ [trimmed]) values)"

definition uniqueStrings :: "string list \<Rightarrow> string list" where
  "uniqueStrings values = uniqueStrings_loop {} [] values"

text \<open>\<open>uniqueExactStrings(values)\<close>: the same loop with the trimmed string as key.\<close>

fun uniqueExactStrings_loop :: "string set \<Rightarrow> string list \<Rightarrow> string list \<Rightarrow> string list" where
  "uniqueExactStrings_loop seen out [] = out"
| "uniqueExactStrings_loop seen out (v # values) =
     (let trimmed = trim v
      in if trimmed = [] then uniqueExactStrings_loop seen out values
         else if trimmed \<in> seen then uniqueExactStrings_loop seen out values
         else uniqueExactStrings_loop (insert trimmed seen) (out @ [trimmed]) values)"

definition uniqueExactStrings :: "string list \<Rightarrow> string list" where
  "uniqueExactStrings values = uniqueExactStrings_loop {} [] values"

text \<open>
  What \<open>uniqueExactStrings\<close> returns: strings that are trimmed and not empty,
  each once.
\<close>

definition tidy :: "string list \<Rightarrow> bool" where
  "tidy xs \<longleftrightarrow> distinct xs \<and> (\<forall>x \<in> set xs. x \<noteq> [] \<and> trim x = x)"

text \<open>
  Keeping the first element for each key, as a plain recursion: an element is
  dropped when its key is among \<open>seen\<close> or was the key of an earlier element.
\<close>

primrec first_by_key :: "('a \<Rightarrow> 'k) \<Rightarrow> 'k set \<Rightarrow> 'a list \<Rightarrow> 'a list" where
  "first_by_key key seen [] = []"
| "first_by_key key seen (x # xs) =
     (if key x \<in> seen then first_by_key key seen xs
      else x # first_by_key key (insert (key x) seen) xs)"

text \<open>
  \<open>getChannelInputs(args)\<close>: \<open>channels\<close> is \<open>args.channels\<close> (one entry for each
  \<open>--channels\<close> option) and \<open>env_channels\<close> the environment variable
  \<open>YOUTUBE_CHANNELS\<close>, \<open>None\<close> when it is not set.
\<close>

definition getChannelInputs :: "string list \<Rightarrow> string option \<Rightarrow> string list" where
  "getChannelInputs channels env_channels =
     (if channels \<noteq> []
      then uniqueStrings (concat (map (\<lambda>raw. splitCommaWhitespaceList (Some raw)) channels))
      else uniqueStrings (splitCommaWhitespaceList env_channels))"

text \<open>
  The references a caller supplies, one after the other: the pieces of every
  \<open>--channels\<close> value, or of \<open>YOUTUBE_CHANNELS\<close> when there is no such option.
\<close>

definition suppliedChannels :: "string list \<Rightarrow> string option \<Rightarrow> string list" where
  "suppliedChannels channels env_channels =
     (if channels \<noteq> []
      then concat (map (\<lambda>raw. split_runs (\<lambda>c. c = CHR '','' \<or> js_whitespace c) raw) channels)
      else (case env_channels of
              None \<Rightarrow> []
            | Some s \<Rightarrow> split_runs (\<lambda>c. c = CHR '','' \<or> js_whitespace c) s))"

section \<open>The URL parser of the runtime\<close>

text \<open>
  \<open>new URL(raw)\<close> is the parser of the WHATWG URL Standard, which belongs to the
  runtime and not to this program. Two parts of it are written out here.
  \<^item> A string without a scheme (an ASCII letter, then letters, digits, \<open>+\<close>,
    \<open>-\<close> or \<open>.\<close>, then a colon) is no absolute URL: the constructor throws.
  \<^item> A plain web address \<open>http(s)://host/path?query\<close>, with a host made of
    dot-separated labels of lower-case letters, a path of letters, digits,
    \<open>-\<close>, \<open>_\<close> and \<open>/\<close>, and a query of letters, digits, \<open>-\<close>, \<open>_\<close>, \<open>=\<close> and
    \<open>&\<close>, parses to these parts unchanged: there is nothing to decode, to
    encode or to normalise.
  For every other string the result is that of the parameter \<open>other\<close>, about which
  nothing is assumed: what is proved below holds whatever the runtime answers
  there.
\<close>

record url =
  hostname :: string
  pathname :: string
  searchParams :: "(string \<times> string) list"

definition ascii_alpha :: "char \<Rightarrow> bool" where
  "ascii_alpha c \<longleftrightarrow>
     (let n = (of_char c :: nat) in (65 \<le> n \<and> n \<le> 90) \<or> (97 \<le> n \<and> n \<le> 122))"

definition ascii_lower :: "char \<Rightarrow> bool" where
  "ascii_lower c \<longleftrightarrow> (let n = (of_char c :: nat) in 97 \<le> n \<and> n \<le> 122)"

definition ascii_digit :: "char \<Rightarrow> bool" where
  "ascii_digit c \<longleftrightarrow> (let n = (of_char c :: nat) in 48 \<le> n \<and> n \<le> 57)"

definition scheme_char :: "char \<Rightarrow> bool" where
  "scheme_char c \<longleftrightarrow> ascii_alpha c \<or> ascii_digit c \<or> c \<in> {CHR ''+'', CHR ''-'', CHR ''.''}"

definition c0_or_space :: "char \<Rightarrow> bool" where
  "c0_or_space c \<longleftrightarrow> (of_char c :: nat) \<le> 32"

text \<open>
  The parser first removes leading and trailing C0 controls and spaces, then every
  TAB, LF and CR.
\<close>

definition url_input :: "string \<Rightarrow> string" where
  "url_input s =
     filter (\<lambda>c. c \<notin> {CHR 0x09, CHR 0x0A, CHR 0x0D})
       (rev (dropWhile c0_or_space (rev (dropWhile c0_or_space s))))"

definition url_scheme :: "string \<Rightarrow> (string \<times> string) option" where
  "url_scheme s =
     (case s of
        [] \<Rightarrow> None
      | c # _ \<Rightarrow>
          if \<not> ascii_alpha c then None
          else (case dropWhile scheme_char s of
                  [] \<Rightarrow> None
                | d # rest \<Rightarrow>
                    if d = CHR '':'' then Some (takeWhile scheme_char s, rest) else None))"

text \<open>\<open>s.split(d)\<close> for a single character \<open>d\<close>.\<close>

primrec split_at :: "char \<Rightarrow> string \<Rightarrow> string list" where
  "split_at d [] = [[]]"
| "split_at d (c # cs) =
     (if c = d then [] # split_at d cs
      else (case split_at d cs of [] \<Rightarrow> [[c]] | l # ls \<Rightarrow> (c # l) # ls))"

definition plain_host :: "string \<Rightarrow> bool" where
  "plain_host h \<longleftrightarrow> list_all (\<lambda>l. l \<noteq> [] \<and> list_all ascii_lower l) (split_at (CHR ''.'') h)"

definition plain_path_char :: "char \<Rightarrow> bool" where
  "plain_path_char c \<longleftrightarrow>
     ascii_alpha c \<or> ascii_digit c \<or> c \<in> {CHR ''-'', CHR ''_'', CHR ''/''}"

definition plain_query_char :: "char \<Rightarrow> bool" where
  "plain_query_char c \<longleftrightarrow>
     ascii_alpha c \<or> ascii_digit c \<or> c \<in> {CHR ''-'', CHR ''_'', CHR ''='', CHR ''&''}"

text \<open>
  The name-value pairs of a query: the pieces between \<open>&\<close>, the empty ones left
  out, each cut at its first \<open>=\<close>.
\<close>

definition query_pairs :: "string \<Rightarrow> (string \<times> string) list" where
  "query_pairs q =
     map (\<lambda>piece. (takeWhile (\<lambda>c. c \<noteq> CHR ''='') piece, drop 1 (dropWhile (\<lambda>c. c \<noteq> CHR ''='') piece)))
       (filter (\<lambda>piece. piece \<noteq> []) (split_at (CHR ''&'') q))"

definition plain_web_url :: "string \<Rightarrow> string \<Rightarrow> url option" where
  "plain_web_url scheme rest =
     (let host = takeWhile (\<lambda>c. ascii_lower c \<or> c = CHR ''.'') (drop 2 rest);
          tail = dropWhile (\<lambda>c. ascii_lower c \<or> c = CHR ''.'') (drop 2 rest);
          path = takeWhile (\<lambda>c. c \<noteq> CHR ''?'') tail;
          query = drop 1 (dropWhile (\<lambda>c. c \<noteq> CHR ''?'') tail)
      in if (scheme = ''http'' \<or> scheme = ''https'') \<and> take 2 rest = ''//'' \<and> plain_host host
            \<and> (path = [] \<or> hd path = CHR ''/'') \<and> list_all plain_path_char path
            \<and> list_all plain_query_char query
         then Some \<lparr>hostname = host,
                    pathname = (if path = [] then ''/'' else path),
                    searchParams = query_pairs query\<rparr>
         else None)"

definition URL_new :: "(string \<Rightarrow> url option) \<Rightarrow> string \<Rightarrow> url option" where
  "URL_new other raw =
     (case url_scheme (url_input raw) of
        None \<Rightarrow> None
      | Some (scheme, rest) \<Rightarrow>
          (case plain_web_url scheme rest of
             Some u \<Rightarrow> Some u
           | None \<Rightarrow> other raw))"

text \<open>\<open>searchParams.get(name)\<close>: the value of the first pair with this name.\<close>

definition searchParams_get :: "url \<Rightarrow> string \<Rightarrow> string option" where
  "searchParams_get u name = map_of (searchParams u) name"

section \<open>Video IDs and the Ledger\<close>

definition startsWith :: "string \<Rightarrow> string \<Rightarrow> bool" where
  "startsWith s p \<longleftrightarrow> take (length p) s = p"

definition endsWith :: "string \<Rightarrow> string \<Rightarrow> bool" where
  "endsWith s p \<longleftrightarrow> length p \<le> length s \<and> drop (length s - length p) s = p"

text \<open>The characters of \<open>/^[a-zA-Z0-9_-]+$/\<close>.\<close>

definition id_char :: "char \<Rightarrow> bool" where
  "id_char c \<longleftrightarrow> ascii_alpha c \<or> ascii_digit c \<or> c \<in> {CHR ''_'', CHR ''-''}"

text \<open>
  A video ID as the specification defines it: exactly eleven characters, each a
  letter, a digit, \<open>-\<close> or \<open>_\<close>.
\<close>

definition valid_video_id :: "string \<Rightarrow> bool" where
  "valid_video_id v \<longleftrightarrow> length v = 11 \<and> list_all id_char v"

text \<open>\<open>s.split("/", 1)[0] || null\<close>.\<close>

definition first_segment :: "string \<Rightarrow> string option" where
  "first_segment s =
     (case take 1 (split_at (CHR ''/'') s) of
        [] \<Rightarrow> None
      | candidate # _ \<Rightarrow> if candidate = [] then None else Some candidate)"

text \<open>
  \<open>extractVideoIdFromUrlOrId(text)\<close>; \<open>None\<close> is \<open>null\<close>. The result of
  \<open>searchParams.get("v")\<close> is returned as it is, so it can be the empty string.
\<close>

definition extractVideoIdFromUrlOrId :: "(string \<Rightarrow> url option) \<Rightarrow> string \<Rightarrow> string option" where
  "extractVideoIdFromUrlOrId other text =
     (let raw = trim text
      in if raw = [] then None
         else if length raw = 11 \<and> list_all id_char raw then Some raw
         else (case URL_new other raw of
                 None \<Rightarrow> None
               | Some parsed \<Rightarrow>
                   (let host = toLowerCase (hostname parsed);
                        pathname = pathname parsed
                    in if host = ''youtu.be''
                       then first_segment (dropWhile (\<lambda>c. c = CHR ''/'') pathname)
                       else if host = ''youtube.com'' \<or> endsWith host ''.youtube.com''
                       then (if pathname = ''/watch'' then searchParams_get parsed ''v''
                             else if startsWith pathname ''/live/''
                             then first_segment (drop (length ''/live/'') pathname)
                             else None)
                       else None)))"

text \<open>
  The files: a path has no file (\<open>readFileSync\<close> fails with ENOENT) or the text
  of its file. Directories, permissions and other failures of the file system are
  not part of the model.
\<close>

type_synonym files = "string \<Rightarrow> string option"

text \<open>
  The loop body that \<open>readExistingVideoIds\<close> and \<open>readVideoIdQueue\<close> share: the
  video ID of one line, taken from its last token; \<open>None\<close> when the line is
  skipped.
\<close>

definition lineVideoId :: "(string \<Rightarrow> url option) \<Rightarrow> string \<Rightarrow> string option" where
  "lineVideoId other line =
     (let stripped = trim line
      in if stripped = [] then None
         else (let parts = split_runs js_whitespace stripped;
                   lastToken = last parts
               in case extractVideoIdFromUrlOrId other lastToken of
                    None \<Rightarrow> None
                  | Some ident \<Rightarrow> if ident = [] then None else Some ident))"

text \<open>A \<open>Set\<close> of strings keeps its members in the order of their first insertion.\<close>

definition set_add :: "string list \<Rightarrow> string \<Rightarrow> string list" where
  "set_add members x = (if x \<in> set members then members else members @ [x])"

definition readExistingVideoIds :: "(string \<Rightarrow> url option) \<Rightarrow> files \<Rightarrow> string \<Rightarrow> string list" where
  "readExistingVideoIds other fs filePath =
     (case fs filePath of
        None \<Rightarrow> []
      | Some content \<Rightarrow>
          fold (\<lambda>line ids. case lineVideoId other line of None \<Rightarrow> ids | Some ident \<Rightarrow> set_add ids ident)
            (split_lines content) [])"

definition watch_url :: "string \<Rightarrow> string" where
  "watch_url videoId = ''https://www.youtube.com/watch?v='' @ videoId"

text \<open>The two other URL forms of a video that the extractor reads.\<close>

definition short_url :: "string \<Rightarrow> string" where
  "short_url videoId = ''https://youtu.be/'' @ videoId"

definition live_url :: "string \<Rightarrow> string" where
  "live_url videoId = ''https://www.youtube.com/live/'' @ videoId"

text \<open>
  The text that \<open>appendNewLiveLinks\<close> adds to \<open>buffer\<close> for one video: the
  timestamp and a TAB when timestamps are on, the watch URL, a line feed.
\<close>

definition ledger_line :: "bool \<Rightarrow> string \<Rightarrow> string \<Rightarrow> string" where
  "ledger_line withTimestamp timestamp videoId =
     (if withTimestamp then timestamp @ [CHR 0x09] @ watch_url videoId @ [CHR 0x0A]
      else watch_url videoId @ [CHR 0x0A])"

text \<open>
  The loop of \<open>appendNewLiveLinks\<close> over \<open>videoIds\<close>; its state is \<open>existing\<close>,
  \<open>savedVideoIds\<close>, \<open>savedUrls\<close> and \<open>buffer\<close>.
\<close>

fun append_loop ::
  "bool \<Rightarrow> string \<Rightarrow> string list \<Rightarrow> string list \<times> string list \<times> string list \<times> string
     \<Rightarrow> string list \<times> string list \<times> string list \<times> string" where
  "append_loop withTimestamp timestamp [] st = st"
| "append_loop withTimestamp timestamp (videoId # videoIds) (existing, savedVideoIds, savedUrls, buffer) =
     (if videoId \<in> set existing
      then append_loop withTimestamp timestamp videoIds (existing, savedVideoIds, savedUrls, buffer)
      else append_loop withTimestamp timestamp videoIds
             (set_add existing videoId,
              savedVideoIds @ [videoId],
              savedUrls @ [watch_url videoId],
              buffer @ ledger_line withTimestamp timestamp videoId))"

definition appendFileSync :: "files \<Rightarrow> string \<Rightarrow> string \<Rightarrow> files" where
  "appendFileSync fs filePath data =
     fs(filePath \<mapsto> (case fs filePath of None \<Rightarrow> data | Some content \<Rightarrow> content @ data))"

text \<open>
  A Ledger as the program leaves it: no file, or a text that is empty or ends
  with a line feed.
\<close>

definition ends_with_line_feed :: "string option \<Rightarrow> bool" where
  "ends_with_line_feed file \<longleftrightarrow>
     (case file of None \<Rightarrow> True | Some content \<Rightarrow> content = [] \<or> last content = CHR 0x0A)"

text \<open>
  \<open>appendNewLiveLinks(outputPath, videoIds, { withTimestamp })\<close>; \<open>timestamp\<close> is
  what \<open>utcNowIsoSeconds()\<close> returns at the call. The result is
  \<open>{ savedVideoIds, savedUrls }\<close> and the files afterwards.
\<close>

definition appendNewLiveLinks ::
  "(string \<Rightarrow> url option) \<Rightarrow> files \<Rightarrow> string \<Rightarrow> string list \<Rightarrow> bool \<Rightarrow> string
     \<Rightarrow> (string list \<times> string list) \<times> files" where
  "appendNewLiveLinks other fs outputPath videoIds withTimestamp timestamp =
     (if videoIds = [] then (([], []), fs)
      else (let existing = readExistingVideoIds other fs outputPath
            in case append_loop withTimestamp timestamp videoIds (existing, [], [], []) of
                 (_, savedVideoIds, savedUrls, buffer) \<Rightarrow>
                   ((savedVideoIds, savedUrls),
                    (if buffer \<noteq> [] then appendFileSync fs outputPath buffer else fs))))"

section \<open>Numbers\<close>

text \<open>
  A JavaScript number is a double: a finite value, which is a rational number,
  one of the two infinities, or NaN. The two zeros are one value here; nothing
  below tells them apart.
\<close>

datatype number = Finite rat | PosInfinity | NegInfinity | NaN











section \<open>Values of the web API\<close>

text \<open>
  What \<open>JSON.parse\<close> returns, and \<open>JUndefined\<close> for what reading an absent
  property gives. An object lists each of its properties once.
\<close>

datatype json =
    JUndefined
  | JNull
  | JBool bool
  | JNum number
  | JStr string
  | JArr "json list"
  | JObj "(string \<times> json) list"

text \<open>
  \<open>value.name\<close> for a value that is neither \<open>null\<close> nor \<open>undefined\<close> (the source
  tests this before it reads a property) and a name that is no built-in property.
\<close>

fun get_prop :: "json \<Rightarrow> string \<Rightarrow> json" where
  "get_prop (JObj props) name = (case map_of props name of None \<Rightarrow> JUndefined | Some v \<Rightarrow> v)"
| "get_prop _ name = JUndefined"

fun truthy :: "json \<Rightarrow> bool" where
  "truthy JUndefined = False"
| "truthy JNull = False"
| "truthy (JBool b) = b"
| "truthy (JNum n) = (n \<noteq> Finite 0 \<and> n \<noteq> NaN)"
| "truthy (JStr s) = (s \<noteq> [])"
| "truthy (JArr _) = True"
| "truthy (JObj _) = True"

fun is_string :: "json \<Rightarrow> bool" where
  "is_string (JStr _) = True"
| "is_string _ = False"

text \<open>
  \<open>Array.isArray(data.items) ? data.items : []\<close>; reading \<open>items\<close> of \<open>null\<close> is a
  TypeError.
\<close>

definition items_of :: "json \<Rightarrow> string + json list" where
  "items_of data =
     (case data of
        JNull \<Rightarrow> Inl ''TypeError''
      | JUndefined \<Rightarrow> Inl ''TypeError''
      | _ \<Rightarrow> (case get_prop data ''items'' of JArr items \<Rightarrow> Inr items | _ \<Rightarrow> Inr []))"

section \<open>The liveness filter\<close>

text \<open>
  The body of the loop of \<open>filterCurrentlyLiveVideoIds\<close> over the items: the
  video ID that the body pushes to \<open>liveIds\<close>, \<open>None\<close> when it pushes nothing.
\<close>

definition liveVideoIdOfItem :: "json \<Rightarrow> string option" where
  "liveVideoIdOfItem item =
     (let videoId = (if truthy item \<and> is_string (get_prop item ''id'')
                     then get_prop item ''id'' else JNull)
      in if \<not> truthy videoId then None
         else (let liveBroadcastContent =
                     (if truthy item \<and> truthy (get_prop item ''snippet'')
                         \<and> is_string (get_prop (get_prop item ''snippet'') ''liveBroadcastContent'')
                      then get_prop (get_prop item ''snippet'') ''liveBroadcastContent''
                      else JNull);
                   details =
                     (if truthy item \<and> truthy (get_prop item ''liveStreamingDetails'')
                      then get_prop item ''liveStreamingDetails'' else JNull);
                   isLiveBySnippet = (liveBroadcastContent = JStr ''live'');
                   isLiveByDetails =
                     (truthy details
                      \<and> is_string (get_prop details ''actualStartTime'')
                      \<and> truthy (get_prop details ''actualStartTime'')
                      \<and> (get_prop details ''actualEndTime'' = JUndefined
                           \<or> get_prop details ''actualEndTime'' = JNull))
               in if isLiveBySnippet \<or> isLiveByDetails
                  then (case videoId of JStr v \<Rightarrow> Some v | _ \<Rightarrow> None)
                  else None))"

text \<open>
  \<open>filterCurrentlyLiveVideoIds(apiKey, videoIds, ...)\<close>; \<open>videos_list ids\<close> is the
  outcome of the request to the video-details endpoint for these IDs, an error
  message or the parsed body.
\<close>

definition filterCurrentlyLiveVideoIds ::
  "(string list \<Rightarrow> string + json) \<Rightarrow> string list \<Rightarrow> string + string list" where
  "filterCurrentlyLiveVideoIds videos_list videoIds =
     (let ids = take 50 (uniqueExactStrings videoIds)
      in if ids = [] then Inr []
         else (case videos_list ids of
                 Inl err \<Rightarrow> Inl err
               | Inr data \<Rightarrow>
                   (case items_of data of
                      Inl err \<Rightarrow> Inl err
                    | Inr items \<Rightarrow> Inr (uniqueExactStrings (List.map_filter liveVideoIdOfItem items)))))"

text \<open>
  The two signals as the specification words them, read off the fields of the
  item: the status field says "live", or there is a start time and no end time.
\<close>

definition liveBroadcastContent_of :: "json \<Rightarrow> json" where
  "liveBroadcastContent_of item = get_prop (get_prop item ''snippet'') ''liveBroadcastContent''"

definition actualStartTime_of :: "json \<Rightarrow> json" where
  "actualStartTime_of item = get_prop (get_prop item ''liveStreamingDetails'') ''actualStartTime''"

definition actualEndTime_of :: "json \<Rightarrow> json" where
  "actualEndTime_of item = get_prop (get_prop item ''liveStreamingDetails'') ''actualEndTime''"

definition nonempty_string :: "json \<Rightarrow> bool" where
  "nonempty_string v \<longleftrightarrow> (case v of JStr t \<Rightarrow> t \<noteq> [] | _ \<Rightarrow> False)"

definition absent :: "json \<Rightarrow> bool" where
  "absent v \<longleftrightarrow> v = JUndefined \<or> v = JNull"

definition live_by_two_signals :: "json \<Rightarrow> bool" where
  "live_by_two_signals item \<longleftrightarrow>
     liveBroadcastContent_of item = JStr ''live''
     \<or> (nonempty_string (actualStartTime_of item) \<and> absent (actualEndTime_of item))"

text \<open>The ID of an item of the reply: its \<open>id\<close>, when that is a non-empty string.\<close>

definition item_id :: "json \<Rightarrow> string option" where
  "item_id item =
     (case get_prop item ''id'' of JStr v \<Rightarrow> if v = [] then None else Some v | _ \<Rightarrow> None)"

section \<open>The Retry Queue and the playlist\<close>

definition readVideoIdQueue :: "(string \<Rightarrow> url option) \<Rightarrow> files \<Rightarrow> string \<Rightarrow> string list" where
  "readVideoIdQueue other fs queuePath =
     (case fs queuePath of
        None \<Rightarrow> []
      | Some content \<Rightarrow> uniqueExactStrings (List.map_filter (lineVideoId other) (split_lines content)))"

text \<open>\<open>ids.join("\n")\<close> followed by a line feed.\<close>

fun join_lines :: "string list \<Rightarrow> string" where
  "join_lines [] = []"
| "join_lines [x] = x"
| "join_lines (x # y # ys) = x @ [CHR 0x0A] @ join_lines (y # ys)"

definition writeVideoIdQueue :: "files \<Rightarrow> string \<Rightarrow> string list \<Rightarrow> files" where
  "writeVideoIdQueue fs queuePath videoIds =
     (let ids = uniqueExactStrings videoIds
      in if ids = [] then fs(queuePath := None)
         else fs(queuePath \<mapsto> join_lines ids @ [CHR 0x0A]))"

text \<open>
  What the remote side answers during one call of \<open>flushPlaylistQueue\<close> or
  \<open>syncOutputFileToPlaylist\<close>:
  \<^item> \<open>access_token\<close>, the outcome of \<open>getYouTubeAccessTokenAuto\<close>, an error message
    or the token;
  \<^item> \<open>target_playlist\<close>, the outcome of \<open>resolveTargetPlaylistId\<close>, an error message
    or the playlist ID;
  \<^item> \<open>item_pages\<close>, the outcomes of the successive page requests of
    \<open>fetchPlaylistVideoIdSet\<close>, in order; a request after the last of them gets no
    reply and ends as a timeout;
  \<^item> \<open>insert_error videoId\<close>, the error message of \<open>insertVideoIntoPlaylist\<close> for
    this video, \<open>None\<close> when the insertion succeeds.
\<close>

record remote =
  access_token :: "string + string"
  target_playlist :: "string + string"
  item_pages :: "(string + json) list"
  insert_error :: "string \<Rightarrow> string option"

text \<open>The item loop of \<open>fetchPlaylistVideoIdSet\<close>: the video ID that one item adds.\<close>

definition playlistItemVideoId :: "json \<Rightarrow> string option" where
  "playlistItemVideoId item =
     (if truthy item \<and> truthy (get_prop item ''contentDetails'')
         \<and> is_string (get_prop (get_prop item ''contentDetails'') ''videoId'')
         \<and> truthy (get_prop (get_prop item ''contentDetails'') ''videoId'')
      then (case get_prop (get_prop item ''contentDetails'') ''videoId'' of
              JStr v \<Rightarrow> Some v | _ \<Rightarrow> None)
      else None)"

fun fetchPlaylistVideoIdSet_loop :: "(string + json) list \<Rightarrow> string list \<Rightarrow> string + string list" where
  "fetchPlaylistVideoIdSet_loop [] ids = Inl ''Request timed out''"
| "fetchPlaylistVideoIdSet_loop (Inl err # replies) ids = Inl err"
| "fetchPlaylistVideoIdSet_loop (Inr data # replies) ids =
     (case items_of data of
        Inl err \<Rightarrow> Inl err
      | Inr items \<Rightarrow>
          (let ids' = fold (\<lambda>item acc. case playlistItemVideoId item of
                                          None \<Rightarrow> acc | Some v \<Rightarrow> set_add acc v) items ids;
               nextToken = (if is_string (get_prop data ''nextPageToken'')
                            then get_prop data ''nextPageToken'' else JNull)
           in if \<not> truthy nextToken then Inr ids'
              else fetchPlaylistVideoIdSet_loop replies ids'))"

definition fetchPlaylistVideoIdSet :: "(string + json) list \<Rightarrow> string + string list" where
  "fetchPlaylistVideoIdSet replies = fetchPlaylistVideoIdSet_loop replies []"

text \<open>
  \<open>addVideoIdsToPlaylist\<close>: the loop over the IDs with \<open>addedCount\<close> and \<open>failures\<close>.
  The result is \<open>{ addedCount, failures }\<close> together with the IDs for which
  \<open>insertVideoIntoPlaylist\<close> was called, in the order of the calls.
\<close>

fun addVideoIds_loop ::
  "(string \<Rightarrow> string option) \<Rightarrow> string list \<Rightarrow> nat \<times> (string \<times> string) list
     \<Rightarrow> nat \<times> (string \<times> string) list" where
  "addVideoIds_loop ins [] acc = acc"
| "addVideoIds_loop ins (videoId # ids) (addedCount, failures) =
     (case ins videoId of
        None \<Rightarrow> addVideoIds_loop ins ids (addedCount + 1, failures)
      | Some message \<Rightarrow> addVideoIds_loop ins ids (addedCount, failures @ [(videoId, message)]))"

definition addVideoIdsToPlaylist ::
  "(string \<Rightarrow> string option) \<Rightarrow> string list \<Rightarrow> (nat \<times> (string \<times> string) list) \<times> string list" where
  "addVideoIdsToPlaylist ins videoIds =
     (let ids = uniqueExactStrings videoIds
      in (addVideoIds_loop ins ids (0, []), ids))"

record playlist_result =
  queuePath :: string
  playlistId :: "string option"
  addedCount :: nat
  failures :: "(string \<times> string) list"
  remainingCount :: nat
  synced :: "bool option"

text \<open>
  \<open>flushPlaylistQueue(args, state, outputPath, newVideoIds, { ensurePlaylist })\<close>.
  \<open>queue_path\<close> is \<open>resolvePlaylistQueuePath(outputPath)\<close>. The result is the
  returned object, the files afterwards, and the IDs for which an insertion was
  requested. An exception of the token, of the playlist lookup or of the batch
  ends in the \<open>catch\<close> branch.
\<close>

definition flushPlaylistQueue ::
  "(string \<Rightarrow> url option) \<Rightarrow> remote \<Rightarrow> files \<Rightarrow> string \<Rightarrow> string list \<Rightarrow> bool
     \<Rightarrow> playlist_result \<times> files \<times> string list" where
  "flushPlaylistQueue other rem fs queue_path newVideoIds ensurePlaylist =
     (let existingQueue = readVideoIdQueue other fs queue_path;
          newIds = newVideoIds
      in if existingQueue = [] \<and> newIds = []
         then (if \<not> ensurePlaylist
               then (\<lparr>queuePath = queue_path, playlistId = None, addedCount = 0, failures = [],
                       remainingCount = 0, synced = None\<rparr>, fs, [])
               else (case access_token rem of
                       Inl message \<Rightarrow>
                         (\<lparr>queuePath = queue_path, playlistId = None, addedCount = 0,
                            failures = [(''playlist'', message)], remainingCount = 0, synced = None\<rparr>,
                          fs, [])
                     | Inr accessToken \<Rightarrow>
                         (case target_playlist rem of
                            Inl message \<Rightarrow>
                              (\<lparr>queuePath = queue_path, playlistId = None, addedCount = 0,
                                 failures = [(''playlist'', message)], remainingCount = 0,
                                 synced = None\<rparr>, fs, [])
                          | Inr pid \<Rightarrow>
                              (\<lparr>queuePath = queue_path, playlistId = Some pid, addedCount = 0,
                                 failures = [], remainingCount = 0, synced = None\<rparr>, fs, []))))
         else (let mergedQueue = uniqueExactStrings (existingQueue @ newIds);
                   fs1 = writeVideoIdQueue fs queue_path mergedQueue
               in if mergedQueue = []
                  then (\<lparr>queuePath = queue_path, playlistId = None, addedCount = 0, failures = [],
                          remainingCount = 0, synced = None\<rparr>, fs1, [])
                  else (case access_token rem of
                          Inl message \<Rightarrow>
                            (\<lparr>queuePath = queue_path, playlistId = None, addedCount = 0,
                               failures = [(''playlist'', message)],
                               remainingCount = length mergedQueue, synced = None\<rparr>, fs1, [])
                        | Inr accessToken \<Rightarrow>
                            (case target_playlist rem of
                               Inl message \<Rightarrow>
                                 (\<lparr>queuePath = queue_path, playlistId = None, addedCount = 0,
                                    failures = [(''playlist'', message)],
                                    remainingCount = length mergedQueue, synced = None\<rparr>, fs1, [])
                             | Inr pid \<Rightarrow>
                                 (case addVideoIdsToPlaylist (insert_error rem) mergedQueue of
                                    ((added, failed), requested) \<Rightarrow>
                                      (let failedIds = set (map fst failed);
                                           remaining = filter (\<lambda>v. v \<in> failedIds) mergedQueue;
                                           fs2 = writeVideoIdQueue fs1 queue_path remaining
                                       in (\<lparr>queuePath = queue_path, playlistId = Some pid,
                                             addedCount = added, failures = failed,
                                             remainingCount = length remaining, synced = None\<rparr>,
                                           fs2, requested)))))))"

text \<open>
  \<open>syncOutputFileToPlaylist(args, state, outputPath)\<close>, with the same result
  triple.
\<close>

definition syncOutputFileToPlaylist ::
  "(string \<Rightarrow> url option) \<Rightarrow> remote \<Rightarrow> files \<Rightarrow> string \<Rightarrow> string
     \<Rightarrow> playlist_result \<times> files \<times> string list" where
  "syncOutputFileToPlaylist other rem fs queue_path outputPath =
     (let existingQueue = readVideoIdQueue other fs queue_path;
          outputIds = readExistingVideoIds other fs outputPath;
          desiredIds = uniqueExactStrings (existingQueue @ outputIds)
      in if desiredIds = []
         then (\<lparr>queuePath = queue_path, playlistId = None, addedCount = 0, failures = [],
                 remainingCount = length existingQueue, synced = Some True\<rparr>, fs, [])
         else (let failed_sync = (\<lambda>message.
                     (\<lparr>queuePath = queue_path, playlistId = None, addedCount = 0,
                        failures = [(''playlist'', message)],
                        remainingCount = length desiredIds, synced = Some False\<rparr>, fs, []))
               in case access_token rem of
                    Inl message \<Rightarrow> failed_sync message
                  | Inr accessToken \<Rightarrow>
                      (case target_playlist rem of
                         Inl message \<Rightarrow> failed_sync message
                       | Inr pid \<Rightarrow>
                           (case fetchPlaylistVideoIdSet (item_pages rem) of
                              Inl message \<Rightarrow> failed_sync message
                            | Inr alreadyInPlaylist \<Rightarrow>
                                (let pending = filter (\<lambda>v. v \<notin> set alreadyInPlaylist) desiredIds
                                 in if pending = []
                                    then (\<lparr>queuePath = queue_path, playlistId = Some pid,
                                            addedCount = 0, failures = [], remainingCount = 0,
                                            synced = Some True\<rparr>,
                                          (if existingQueue \<noteq> []
                                           then writeVideoIdQueue fs queue_path [] else fs),
                                          [])
                                    else (case addVideoIdsToPlaylist (insert_error rem) pending of
                                            ((added, failed), requested) \<Rightarrow>
                                              (let failedIds = set (map fst failed);
                                                   remaining = filter (\<lambda>v. v \<in> failedIds) pending;
                                                   fs1 = writeVideoIdQueue fs queue_path remaining
                                               in (\<lparr>queuePath = queue_path, playlistId = Some pid,
                                                     addedCount = added, failures = failed,
                                                     remainingCount = length remaining,
                                                     synced = Some True\<rparr>,
                                                   fs1, requested))))))))"

section \<open>Access tokens\<close>

text \<open>
  The OAuth settings that \<open>resolveOauthConfig\<close> returns (\<open>None\<close> is \<open>null\<close>) and the
  in-memory cache \<open>state.oauth\<close>, which \<open>main\<close> creates as
  \<open>{ accessToken: null, expiresAtMs: 0 }\<close> and which only the two functions below
  update.
\<close>

record oauth_config =
  clientId :: "string option"
  clientSecret :: "string option"
  refreshToken :: "string option"
  accessToken :: "string option"











section \<open>One run\<close>

text \<open>
  What \<open>runOnce\<close> has worked out from the arguments, the environment and the
  playlist state file before it looks at the channels. \<open>apiKey\<close> is empty when
  there is none.
\<close>

record settings =
  apiKey :: string
  channelInputs :: "string list"
  outputPath :: string
  playlistQueuePath :: string
  playlistStatePath :: string
  scanLatest :: int
  withTimestamp :: bool
  debug :: bool
  saveToPlaylist :: bool
  playlistSyncOutputEnabled :: bool
  needsPlaylistBackfill :: bool

text \<open>
  The lookups of the channel loop: \<open>resolveChannelId\<close> gives an error message or
  the channel ID; \<open>fetchLiveVideoIds\<close> stands for \<open>fetchLiveVideoIdsViaSearch\<close> or
  \<open>fetchLiveVideoIdsViaUploads\<close>, whichever the settings select, and carries the
  memo maps of the live lookup as \<open>'c\<close>. \<open>timestamp\<close> is \<open>utcNowIsoSeconds()\<close> at
  the append, \<open>sync_state_text\<close> the text that \<open>writePlaylistSyncState\<close> writes for
  a playlist ID, \<open>state_playlistId\<close> the playlist ID remembered in \<open>state\<close>.
\<close>

record 'c lookups =
  resolveChannelId :: "string \<Rightarrow> string + string"
  fetchLiveVideoIds :: "'c \<Rightarrow> string \<Rightarrow> (string + string list) \<times> 'c"
  timestamp :: string
  sync_state_text :: "files \<Rightarrow> string option \<Rightarrow> string"
  state_playlistId :: "string option"

record 'c world =
  file_system :: files
  channelIdByInput :: "string \<Rightarrow> string option"
  caches :: 'c

text \<open>
  The body of the \<open>try\<close> block in the channel loop of \<open>runOnce\<close>, for one channel
  input: the channel ID from the memo map or from \<open>resolveChannelId\<close>, which is
  then remembered, and the live lookup. The result is the live video IDs or the
  message of the exception, with the two memo states afterwards.
\<close>

definition channel_attempt ::
  "'c lookups \<Rightarrow> (string \<Rightarrow> string option) \<times> 'c \<Rightarrow> string
     \<Rightarrow> (string + string list) \<times> (string \<Rightarrow> string option) \<times> 'c" where
  "channel_attempt lk st channelInput =
     (case st of
        (memo, cache) \<Rightarrow>
          (let known = (case memo channelInput of
                          None \<Rightarrow> None
                        | Some cid \<Rightarrow> if cid = [] then None else Some cid);
               resolved = (case known of
                             Some cid \<Rightarrow> (Inr cid, memo)
                           | None \<Rightarrow>
                               (case resolveChannelId lk channelInput of
                                  Inl message \<Rightarrow> (Inl message, memo)
                                | Inr cid \<Rightarrow> (Inr cid, memo(channelInput \<mapsto> cid))))
           in case resolved of
                (Inl message, memo') \<Rightarrow> (Inl message, memo', cache)
              | (Inr cid, memo') \<Rightarrow>
                  (case fetchLiveVideoIds lk cache cid of
                     (found, cache') \<Rightarrow> (found, memo', cache'))))"

text \<open>
  The loop of \<open>runOnce\<close> over the channel inputs; \<open>n\<close> is
  \<open>channelInputs.length\<close>. The loop state is the two memo states, the set
  \<open>allLiveVideoIds\<close> and the array \<open>errors\<close>. \<open>Inl\<close> is the exception that the
  \<open>catch\<close> block throws again when there is one channel only.
\<close>

fun channel_loop ::
  "'c lookups \<Rightarrow> nat \<Rightarrow> string list
     \<Rightarrow> (string \<Rightarrow> string option) \<times> 'c \<times> string list \<times> string list
     \<Rightarrow> (string + string list \<times> string list) \<times> (string \<Rightarrow> string option) \<times> 'c" where
  "channel_loop lk n [] (memo, cache, allLiveVideoIds, errors) =
     (Inr (allLiveVideoIds, errors), memo, cache)"
| "channel_loop lk n (channelInput # rest) (memo, cache, allLiveVideoIds, errors) =
     (case channel_attempt lk (memo, cache) channelInput of
        (Inr liveVideoIds, memo', cache') \<Rightarrow>
          channel_loop lk n rest
            (memo', cache', fold (\<lambda>v acc. set_add acc v) liveVideoIds allLiveVideoIds, errors)
      | (Inl message, memo', cache') \<Rightarrow>
          if n = 1 then (Inl message, memo', cache')
          else channel_loop lk n rest
                 (memo', cache', allLiveVideoIds,
                  errors @ [''['' @ channelInput @ ''] '' @ message]))"

text \<open>
  The outcomes of the attempts for a list of channel inputs, one after the other,
  each starting from the memo states that the one before left.
\<close>

fun channel_outcomes ::
  "'c lookups \<Rightarrow> (string \<Rightarrow> string option) \<times> 'c \<Rightarrow> string list \<Rightarrow> (string \<times> (string + string list)) list" where
  "channel_outcomes lk st [] = []"
| "channel_outcomes lk st (channelInput # rest) =
     (case channel_attempt lk st channelInput of
        (found, st') \<Rightarrow> (channelInput, found) # channel_outcomes lk st' rest)"

text \<open>
  Of a list of outcomes: the live video IDs of the channels that succeeded, and
  the lines that the loop adds to \<open>errors\<close> for the channels that failed.
\<close>

definition live_of_successes :: "(string \<times> (string + string list)) list \<Rightarrow> string list" where
  "live_of_successes outcomes =
     concat (List.map_filter (\<lambda>(channelInput, found). case found of
                                  Inl message \<Rightarrow> None | Inr liveVideoIds \<Rightarrow> Some liveVideoIds)
               outcomes)"

definition messages_of_failures :: "(string \<times> (string + string list)) list \<Rightarrow> string list" where
  "messages_of_failures outcomes =
     List.map_filter (\<lambda>(channelInput, found). case found of
                          Inl message \<Rightarrow> Some (''['' @ channelInput @ ''] '' @ message)
                        | Inr liveVideoIds \<Rightarrow> None)
       outcomes"

text \<open>
  The playlist step that both branches of \<open>runOnce\<close> share: the backfill or the
  flush, then the write of the sync state when it is due.
\<close>

definition playlist_step ::
  "(string \<Rightarrow> url option) \<Rightarrow> settings \<Rightarrow> 'c lookups \<Rightarrow> remote \<Rightarrow> files \<Rightarrow> string list \<Rightarrow> bool
     \<Rightarrow> playlist_result \<times> files \<times> string list" where
  "playlist_step other cfg lk rem fs newVideoIds ensurePlaylist =
     (case (if needsPlaylistBackfill cfg
            then syncOutputFileToPlaylist other rem fs (playlistQueuePath cfg) (outputPath cfg)
            else flushPlaylistQueue other rem fs (playlistQueuePath cfg) newVideoIds ensurePlaylist) of
        (result, fs1, requested) \<Rightarrow>
          (let outputSyncOk = (if needsPlaylistBackfill cfg then synced result = Some True else True)
           in (result,
               (if playlistSyncOutputEnabled cfg \<and> (\<not> needsPlaylistBackfill cfg \<or> outputSyncOk)
                then fs1(playlistStatePath cfg \<mapsto>
                       sync_state_text lk fs1
                         (case playlistId result of Some p \<Rightarrow> Some p | None \<Rightarrow> state_playlistId lk))
                else fs1),
               requested)))"

record 'c run_result =
  outcome :: "string + nat"
  world_after :: "'c world"
  reported_errors :: "string list"
  saved :: "string list \<times> string list"
  playlist_failures :: "(string \<times> string) list"
  insert_requests :: "string list"

text \<open>
  \<open>runOnce(args, state)\<close>. \<open>outcome\<close> is the exit code that is returned or the
  message of the exception that leaves the function; \<open>reported_errors\<close> is the
  array \<open>errors\<close> that the run prints.
\<close>

definition runOnce ::
  "(string \<Rightarrow> url option) \<Rightarrow> settings \<Rightarrow> 'c lookups \<Rightarrow> remote \<Rightarrow> 'c world \<Rightarrow> 'c run_result" where
  "runOnce other cfg lk rem w =
     (if apiKey cfg = [] \<or> channelInputs cfg = [] \<or> scanLatest cfg \<le> 0 \<or> scanLatest cfg > 50
      then \<lparr>outcome = Inr 2, world_after = w, reported_errors = [], saved = ([], []),
             playlist_failures = [], insert_requests = []\<rparr>
      else (case channel_loop lk (length (channelInputs cfg)) (channelInputs cfg)
                   (channelIdByInput w, caches w, [], []) of
              (Inl message, memo, cache) \<Rightarrow>
                \<lparr>outcome = Inl message,
                  world_after = w\<lparr>channelIdByInput := memo, caches := cache\<rparr>,
                  reported_errors = [], saved = ([], []), playlist_failures = [],
                  insert_requests = []\<rparr>
            | (Inr (liveVideoIds, errors), memo, cache) \<Rightarrow>
                (if liveVideoIds = []
                 then (if saveToPlaylist cfg
                       then (case playlist_step other cfg lk rem (file_system w) [] (debug cfg) of
                               (result, fs1, requested) \<Rightarrow>
                                 \<lparr>outcome = Inr (if errors \<noteq> [] \<or> failures result \<noteq> [] then 1 else 0),
                                   world_after = \<lparr>file_system = fs1, channelIdByInput = memo,
                                                   caches = cache\<rparr>,
                                   reported_errors = errors, saved = ([], []),
                                   playlist_failures = failures result,
                                   insert_requests = requested\<rparr>)
                       else \<lparr>outcome = Inr (if errors \<noteq> [] then 1 else 0),
                              world_after = w\<lparr>channelIdByInput := memo, caches := cache\<rparr>,
                              reported_errors = errors, saved = ([], []),
                              playlist_failures = [], insert_requests = []\<rparr>)
                 else (case appendNewLiveLinks other (file_system w) (outputPath cfg) liveVideoIds
                              (withTimestamp cfg) (timestamp lk) of
                         (savedResult, fs1) \<Rightarrow>
                           (if saveToPlaylist cfg
                            then (case playlist_step other cfg lk rem fs1 (fst savedResult) False of
                                    (result, fs2, requested) \<Rightarrow>
                                      \<lparr>outcome = Inr (if errors \<noteq> [] \<or> failures result \<noteq> []
                                                       then 1 else 0),
                                        world_after = \<lparr>file_system = fs2, channelIdByInput = memo,
                                                        caches = cache\<rparr>,
                                        reported_errors = errors, saved = savedResult,
                                        playlist_failures = failures result,
                                        insert_requests = requested\<rparr>)
                            else \<lparr>outcome = Inr (if errors \<noteq> [] then 1 else 0),
                                   world_after = \<lparr>file_system = fs1, channelIdByInput = memo,
                                                   caches = cache\<rparr>,
                                   reported_errors = errors, saved = savedResult,
                                   playlist_failures = [], insert_requests = []\<rparr>)))))"

text \<open>
  Two shorthands for the statements below: the body of the loop of
  \<open>readExistingVideoIds\<close>, and the reconciliation that \<open>playlist_step\<close> runs.
\<close>

abbreviation (input) ledger_step :: "(string \<Rightarrow> url option) \<Rightarrow> string \<Rightarrow> string list \<Rightarrow> string list" where
  "ledger_step other \<equiv>
     (\<lambda>line ids. case lineVideoId other line of None \<Rightarrow> ids | Some ident \<Rightarrow> set_add ids ident)"

abbreviation (input) reconcile ::
  "(string \<Rightarrow> url option) \<Rightarrow> settings \<Rightarrow> remote \<Rightarrow> files \<Rightarrow> string list \<Rightarrow> bool
     \<Rightarrow> playlist_result \<times> files \<times> string list" where
  "reconcile other cfg rem fs newIds ens \<equiv>
     (if needsPlaylistBackfill cfg
      then syncOutputFileToPlaylist other rem fs (playlistQueuePath cfg) (outputPath cfg)
      else flushPlaylistQueue other rem fs (playlistQueuePath cfg) newIds ens)"

section \<open>Properties of the string functions\<close>

lemma first_by_key_keys:
  "key ` set (first_by_key key seen xs) = key ` set xs - seen"
  by (induction xs arbitrary: seen) auto

lemma first_by_key_distinct:
  "distinct (map key (first_by_key key seen xs))"
  by (induction xs arbitrary: seen) (auto simp: first_by_key_keys)

lemma first_by_key_subseq:
  "subseq (first_by_key key seen xs) xs"
  by (induction xs arbitrary: seen) auto

lemma first_by_key_find:
  "r \<in> set (first_by_key key seen xs) \<Longrightarrow> find (\<lambda>t. key t = key r) xs = Some r"
proof (induction xs arbitrary: seen)
  case Nil
  then show ?case by simp
next
  case (Cons x xs)
  show ?case
  proof (cases "key x \<in> seen")
    case True
    with Cons.prems have r: "r \<in> set (first_by_key key seen xs)" by simp
    then have "key r \<in> key ` set xs - seen" using first_by_key_keys[of key seen xs] by blast
    with True have "key x \<noteq> key r" by auto
    with Cons.IH[OF r] show ?thesis by simp
  next
    case False
    show ?thesis
    proof (cases "r = x")
      case True
      then show ?thesis by simp
    next
      case False
      with \<open>key x \<notin> seen\<close> Cons.prems have r: "r \<in> set (first_by_key key (insert (key x) seen) xs)" by simp
      then have "key r \<in> key ` set xs - insert (key x) seen"
        using first_by_key_keys[of key "insert (key x) seen" xs] by blast
      then have "key x \<noteq> key r" by auto
      with Cons.IH[OF r] show ?thesis by simp
    qed
  qed
qed

lemma uniqueStrings_loop_eq:
  "uniqueStrings_loop seen out values =
     out @ first_by_key toLowerCase seen (filter (\<lambda>r. r \<noteq> []) (map trim values))"
  by (induction "values" arbitrary: seen out) (auto simp: Let_def)

lemma uniqueExactStrings_loop_eq:
  "uniqueExactStrings_loop seen out values =
     out @ first_by_key (\<lambda>x. x) seen (filter (\<lambda>r. r \<noteq> []) (map trim values))"
  by (induction "values" arbitrary: seen out) (auto simp: Let_def)

lemma dropWhile_rev_stable:
  assumes "a = [] \<or> \<not> P (hd a)"
  shows "dropWhile P (rev (dropWhile P (rev a))) = rev (dropWhile P (rev a))"
  using assms
  by (metis (no_types, lifting) Nil_is_rev_conv dropWhile_eq_self_iff
      dropWhile_last hd_rev last_in_set last_rev)

lemma trim_idem: "trim (trim s) = trim s"
proof -
  let ?a = "dropWhile js_whitespace s"
  have a: "?a = [] \<or> \<not> js_whitespace (hd ?a)"
    by (metis hd_dropWhile)
  have t: "trim s = rev (dropWhile js_whitespace (rev ?a))"
    by (simp add: trim_def)
  have front: "dropWhile js_whitespace (trim s) = trim s"
    unfolding t using dropWhile_rev_stable[of "dropWhile js_whitespace s" js_whitespace] a by blast
  show ?thesis
    unfolding trim_def[of "trim s"] front by (simp add: t)
qed

lemma nonblank_trim_idem:
  "filter (\<lambda>r. r \<noteq> []) (map trim (filter (\<lambda>r. r \<noteq> []) (map trim xs))) =
     filter (\<lambda>r. r \<noteq> []) (map trim xs)"
  by (induction xs) (auto simp: trim_idem)

lemma uniqueStrings_eq:
  "uniqueStrings vs = first_by_key toLowerCase {} (filter (\<lambda>r. r \<noteq> []) (map trim vs))"
  by (simp add: uniqueStrings_def uniqueStrings_loop_eq)

lemma uniqueExactStrings_eq:
  "uniqueExactStrings vs = first_by_key (\<lambda>x. x) {} (filter (\<lambda>r. r \<noteq> []) (map trim vs))"
  by (simp add: uniqueExactStrings_def uniqueExactStrings_loop_eq)

lemma getChannelInputs_eq:
  "getChannelInputs channels env_channels =
     first_by_key toLowerCase {}
       (filter (\<lambda>r. r \<noteq> []) (map trim (suppliedChannels channels env_channels)))"
proof (cases "channels = []")
  case True
  then show ?thesis
    by (cases env_channels)
       (simp_all add: getChannelInputs_def suppliedChannels_def splitCommaWhitespaceList_def
          uniqueStrings_eq nonblank_trim_idem)
next
  case False
  have "concat (map (\<lambda>raw. splitCommaWhitespaceList (Some raw)) channels) =
        filter (\<lambda>r. r \<noteq> [])
          (map trim (concat (map (\<lambda>raw. split_runs (\<lambda>c. c = CHR '','' \<or> js_whitespace c) raw) channels)))"
    by (induction channels) (simp_all add: splitCommaWhitespaceList_def)
  with False show ?thesis
    by (simp add: getChannelInputs_def suppliedChannels_def uniqueStrings_eq nonblank_trim_idem)
qed

text \<open>
  Claim C10. The channel inputs are the supplied references, trimmed and without the
  blank ones, with every reference kept once: no two results agree when letter
  case is ignored, the results come in the order of the supplied references and in
  their spelling, every supplied reference has its lower-case form among the
  results, and each result is the first supplied reference with its lower-case
  form.
\<close>

theorem getChannelInputs_case_insensitive:
  "(let refs = filter (\<lambda>r. r \<noteq> []) (map trim (suppliedChannels channels env_channels));
        result = getChannelInputs channels env_channels
    in distinct (map toLowerCase result)
       \<and> subseq result refs
       \<and> toLowerCase ` set result = toLowerCase ` set refs
       \<and> (\<forall>r \<in> set result. find (\<lambda>t. toLowerCase t = toLowerCase r) refs = Some r))"
  unfolding Let_def getChannelInputs_eq
  using first_by_key_distinct[of toLowerCase "{}"] first_by_key_subseq[of toLowerCase "{}"]
    first_by_key_keys[of toLowerCase "{}"] first_by_key_find[of _ toLowerCase "{}"]
  by auto

theorem getChannelInputs_case_insensitive_witness:
  "getChannelInputs [''@Foo, @foo UCab'', ''@FOO,,ucAB  @bar''] None = [''@Foo'', ''UCab'', ''@bar'']
   \<and> find (\<lambda>t. toLowerCase t = toLowerCase ''UCab'')
        (filter (\<lambda>r. r \<noteq> []) (map trim (suppliedChannels [''@Foo, @foo UCab'', ''@FOO,,ucAB  @bar''] None)))
       = Some ''UCab''"
proof -
  have g: "getChannelInputs [''@Foo, @foo UCab'', ''@FOO,,ucAB  @bar''] None = [''@Foo'', ''UCab'', ''@bar'']"
    by code_simp
  show ?thesis
    using getChannelInputs_case_insensitive[of "[''@Foo, @foo UCab'', ''@FOO,,ucAB  @bar'']" None]
    unfolding Let_def g by simp
qed

section \<open>Properties of the liveness filter\<close>

lemma get_prop_truthy: "get_prop v name \<noteq> JUndefined \<Longrightarrow> truthy v"
  by (cases v) simp_all

lemma get_prop_falsy: "\<not> truthy v \<Longrightarrow> get_prop v name = JUndefined"
  by (cases v) simp_all

lemma liveVideoIdOfItem_eq:
  "liveVideoIdOfItem item =
     (case item_id item of
        None \<Rightarrow> None
      | Some v \<Rightarrow> if live_by_two_signals item then Some v else None)"
proof (cases item)
  case (JObj props)
  show ?thesis
    unfolding JObj liveVideoIdOfItem_def item_id_def live_by_two_signals_def
      liveBroadcastContent_of_def actualStartTime_of_def actualEndTime_of_def
      nonempty_string_def absent_def Let_def
    apply (cases "map_of props ''id''"; cases "map_of props ''snippet''"; cases "map_of props ''liveStreamingDetails''")
    apply (auto simp: get_prop_falsy split: json.splits option.splits)
    done
qed (simp_all add: liveVideoIdOfItem_def item_id_def)

lemma map_filter_cong_eq:
  "(\<And>x. f x = g x) \<Longrightarrow> List.map_filter f xs = List.map_filter g xs"
  by (simp add: List.map_filter_def)

text \<open>
  Claim C6. An item of the reply is classified live (its ID is pushed to the result)
  exactly when it has an ID and its status field says "live" or it has a start
  time, a non-empty string, and no end time. In particular an item whose status
  field does not say "live" but which has a start time and no end time is
  classified live. The function returns the IDs of the items so classified,
  trimmed and each once.
\<close>

theorem liveness_is_or_of_two_signals:
  "liveVideoIdOfItem item =
     (case item_id item of
        None \<Rightarrow> None
      | Some v \<Rightarrow> if live_by_two_signals item then Some v else None)
   \<and> (item_id item = Some v \<and> liveBroadcastContent_of item \<noteq> JStr ''live''
        \<and> nonempty_string (actualStartTime_of item) \<and> absent (actualEndTime_of item)
       \<longrightarrow> liveVideoIdOfItem item = Some v)
   \<and> (take 50 (uniqueExactStrings videoIds) \<noteq> []
        \<and> videos_list (take 50 (uniqueExactStrings videoIds)) = Inr data
        \<and> items_of data = Inr items
       \<longrightarrow> filterCurrentlyLiveVideoIds videos_list videoIds =
             Inr (uniqueExactStrings
                    (List.map_filter (\<lambda>item. if live_by_two_signals item then item_id item else None)
                       items)))"
proof (intro conjI impI)
  show "liveVideoIdOfItem item =
     (case item_id item of
        None \<Rightarrow> None
      | Some v \<Rightarrow> if live_by_two_signals item then Some v else None)"
    by (rule liveVideoIdOfItem_eq)
next
  assume "item_id item = Some v \<and> liveBroadcastContent_of item \<noteq> JStr ''live''
        \<and> nonempty_string (actualStartTime_of item) \<and> absent (actualEndTime_of item)"
  then show "liveVideoIdOfItem item = Some v"
    by (simp add: liveVideoIdOfItem_eq live_by_two_signals_def)
next
  assume a: "take 50 (uniqueExactStrings videoIds) \<noteq> []
        \<and> videos_list (take 50 (uniqueExactStrings videoIds)) = Inr data
        \<and> items_of data = Inr items"
  have "List.map_filter liveVideoIdOfItem items =
        List.map_filter (\<lambda>item. if live_by_two_signals item then item_id item else None) items"
    by (rule map_filter_cong_eq) (simp add: liveVideoIdOfItem_eq split: option.splits)
  with a show "filterCurrentlyLiveVideoIds videos_list videoIds =
             Inr (uniqueExactStrings
                    (List.map_filter (\<lambda>item. if live_by_two_signals item then item_id item else None)
                       items))"
    by (simp add: filterCurrentlyLiveVideoIds_def Let_def)
qed

theorem liveness_is_or_of_two_signals_witness:
  "liveVideoIdOfItem
     (JObj [(''id'', JStr ''abc12345678''),
            (''snippet'', JObj [(''liveBroadcastContent'', JStr ''none'')]),
            (''liveStreamingDetails'', JObj [(''actualStartTime'', JStr ''2024-05-01T10:00:00Z'')])])
     = Some ''abc12345678''
   \<and> filterCurrentlyLiveVideoIds
       (\<lambda>ids. Inr (JObj [(''items'', JArr
          [JObj [(''id'', JStr ''abc12345678''),
                 (''snippet'', JObj [(''liveBroadcastContent'', JStr ''none'')]),
                 (''liveStreamingDetails'', JObj [(''actualStartTime'', JStr ''2024-05-01T10:00:00Z'')])],
           JObj [(''id'', JStr ''xyz12345678''),
                 (''snippet'', JObj [(''liveBroadcastContent'', JStr ''none'')]),
                 (''liveStreamingDetails'',
                    JObj [(''actualStartTime'', JStr ''2024-05-01T10:00:00Z''),
                          (''actualEndTime'', JStr ''2024-05-01T12:00:00Z'')])]])]))
       [''abc12345678'', ''xyz12345678'']
     = Inr [''abc12345678'']"
  using liveness_is_or_of_two_signals
    [of "JObj [(''id'', JStr ''abc12345678''),
            (''snippet'', JObj [(''liveBroadcastContent'', JStr ''none'')]),
            (''liveStreamingDetails'', JObj [(''actualStartTime'', JStr ''2024-05-01T10:00:00Z'')])]"
        "''abc12345678''"
        "[''abc12345678'', ''xyz12345678'']"
        "\<lambda>ids. Inr (JObj [(''items'', JArr
          [JObj [(''id'', JStr ''abc12345678''),
                 (''snippet'', JObj [(''liveBroadcastContent'', JStr ''none'')]),
                 (''liveStreamingDetails'', JObj [(''actualStartTime'', JStr ''2024-05-01T10:00:00Z'')])],
           JObj [(''id'', JStr ''xyz12345678''),
                 (''snippet'', JObj [(''liveBroadcastContent'', JStr ''none'')]),
                 (''liveStreamingDetails'',
                    JObj [(''actualStartTime'', JStr ''2024-05-01T10:00:00Z''),
                          (''actualEndTime'', JStr ''2024-05-01T12:00:00Z'')])]])])"
        "JObj [(''items'', JArr
          [JObj [(''id'', JStr ''abc12345678''),
                 (''snippet'', JObj [(''liveBroadcastContent'', JStr ''none'')]),
                 (''liveStreamingDetails'', JObj [(''actualStartTime'', JStr ''2024-05-01T10:00:00Z'')])],
           JObj [(''id'', JStr ''xyz12345678''),
                 (''snippet'', JObj [(''liveBroadcastContent'', JStr ''none'')]),
                 (''liveStreamingDetails'',
                    JObj [(''actualStartTime'', JStr ''2024-05-01T10:00:00Z''),
                          (''actualEndTime'', JStr ''2024-05-01T12:00:00Z'')])]])]"
        "[JObj [(''id'', JStr ''abc12345678''),
                 (''snippet'', JObj [(''liveBroadcastContent'', JStr ''none'')]),
                 (''liveStreamingDetails'', JObj [(''actualStartTime'', JStr ''2024-05-01T10:00:00Z'')])],
           JObj [(''id'', JStr ''xyz12345678''),
                 (''snippet'', JObj [(''liveBroadcastContent'', JStr ''none'')]),
                 (''liveStreamingDetails'',
                    JObj [(''actualStartTime'', JStr ''2024-05-01T10:00:00Z''),
                          (''actualEndTime'', JStr ''2024-05-01T12:00:00Z'')])]]"]
  by (simp add: item_id_def live_by_two_signals_def liveBroadcastContent_of_def
      actualStartTime_of_def actualEndTime_of_def nonempty_string_def absent_def items_of_def
      uniqueExactStrings_def trim_def js_whitespace_def List.map_filter_def)

section \<open>Properties of the access token\<close>
















section \<open>Properties of the extractor\<close>

lemma id_char_facts:
  assumes "id_char c"
  shows "\<not> js_whitespace c" and "\<not> c0_or_space c"
    and "c \<noteq> CHR 0x09" and "c \<noteq> CHR 0x0A" and "c \<noteq> CHR 0x0D"
    and "c \<noteq> CHR ''/''" and "c \<noteq> CHR ''?''" and "c \<noteq> CHR ''&''" and "c \<noteq> CHR ''=''"
    and "plain_path_char c" and "plain_query_char c"
  using assms
  by (auto simp: id_char_def js_whitespace_def c0_or_space_def ascii_alpha_def ascii_digit_def
      plain_path_char_def plain_query_char_def)

lemma valid_video_id_nonempty: "valid_video_id v \<Longrightarrow> v \<noteq> []"
  by (auto simp: valid_video_id_def)

lemma valid_video_id_chars: "valid_video_id v \<Longrightarrow> c \<in> set v \<Longrightarrow> id_char c"
  by (auto simp: valid_video_id_def list_all_iff)

lemma valid_video_id_hd: "valid_video_id v \<Longrightarrow> id_char (hd v)"
  using valid_video_id_chars[of v "hd v"] valid_video_id_nonempty[of v] by simp

lemma valid_video_id_last: "valid_video_id v \<Longrightarrow> id_char (last v)"
  using valid_video_id_chars[of v "last v"] valid_video_id_nonempty[of v] by simp

lemma trim_noop:
  assumes "s \<noteq> []" and "\<not> js_whitespace (hd s)" and "\<not> js_whitespace (last s)"
  shows "trim s = s"
proof -
  have 1: "dropWhile js_whitespace s = s"
    using assms(1,2) by (cases s) simp_all
  have 2: "dropWhile js_whitespace (rev s) = rev s"
    using assms(1,3) by (cases "rev s") (simp_all add: last_rev[symmetric] hd_rev)
  show ?thesis by (simp add: trim_def 1 2)
qed

lemma url_input_noop:
  assumes "list_all (\<lambda>c. \<not> c0_or_space c) s"
  shows "url_input s = s"
proof -
  have a: "\<And>c. c \<in> set s \<Longrightarrow> \<not> c0_or_space c"
    using assms by (simp add: list_all_iff)
  have 1: "dropWhile c0_or_space s = s"
    using a by (cases s) simp_all
  have 2: "dropWhile c0_or_space (rev s) = rev s"
    using a by (cases "s = []") (simp_all add: dropWhile_eq_self_iff hd_rev)
  have c0: "c0_or_space (CHR 0x09)" "c0_or_space (CHR 0x0A)" "c0_or_space (CHR 0x0D)"
    by (simp_all add: c0_or_space_def)
  have 3: "filter (\<lambda>c. c \<notin> {CHR 0x09, CHR 0x0A, CHR 0x0D}) s = s"
    using a c0 by (auto simp: filter_id_conv)
  show ?thesis using 3 by (simp add: url_input_def 1 2)
qed

lemma split_at_absent: "d \<notin> set s \<Longrightarrow> split_at d s = [s]"
  by (induction s) auto

lemma valid_no_c0: "valid_video_id v \<Longrightarrow> list_all (\<lambda>c. \<not> c0_or_space c) v"
  by (auto simp: list_all_iff dest: valid_video_id_chars id_char_facts(2))

lemma valid_takeWhile:
  assumes "valid_video_id v" and "\<And>c. id_char c \<Longrightarrow> P c"
  shows "takeWhile P v = v" and "dropWhile P v = []"
  using assms by (auto dest: valid_video_id_chars)

lemma extract_bare:
  assumes "valid_video_id v"
  shows "extractVideoIdFromUrlOrId other v = Some v"
proof -
  have "trim v = v"
    using assms valid_video_id_nonempty valid_video_id_hd valid_video_id_last id_char_facts(1)
    by (intro trim_noop) auto
  with assms valid_video_id_nonempty[OF assms] show ?thesis
    by (simp add: extractVideoIdFromUrlOrId_def valid_video_id_def)
qed

lemma lower_host_1: "toLowerCase ''www.youtube.com'' = ''www.youtube.com''"
  by (simp add: toLowerCase_def lower_char_def)

lemma lower_host_2: "toLowerCase ''youtu.be'' = ''youtu.be''"
  by (simp add: toLowerCase_def lower_char_def)

lemma URL_new_watch:
  assumes "valid_video_id v"
  shows "URL_new other (watch_url v) =
     Some \<lparr>hostname = ''www.youtube.com'', pathname = ''/watch'', searchParams = [(''v'', v)]\<rparr>"
proof -
  have inp: "url_input (watch_url v) = watch_url v"
    using valid_no_c0[OF assms]
    by (intro url_input_noop) (simp add: watch_url_def c0_or_space_def)
  have sch: "url_scheme (watch_url v) = Some (''https'', ''//www.youtube.com/watch?v='' @ v)"
    by (simp add: url_scheme_def watch_url_def scheme_char_def ascii_alpha_def ascii_digit_def)
  have q: "list_all plain_query_char v"
    using assms by (auto simp: list_all_iff dest: valid_video_id_chars id_char_facts(11))
  have amp: "CHR ''&'' \<notin> set v"
    using assms by (auto dest: valid_video_id_chars id_char_facts(8))
  have pairs: "query_pairs (''v='' @ v) = [(''v'', v)]"
    using amp by (simp add: query_pairs_def split_at_absent)
  have web: "plain_web_url ''https'' (''//www.youtube.com/watch?v='' @ v) =
     Some \<lparr>hostname = ''www.youtube.com'', pathname = ''/watch'', searchParams = [(''v'', v)]\<rparr>"
    using q pairs
    by (simp add: plain_web_url_def Let_def plain_host_def ascii_lower_def plain_path_char_def
        plain_query_char_def ascii_alpha_def ascii_digit_def numeral_2_eq_2)
  show ?thesis
    using web by (simp add: URL_new_def inp sch)
qed

lemma valid_path_chars: "valid_video_id v \<Longrightarrow> list_all plain_path_char v"
  by (auto simp: list_all_iff dest: valid_video_id_chars id_char_facts(10))

lemma valid_no_question:
  assumes "valid_video_id v"
  shows "takeWhile (\<lambda>c. c \<noteq> CHR ''?'') v = v" and "dropWhile (\<lambda>c. c \<noteq> CHR ''?'') v = []"
  using assms by (auto dest: valid_video_id_chars id_char_facts(7))

lemma URL_new_short:
  assumes "valid_video_id v"
  shows "URL_new other (short_url v) =
     Some \<lparr>hostname = ''youtu.be'', pathname = ''/'' @ v, searchParams = []\<rparr>"
proof -
  have inp: "url_input (short_url v) = short_url v"
    using valid_no_c0[OF assms]
    by (intro url_input_noop) (simp add: short_url_def c0_or_space_def)
  have sch: "url_scheme (short_url v) = Some (''https'', ''//youtu.be/'' @ v)"
    by (simp add: url_scheme_def short_url_def scheme_char_def ascii_alpha_def ascii_digit_def)
  have web: "plain_web_url ''https'' (''//youtu.be/'' @ v) =
     Some \<lparr>hostname = ''youtu.be'', pathname = ''/'' @ v, searchParams = []\<rparr>"
    using valid_path_chars[OF assms]
    by (simp add: plain_web_url_def Let_def plain_host_def ascii_lower_def plain_path_char_def
        ascii_alpha_def ascii_digit_def numeral_2_eq_2 query_pairs_def valid_no_question[OF assms])
  show ?thesis
    using web by (simp add: URL_new_def inp sch)
qed

lemma URL_new_live:
  assumes "valid_video_id v"
  shows "URL_new other (live_url v) =
     Some \<lparr>hostname = ''www.youtube.com'', pathname = ''/live/'' @ v, searchParams = []\<rparr>"
proof -
  have inp: "url_input (live_url v) = live_url v"
    using valid_no_c0[OF assms]
    by (intro url_input_noop) (simp add: live_url_def c0_or_space_def)
  have sch: "url_scheme (live_url v) = Some (''https'', ''//www.youtube.com/live/'' @ v)"
    by (simp add: url_scheme_def live_url_def scheme_char_def ascii_alpha_def ascii_digit_def)
  have web: "plain_web_url ''https'' (''//www.youtube.com/live/'' @ v) =
     Some \<lparr>hostname = ''www.youtube.com'', pathname = ''/live/'' @ v, searchParams = []\<rparr>"
    using valid_path_chars[OF assms]
    by (simp add: plain_web_url_def Let_def plain_host_def ascii_lower_def plain_path_char_def
        ascii_alpha_def ascii_digit_def numeral_2_eq_2 query_pairs_def valid_no_question[OF assms])
  show ?thesis
    using web by (simp add: URL_new_def inp sch)
qed

lemma trim_url:
  assumes "valid_video_id v" and "p \<noteq> []" and "\<not> js_whitespace (hd p)"
  shows "trim (p @ v) = p @ v"
  using assms valid_video_id_nonempty[of v] valid_video_id_last[of v] id_char_facts(1)
  by (intro trim_noop) auto

lemma first_segment_valid:
  assumes "valid_video_id v"
  shows "first_segment v = Some v"
proof -
  have "CHR ''/'' \<notin> set v"
    using assms by (auto dest: valid_video_id_chars id_char_facts(6))
  then show ?thesis
    using valid_video_id_nonempty[OF assms] by (simp add: first_segment_def split_at_absent)
qed

lemma extract_watch:
  assumes "valid_video_id v"
  shows "extractVideoIdFromUrlOrId other (watch_url v) = Some v"
proof -
  have t: "trim (watch_url v) = watch_url v"
    unfolding watch_url_def by (rule trim_url[OF assms]) (simp_all add: js_whitespace_def)
  have l: "length (watch_url v) \<noteq> 11" by (simp add: watch_url_def)
  have n: "watch_url v \<noteq> []" by (simp add: watch_url_def)
  show ?thesis
    by (simp add: extractVideoIdFromUrlOrId_def Let_def t l n URL_new_watch[OF assms]
        lower_host_1 endsWith_def searchParams_get_def)
qed

lemma extract_short:
  assumes "valid_video_id v"
  shows "extractVideoIdFromUrlOrId other (short_url v) = Some v"
proof -
  have t: "trim (short_url v) = short_url v"
    unfolding short_url_def by (rule trim_url[OF assms]) (simp_all add: js_whitespace_def)
  have l: "length (short_url v) \<noteq> 11" by (simp add: short_url_def)
  have n: "short_url v \<noteq> []" by (simp add: short_url_def)
  have d: "dropWhile (\<lambda>c. c = CHR ''/'') v = v"
    using valid_video_id_nonempty[OF assms] valid_video_id_hd[OF assms] id_char_facts(6)
    by (cases v) auto
  show ?thesis
    by (simp add: extractVideoIdFromUrlOrId_def Let_def t l n URL_new_short[OF assms]
        lower_host_2 d first_segment_valid[OF assms])
qed

lemma extract_live:
  assumes "valid_video_id v"
  shows "extractVideoIdFromUrlOrId other (live_url v) = Some v"
proof -
  have t: "trim (live_url v) = live_url v"
    unfolding live_url_def by (rule trim_url[OF assms]) (simp_all add: js_whitespace_def)
  have l: "length (live_url v) \<noteq> 11" by (simp add: live_url_def)
  have n: "live_url v \<noteq> []" by (simp add: live_url_def)
  show ?thesis
    by (simp add: extractVideoIdFromUrlOrId_def Let_def t l n URL_new_live[OF assms]
        lower_host_1 endsWith_def startsWith_def first_segment_valid[OF assms])
qed

text \<open>
  Claim C2. For a valid video ID, the extractor returns this ID for the bare ID,
  for its watch URL, for its short URL and for its live URL.
\<close>

theorem extract_round_trip:
  assumes "valid_video_id v"
  shows "extractVideoIdFromUrlOrId other v = Some v
       \<and> extractVideoIdFromUrlOrId other (watch_url v) = Some v
       \<and> extractVideoIdFromUrlOrId other (short_url v) = Some v
       \<and> extractVideoIdFromUrlOrId other (live_url v) = Some v"
  using extract_bare[OF assms] extract_watch[OF assms] extract_short[OF assms]
    extract_live[OF assms] by simp

theorem extract_round_trip_witness:
  "valid_video_id ''dQw4w9WgXcQ''
   \<and> extractVideoIdFromUrlOrId (\<lambda>raw. None) ''dQw4w9WgXcQ'' = Some ''dQw4w9WgXcQ''
   \<and> extractVideoIdFromUrlOrId (\<lambda>raw. None) ''https://www.youtube.com/watch?v=dQw4w9WgXcQ''
       = Some ''dQw4w9WgXcQ''
   \<and> extractVideoIdFromUrlOrId (\<lambda>raw. None) ''https://youtu.be/dQw4w9WgXcQ'' = Some ''dQw4w9WgXcQ''
   \<and> extractVideoIdFromUrlOrId (\<lambda>raw. None) ''https://www.youtube.com/live/dQw4w9WgXcQ''
       = Some ''dQw4w9WgXcQ''"
proof -
  have v: "valid_video_id ''dQw4w9WgXcQ''"
    by (simp add: valid_video_id_def id_char_def ascii_alpha_def ascii_digit_def)
  show ?thesis
    using v extract_round_trip[OF v, of "\<lambda>raw. None"]
    by (simp add: watch_url_def short_url_def live_url_def)
qed

section \<open>Properties of the Ledger\<close>

lemma append_loop_eq:
  "append_loop wt ts ids (existing, savedVideoIds, savedUrls, buffer) =
     (let new = first_by_key (\<lambda>v. v) (set existing) ids
      in (existing @ new, savedVideoIds @ new, savedUrls @ map watch_url new,
          buffer @ concat (map (ledger_line wt ts) new)))"
proof (induction ids arbitrary: existing savedVideoIds savedUrls buffer)
  case Nil
  then show ?case by simp
next
  case (Cons v ids)
  show ?case
  proof (cases "v \<in> set existing")
    case True
    then show ?thesis using Cons.IH by simp
  next
    case False
    then show ?thesis
      using Cons.IH[of "existing @ [v]" "savedVideoIds @ [v]" "savedUrls @ [watch_url v]"
          "buffer @ ledger_line wt ts v"]
      by (simp add: set_add_def Let_def insert_commute)
  qed
qed

lemma ledger_line_nonempty: "ledger_line wt ts v \<noteq> []"
  by (simp add: ledger_line_def)

lemma concat_lines_empty: "concat (map (ledger_line wt ts) new) = [] \<longleftrightarrow> new = []"
  by (cases new) (simp_all add: ledger_line_nonempty)

lemma appendNewLiveLinks_eq:
  "appendNewLiveLinks other fs path videoIds wt ts =
     (let new = first_by_key (\<lambda>v. v) (set (readExistingVideoIds other fs path)) videoIds
      in ((new, map watch_url new),
          (if new = [] then fs
           else appendFileSync fs path (concat (map (ledger_line wt ts) new)))))"
proof (cases "videoIds = []")
  case True
  then show ?thesis by (simp add: appendNewLiveLinks_def)
next
  case False
  let ?new = "first_by_key (\<lambda>v. v) (set (readExistingVideoIds other fs path)) videoIds"
  have "concat (map (ledger_line wt ts) ?new) = [] \<longleftrightarrow> ?new = []"
    by (rule concat_lines_empty)
  then show ?thesis
    using False by (simp add: appendNewLiveLinks_def append_loop_eq Let_def del: concat_eq_Nil_conv)
qed

lemma first_by_key_all_seen: "key ` set xs \<subseteq> seen \<Longrightarrow> first_by_key key seen xs = []"
  by (induction xs arbitrary: seen) auto

lemma split_lines_line:
  assumes "CHR 0x0A \<notin> set l" and "l = [] \<or> last l \<noteq> CHR 0x0D"
  shows "split_lines (l @ CHR 0x0A # rest) = l # split_lines rest"
  using assms
proof (induction l)
  case Nil
  then show ?case by simp
next
  case (Cons x l)
  then show ?case by (cases l) (auto split: if_splits)
qed

lemma readExisting_missing:
  "fs path = None \<or> fs path = Some [] \<Longrightarrow> readExistingVideoIds other fs path = []"
  by (auto simp: readExistingVideoIds_def lineVideoId_def trim_def)

lemma first_by_key_set: "set (first_by_key (\<lambda>v. v) seen xs) = set xs - seen"
  using first_by_key_keys[of "\<lambda>v. v" seen xs] by simp

lemma first_by_key_distinct_id: "distinct (first_by_key (\<lambda>v. v) seen xs)"
  using first_by_key_distinct[of "\<lambda>v. v" seen xs] by simp

lemma watch_url_line:
  "split_lines (watch_url ''abc12345678'' @ [CHR 0x0A]) = [watch_url ''abc12345678'', []]"
  by (simp add: watch_url_def)

text \<open>
  Claim C7. \<open>appendNewLiveLinks\<close> returns the IDs it appends and their watch URLs:
  the given IDs that are not yet in the Ledger, each once and in the given order.
  Both lists are empty when every given ID is in the Ledger already, and then the
  files stay as they are. On a Ledger file that is missing or empty, the call with
  the one ID \<open>abc12345678\<close> returns its watch URL and leaves a file of exactly one
  line.
\<close>

theorem appendNewLiveLinks_returns_new:
  "(case appendNewLiveLinks other fs path videoIds wt ts of
      ((savedVideoIds, savedUrls), fs') \<Rightarrow>
        savedVideoIds = first_by_key (\<lambda>v. v) (set (readExistingVideoIds other fs path)) videoIds
        \<and> distinct savedVideoIds
        \<and> set savedVideoIds = set videoIds - set (readExistingVideoIds other fs path)
        \<and> savedUrls = map watch_url savedVideoIds
        \<and> fs' = (if savedVideoIds = [] then fs
                  else appendFileSync fs path (concat (map (ledger_line wt ts) savedVideoIds)))
        \<and> (set videoIds \<subseteq> set (readExistingVideoIds other fs path)
             \<longrightarrow> savedVideoIds = [] \<and> savedUrls = [] \<and> fs' = fs))
   \<and> (fs path = None \<or> fs path = Some []
       \<longrightarrow> appendNewLiveLinks other fs path [''abc12345678''] False ts =
             (([''abc12345678''], [''https://www.youtube.com/watch?v=abc12345678'']),
              fs(path \<mapsto> ''https://www.youtube.com/watch?v=abc12345678'' @ [CHR 0x0A]))
           \<and> split_lines (''https://www.youtube.com/watch?v=abc12345678'' @ [CHR 0x0A]) =
               [''https://www.youtube.com/watch?v=abc12345678'', []])
   \<and> ((fs path = None \<or> fs path = Some []) \<and> CHR 0x0A \<notin> set ts
       \<longrightarrow> appendNewLiveLinks other fs path [''abc12345678''] True ts =
             (([''abc12345678''], [''https://www.youtube.com/watch?v=abc12345678'']),
              fs(path \<mapsto> ts @ [CHR 0x09] @ ''https://www.youtube.com/watch?v=abc12345678'' @ [CHR 0x0A]))
           \<and> split_lines (ts @ [CHR 0x09] @ ''https://www.youtube.com/watch?v=abc12345678'' @ [CHR 0x0A]) =
               [ts @ [CHR 0x09] @ ''https://www.youtube.com/watch?v=abc12345678'', []])"
proof (intro conjI impI)
  show "case appendNewLiveLinks other fs path videoIds wt ts of
      ((savedVideoIds, savedUrls), fs') \<Rightarrow>
        savedVideoIds = first_by_key (\<lambda>v. v) (set (readExistingVideoIds other fs path)) videoIds
        \<and> distinct savedVideoIds
        \<and> set savedVideoIds = set videoIds - set (readExistingVideoIds other fs path)
        \<and> savedUrls = map watch_url savedVideoIds
        \<and> fs' = (if savedVideoIds = [] then fs
                  else appendFileSync fs path (concat (map (ledger_line wt ts) savedVideoIds)))
        \<and> (set videoIds \<subseteq> set (readExistingVideoIds other fs path)
             \<longrightarrow> savedVideoIds = [] \<and> savedUrls = [] \<and> fs' = fs)"
    using first_by_key_all_seen[of "\<lambda>v. v" videoIds "set (readExistingVideoIds other fs path)"]
    by (simp add: appendNewLiveLinks_eq Let_def first_by_key_set first_by_key_distinct_id)
next
  assume a: "fs path = None \<or> fs path = Some []"
  show "appendNewLiveLinks other fs path [''abc12345678''] False ts =
             (([''abc12345678''], [''https://www.youtube.com/watch?v=abc12345678'']),
              fs(path \<mapsto> ''https://www.youtube.com/watch?v=abc12345678'' @ [CHR 0x0A]))"
    using a by (auto simp: appendNewLiveLinks_eq readExisting_missing[of fs path, OF a] watch_url_def
        ledger_line_def appendFileSync_def)
next
  show "split_lines (''https://www.youtube.com/watch?v=abc12345678'' @ [CHR 0x0A]) =
               [''https://www.youtube.com/watch?v=abc12345678'', []]"
    by simp
next
  assume "(fs path = None \<or> fs path = Some []) \<and> CHR 0x0A \<notin> set ts"
  then have a: "fs path = None \<or> fs path = Some []" by simp
  show "appendNewLiveLinks other fs path [''abc12345678''] True ts =
             (([''abc12345678''], [''https://www.youtube.com/watch?v=abc12345678'']),
              fs(path \<mapsto> ts @ [CHR 0x09] @ ''https://www.youtube.com/watch?v=abc12345678'' @ [CHR 0x0A]))"
    using a by (auto simp: appendNewLiveLinks_eq readExisting_missing[of fs path, OF a] watch_url_def
        ledger_line_def appendFileSync_def)
next
  assume "(fs path = None \<or> fs path = Some []) \<and> CHR 0x0A \<notin> set ts"
  then have "CHR 0x0A \<notin> set (ts @ [CHR 0x09] @ ''https://www.youtube.com/watch?v=abc12345678'')"
    by simp
  from split_lines_line[OF this, of "[]"]
  show "split_lines (ts @ [CHR 0x09] @ ''https://www.youtube.com/watch?v=abc12345678'' @ [CHR 0x0A]) =
               [ts @ [CHR 0x09] @ ''https://www.youtube.com/watch?v=abc12345678'', []]"
    by simp
qed

theorem appendNewLiveLinks_returns_new_witness:
  "appendNewLiveLinks (\<lambda>raw. None) (\<lambda>p. None) ''saved_live_links.txt'' [''abc12345678''] True
     ''2024-05-01T10:00:00Z''
   = (([''abc12345678''], [''https://www.youtube.com/watch?v=abc12345678'']),
      (\<lambda>p. None)(''saved_live_links.txt'' \<mapsto>
         ''2024-05-01T10:00:00Z'' @ [CHR 0x09] @ ''https://www.youtube.com/watch?v=abc12345678'' @ [CHR 0x0A]))
   \<and> fst (appendNewLiveLinks (\<lambda>raw. None)
        ((\<lambda>p. None)(''saved_live_links.txt'' \<mapsto>
            ''https://www.youtube.com/watch?v=abc12345678'' @ [CHR 0x0A]))
        ''saved_live_links.txt'' [''abc12345678'', ''abc12345678''] False [])
     = ([], [])"
proof (rule conjI)
  show "appendNewLiveLinks (\<lambda>raw. None) (\<lambda>p. None) ''saved_live_links.txt'' [''abc12345678''] True
     ''2024-05-01T10:00:00Z''
   = (([''abc12345678''], [''https://www.youtube.com/watch?v=abc12345678'']),
      (\<lambda>p. None)(''saved_live_links.txt'' \<mapsto>
         ''2024-05-01T10:00:00Z'' @ [CHR 0x09] @ ''https://www.youtube.com/watch?v=abc12345678'' @ [CHR 0x0A]))"
    using appendNewLiveLinks_returns_new
      [of "\<lambda>raw. None" "\<lambda>p. None" "''saved_live_links.txt''" "[''abc12345678'']" True
          "''2024-05-01T10:00:00Z''", THEN conjunct2, THEN conjunct2]
    by simp
next
  let ?fs = "(\<lambda>p. None)(''saved_live_links.txt'' \<mapsto>
            ''https://www.youtube.com/watch?v=abc12345678'' @ [CHR 0x0A])"
  have known: "readExistingVideoIds (\<lambda>raw. None) ?fs ''saved_live_links.txt'' = [''abc12345678'']"
    by code_simp
  obtain a b c where r: "appendNewLiveLinks (\<lambda>raw. None) ?fs ''saved_live_links.txt''
      [''abc12345678'', ''abc12345678''] False [] = ((a, b), c)"
    by (metis surj_pair)
  have sub: "set [''abc12345678'', ''abc12345678'']
      \<subseteq> set (readExistingVideoIds (\<lambda>raw. None) ?fs ''saved_live_links.txt'')"
    unfolding known by simp
  from appendNewLiveLinks_returns_new
      [of "\<lambda>raw. None" ?fs "''saved_live_links.txt''" "[''abc12345678'', ''abc12345678'']" False "[]",
       THEN conjunct1] sub
  have "a = [] \<and> b = []"
    unfolding r by blast
  then show "fst (appendNewLiveLinks (\<lambda>raw. None) ?fs
        ''saved_live_links.txt'' [''abc12345678'', ''abc12345678''] False [])
     = ([], [])"
    unfolding r by simp
qed

section \<open>Idempotence of the Ledger append\<close>

lemma split_runs_nonempty: "split_runs sep s \<noteq> []"
  by (induction s) (auto split: list.splits)

lemma split_runs_no_sep: "\<forall>c \<in> set s. \<not> sep c \<Longrightarrow> split_runs sep s = [s]"
  by (induction s) auto

lemma split_runs_two: "\<exists>c \<in> set s. sep c \<Longrightarrow> 2 \<le> length (split_runs sep s)"
proof (induction s)
  case Nil
  then show ?case by simp
next
  case (Cons c cs)
  show ?case
  proof (cases "sep c")
    case True
    then show ?thesis
      using Cons.IH split_runs_nonempty[of sep cs]
      by (cases cs) (auto simp: Suc_le_eq)
  next
    case False
    with Cons.prems have "\<exists>c \<in> set cs. sep c" by simp
    from Cons.IH[OF this] False show ?thesis
      by (auto split: list.splits)
  qed
qed

lemma last_split_runs:
  assumes "sep w" and "\<forall>c \<in> set u. \<not> sep c"
  shows "last (split_runs sep (p @ w # u)) = u"
proof (induction p)
  case Nil
  show ?case
    using assms split_runs_no_sep[OF assms(2)] by (cases u) auto
next
  case (Cons c p)
  show ?case
  proof (cases "sep c")
    case True
    then show ?thesis
      using Cons.IH split_runs_nonempty[of sep "p @ w # u"] by auto
  next
    case False
    have "2 \<le> length (split_runs sep (p @ w # u))"
      using assms(1) by (intro split_runs_two) auto
    then obtain l m ls where "split_runs sep (p @ w # u) = l # m # ls"
      by (cases "split_runs sep (p @ w # u)"; cases "tl (split_runs sep (p @ w # u))") auto
    with Cons.IH False show ?thesis by simp
  qed
qed

lemma trim_keeps_token:
  assumes "u \<noteq> []" and "\<forall>c \<in> set u. \<not> js_whitespace c"
  shows "trim (p @ u) = dropWhile js_whitespace p @ u"
proof -
  have d: "dropWhile js_whitespace (p @ u) = dropWhile js_whitespace p @ u"
    using assms by (cases u) (auto simp: dropWhile_append)
  have "dropWhile js_whitespace (rev (dropWhile js_whitespace p @ u))
        = rev (dropWhile js_whitespace p @ u)"
    using assms by (cases "rev u") (auto simp: )
  then show ?thesis
    by (simp add: trim_def d)
qed

lemma watch_url_no_space:
  assumes "valid_video_id v"
  shows "\<forall>c \<in> set (watch_url v). \<not> js_whitespace c"
proof -
  have a: "\<forall>c \<in> set v. \<not> js_whitespace c"
    using assms valid_video_id_chars id_char_facts(1) by blast
  have b: "\<forall>c \<in> set ''https://www.youtube.com/watch?v=''. \<not> js_whitespace c"
    by (simp add: js_whitespace_def)
  show ?thesis
    unfolding watch_url_def set_append using a b by blast
qed

lemma lineVideoId_ledger_body:
  assumes "valid_video_id v" and that: "pre = [] \<or> js_whitespace (last pre)"
  shows "lineVideoId other (pre @ watch_url v) = Some v"
proof -
  let ?u = "watch_url v"
  have u: "?u \<noteq> []" by (simp add: watch_url_def)
  have nows: "\<forall>c \<in> set ?u. \<not> js_whitespace c" by (rule watch_url_no_space[OF assms(1)])
  have t: "trim (pre @ ?u) = dropWhile js_whitespace pre @ ?u"
    by (rule trim_keeps_token[OF u nows])
  have tok: "last (split_runs js_whitespace (dropWhile js_whitespace pre @ ?u)) = ?u"
  proof (cases "dropWhile js_whitespace pre = []")
    case True
    show ?thesis unfolding True using split_runs_no_sep[OF nows] by simp
  next
    case False
    then have "pre \<noteq> []" by auto
    with that have w: "js_whitespace (last pre)" by simp
    from False have "last (dropWhile js_whitespace pre) = last pre"
      by (metis dropWhile_last dropWhile_eq_Nil_conv)
    with False w obtain q where q: "dropWhile js_whitespace pre = q @ [last pre]"
      by (metis append_butlast_last_id)
    show ?thesis
      unfolding q using last_split_runs[OF w nows, of q] by simp
  qed
  show ?thesis
    using u by (simp add: lineVideoId_def Let_def t tok extract_watch[OF assms(1)] valid_video_id_nonempty[OF assms(1)])
qed

lemma ledger_line_body:
  "ledger_line wt ts = (\<lambda>v. (if wt then ts @ [CHR 0x09] else []) @ watch_url v @ [CHR 0x0A])"
  by (rule ext) (simp add: ledger_line_def)

lemma watch_url_no_lf:
  assumes "valid_video_id v"
  shows "CHR 0x0A \<notin> set (watch_url v)" and "last (watch_url v) \<noteq> CHR 0x0D"
proof -
  show "CHR 0x0A \<notin> set (watch_url v)"
    using watch_url_no_space[OF assms] by (auto simp: js_whitespace_def)
  have "last (watch_url v) = last v"
    using valid_video_id_nonempty[OF assms] by (simp add: watch_url_def)
  then show "last (watch_url v) \<noteq> CHR 0x0D"
    using valid_video_id_last[OF assms] id_char_facts(5) by auto
qed

lemma split_lines_ledger:
  assumes "list_all valid_video_id new" and "CHR 0x0A \<notin> set pre"
  shows "split_lines (concat (map (\<lambda>v. pre @ watch_url v @ [CHR 0x0A]) new) @ rest) =
         map (\<lambda>v. pre @ watch_url v) new @ split_lines rest"
  using assms(1)
proof (induction new)
  case Nil
  then show ?case by simp
next
  case (Cons v new)
  then have v: "valid_video_id v" by simp
  have 1: "CHR 0x0A \<notin> set (pre @ watch_url v)"
    using watch_url_no_lf(1)[OF v] assms(2) by auto
  have 2: "pre @ watch_url v = [] \<or> last (pre @ watch_url v) \<noteq> CHR 0x0D"
    using watch_url_no_lf(2)[OF v] by (simp add: watch_url_def)
  have "split_lines ((pre @ watch_url v) @ CHR 0x0A #
            (concat (map (\<lambda>v. pre @ watch_url v @ [CHR 0x0A]) new) @ rest)) =
        (pre @ watch_url v) # split_lines (concat (map (\<lambda>v. pre @ watch_url v @ [CHR 0x0A]) new) @ rest)"
    by (rule split_lines_line[OF 1 2])
  with Cons show ?case by simp
qed

lemma split_lines_front:
  "\<exists>F. F \<noteq> [] \<and> (\<forall>b. split_lines (c @ CHR 0x0A # b) = F @ split_lines b)"
proof (induction c)
  case Nil
  have "\<forall>b. split_lines ([] @ CHR 0x0A # b) = [[]] @ split_lines b" by simp
  then show ?case by blast
next
  case (Cons x c)
  then obtain F where F: "F \<noteq> []" "\<And>b. split_lines (c @ CHR 0x0A # b) = F @ split_lines b"
    by blast
  from F(1) obtain l ls where Fl: "F = l # ls" by (cases F) auto
  have hd_indep: "\<And>b. hd (c @ CHR 0x0A # b) = (if c = [] then CHR 0x0A else hd c)"
    by (cases c) simp_all
  consider (lf) "x = CHR 0x0A"
    | (crlf) "x \<noteq> CHR 0x0A" "x = CHR 0x0D \<and> (if c = [] then CHR 0x0A else hd c) = CHR 0x0A"
    | (plain) "x \<noteq> CHR 0x0A" "\<not> (x = CHR 0x0D \<and> (if c = [] then CHR 0x0A else hd c) = CHR 0x0A)"
    by blast
  then show ?case
  proof cases
    case lf
    then have "\<forall>b. split_lines ((x # c) @ CHR 0x0A # b) = ([] # F) @ split_lines b"
      using F(2) by simp
    then show ?thesis by blast
  next
    case crlf
    then have "\<forall>b. split_lines ((x # c) @ CHR 0x0A # b) = F @ split_lines b"
      using F(2) by (simp add: hd_indep)
    with F(1) show ?thesis by blast
  next
    case plain
    then have "\<forall>b. split_lines ((x # c) @ CHR 0x0A # b) = ((x # l) # ls) @ split_lines b"
      using F(2) Fl by (auto simp: hd_indep)
    then show ?thesis by blast
  qed
qed

lemma lineVideoId_empty: "lineVideoId other [] = None"
  by (simp add: lineVideoId_def trim_def)

lemma ledger_front:
  assumes "ends_with_line_feed (fs path)"
  shows "\<exists>F. (\<forall>b. split_lines (case fs path of None \<Rightarrow> b | Some c \<Rightarrow> c @ b) = F @ split_lines b)
            \<and> readExistingVideoIds other fs path = fold (ledger_step other) F []"
proof (cases "fs path")
  case None
  then have "(\<forall>b. split_lines (case fs path of None \<Rightarrow> b | Some c \<Rightarrow> c @ b) = [] @ split_lines b)
            \<and> readExistingVideoIds other fs path = fold (ledger_step other) [] []"
    by (simp add: readExistingVideoIds_def)
  then show ?thesis by blast
next
  case (Some c)
  show ?thesis
  proof (cases "c = []")
    case True
    with Some have "(\<forall>b. split_lines (case fs path of None \<Rightarrow> b | Some c \<Rightarrow> c @ b) = [] @ split_lines b)
            \<and> readExistingVideoIds other fs path = fold (ledger_step other) [] []"
      by (simp add: readExistingVideoIds_def lineVideoId_empty)
    then show ?thesis by blast
  next
    case False
    with assms Some have "last c = CHR 0x0A" by (simp add: ends_with_line_feed_def)
    with False obtain c0 where c: "c = c0 @ [CHR 0x0A]"
      by (metis append_butlast_last_id)
    obtain F where F: "\<And>b. split_lines (c0 @ CHR 0x0A # b) = F @ split_lines b"
      using split_lines_front[of c0] by blast
    have "split_lines c = F @ [[]]" using F[of "[]"] c by simp
    then have "readExistingVideoIds other fs path = fold (ledger_step other) F []"
      using Some by (simp add: readExistingVideoIds_def lineVideoId_empty)
    moreover have "\<forall>b. split_lines (case fs path of None \<Rightarrow> b | Some c \<Rightarrow> c @ b) = F @ split_lines b"
      using Some c F by simp
    ultimately show ?thesis by blast
  qed
qed

lemma fold_ledger_bodies:
  assumes "list_all valid_video_id new" and "pre = [] \<or> js_whitespace (last pre)"
  shows "fold (ledger_step other) (map (\<lambda>v. pre @ watch_url v) new) ex =
         fold (\<lambda>v ids. set_add ids v) new ex"
  using assms(1)
proof (induction new arbitrary: ex)
  case Nil
  then show ?case by simp
next
  case (Cons v new)
  then have v: "valid_video_id v" by simp
  show ?case
    using Cons by (simp add: lineVideoId_ledger_body[OF v assms(2)])
qed

lemma fold_set_add_fresh:
  "distinct new \<Longrightarrow> set new \<inter> set ex = {} \<Longrightarrow> fold (\<lambda>v ids. set_add ids v) new ex = ex @ new"
  by (induction new arbitrary: ex) (auto simp: set_add_def)

lemma readExisting_after_append:
  assumes "list_all valid_video_id new" and "ends_with_line_feed (fs path)"
    and "wt \<longrightarrow> CHR 0x0A \<notin> set ts"
    and "distinct new" and "set new \<inter> set (readExistingVideoIds other fs path) = {}"
  shows "readExistingVideoIds other
           (appendFileSync fs path (concat (map (ledger_line wt ts) new))) path =
         readExistingVideoIds other fs path @ new"
proof -
  let ?pre = "if wt then ts @ [CHR 0x09] else []"
  let ?buffer = "concat (map (ledger_line wt ts) new)"
  obtain F where F: "\<And>b. split_lines (case fs path of None \<Rightarrow> b | Some c \<Rightarrow> c @ b) = F @ split_lines b"
    and ex: "readExistingVideoIds other fs path = fold (ledger_step other) F []"
    using ledger_front[of fs path other] assms(2) by blast
  have pre1: "CHR 0x0A \<notin> set ?pre" using assms(3) by simp
  have pre2: "?pre = [] \<or> js_whitespace (last ?pre)" by (simp add: js_whitespace_def)
  have "split_lines (?buffer @ []) = map (\<lambda>v. ?pre @ watch_url v) new @ split_lines []"
    unfolding ledger_line_body by (rule split_lines_ledger[OF assms(1) pre1])
  then have lines: "split_lines ?buffer = map (\<lambda>v. ?pre @ watch_url v) new @ [[]]" by simp
  have "readExistingVideoIds other (appendFileSync fs path ?buffer) path =
        fold (ledger_step other) (F @ split_lines ?buffer) []"
    using F[of ?buffer] by (simp add: readExistingVideoIds_def appendFileSync_def)
  also have "\<dots> = fold (\<lambda>v ids. set_add ids v) new (readExistingVideoIds other fs path)"
    unfolding lines using fold_ledger_bodies[OF assms(1) pre2, of other]
    by (simp add: ex lineVideoId_empty)
  also have "\<dots> = readExistingVideoIds other fs path @ new"
    by (rule fold_set_add_fresh[OF assms(4,5)])
  finally show ?thesis .
qed

lemma ledger_buffer_ends:
  "new \<noteq> [] \<Longrightarrow> last (concat (map (ledger_line wt ts) new)) = CHR 0x0A"
proof (induction new rule: rev_induct)
  case Nil
  then show ?case by simp
next
  case (snoc v new)
  show ?case by (simp add: ledger_line_def)
qed

text \<open>
  Claim C1, amended. On a Ledger file that is missing, empty or ends with a
  line feed, and for valid video IDs, a second call of \<open>appendNewLiveLinks\<close> with
  the same IDs returns empty results and leaves the files as the first call left
  them. After the first call the Ledger holds the IDs it held before followed by
  the appended ones, so every given ID is in it, and it ends with a line feed
  again.
\<close>

theorem append_twice_appends_nothing:
  assumes "list_all valid_video_id ids" and "ends_with_line_feed (fs path)"
    and "wt \<longrightarrow> CHR 0x0A \<notin> set ts"
  shows "(case appendNewLiveLinks other fs path ids wt ts of
            (first, fs1) \<Rightarrow>
              appendNewLiveLinks other fs1 path ids wt' ts' = (([], []), fs1)
              \<and> readExistingVideoIds other fs1 path = readExistingVideoIds other fs path @ fst first
              \<and> set ids \<subseteq> set (readExistingVideoIds other fs1 path)
              \<and> ends_with_line_feed (fs1 path))"
proof -
  let ?ex = "readExistingVideoIds other fs path"
  let ?new = "first_by_key (\<lambda>v. v) (set ?ex) ids"
  let ?buffer = "concat (map (ledger_line wt ts) ?new)"
  let ?fs1 = "if ?new = [] then fs else appendFileSync fs path ?buffer"
  have first: "appendNewLiveLinks other fs path ids wt ts = ((?new, map watch_url ?new), ?fs1)"
    by (simp add: appendNewLiveLinks_eq Let_def)
  have new_set: "set ?new = set ids - set ?ex" by (rule first_by_key_set)
  have new_valid: "list_all valid_video_id ?new"
    using assms(1) new_set by (auto simp: list_all_iff)
  have ex1: "readExistingVideoIds other ?fs1 path = ?ex @ ?new"
  proof (cases "?new = []")
    case True
    then show ?thesis by simp
  next
    case False
    have "readExistingVideoIds other (appendFileSync fs path ?buffer) path = ?ex @ ?new"
      using new_set new_valid assms(2,3) first_by_key_distinct_id[of "set ?ex" ids]
      by (intro readExisting_after_append[of ?new fs path wt ts other]) auto
    with False show ?thesis by simp
  qed
  have sub: "set ids \<subseteq> set (readExistingVideoIds other ?fs1 path)"
    unfolding ex1 using new_set by auto
  have second: "appendNewLiveLinks other ?fs1 path ids wt' ts' = (([], []), ?fs1)"
    using first_by_key_all_seen[of "\<lambda>v. v" ids "set (readExistingVideoIds other ?fs1 path)"] sub
    by (simp add: appendNewLiveLinks_eq[of other ?fs1] Let_def)
  have ends: "ends_with_line_feed (?fs1 path)"
  proof (cases "?new = []")
    case True
    with assms(2) show ?thesis by simp
  next
    case False
    have bne: "?buffer \<noteq> []"
      using False concat_lines_empty[of wt ts ?new] by blast
    have "\<And>c. last (c @ ?buffer) = CHR 0x0A"
      using ledger_buffer_ends[OF False, of wt ts] bne by (simp del: concat_eq_Nil_conv)
    with ledger_buffer_ends[OF False, of wt ts] False bne show ?thesis
      by (simp add: ends_with_line_feed_def appendFileSync_def del: concat_eq_Nil_conv
          split: option.splits)
  qed
  show ?thesis
    unfolding first using second ex1 sub ends by simp
qed

theorem append_twice_appends_nothing_witness:
  "fst (appendNewLiveLinks (\<lambda>raw. None)
          ((\<lambda>p. None)(''saved_live_links.txt'' \<mapsto>
              ''https://www.youtube.com/watch?v=abc12345678'' @ [CHR 0x0A]))
          ''saved_live_links.txt'' [''abc12345678'', ''xyz12345678''] True ''2024-05-01T10:00:00Z'')
     = ([''xyz12345678''], [''https://www.youtube.com/watch?v=xyz12345678''])
   \<and> appendNewLiveLinks (\<lambda>raw. None)
        (snd (appendNewLiveLinks (\<lambda>raw. None)
          ((\<lambda>p. None)(''saved_live_links.txt'' \<mapsto>
              ''https://www.youtube.com/watch?v=abc12345678'' @ [CHR 0x0A]))
          ''saved_live_links.txt'' [''abc12345678'', ''xyz12345678''] True ''2024-05-01T10:00:00Z''))
        ''saved_live_links.txt'' [''abc12345678'', ''xyz12345678''] True ''2024-05-02T10:00:00Z''
     = (([], []),
        snd (appendNewLiveLinks (\<lambda>raw. None)
          ((\<lambda>p. None)(''saved_live_links.txt'' \<mapsto>
              ''https://www.youtube.com/watch?v=abc12345678'' @ [CHR 0x0A]))
          ''saved_live_links.txt'' [''abc12345678'', ''xyz12345678''] True ''2024-05-01T10:00:00Z''))"
proof -
  let ?fs = "(\<lambda>p. None)(''saved_live_links.txt'' \<mapsto>
              ''https://www.youtube.com/watch?v=abc12345678'' @ [CHR 0x0A])"
  let ?ids = "[''abc12345678'', ''xyz12345678'']"
  have h1: "list_all valid_video_id ?ids"
    by (simp add: valid_video_id_def id_char_def ascii_alpha_def ascii_digit_def)
  have h2: "ends_with_line_feed (?fs ''saved_live_links.txt'')"
    by (simp add: ends_with_line_feed_def)
  have h3: "True \<longrightarrow> CHR 0x0A \<notin> set ''2024-05-01T10:00:00Z''"
    by simp
  have known: "readExistingVideoIds (\<lambda>raw. None) ?fs ''saved_live_links.txt'' = [''abc12345678'']"
    by code_simp
  obtain first fs1 where r: "appendNewLiveLinks (\<lambda>raw. None) ?fs ''saved_live_links.txt'' ?ids True
      ''2024-05-01T10:00:00Z'' = (first, fs1)"
    by (metis surj_pair)
  have f: "first = ([''xyz12345678''], [''https://www.youtube.com/watch?v=xyz12345678''])"
    using r known by (simp add: appendNewLiveLinks_eq Let_def watch_url_def)
  from append_twice_appends_nothing[of ?ids ?fs "''saved_live_links.txt''" True
      "''2024-05-01T10:00:00Z''" "\<lambda>raw. None" True "''2024-05-02T10:00:00Z''"] h1 h2 h3
  have "appendNewLiveLinks (\<lambda>raw. None) fs1 ''saved_live_links.txt'' ?ids True ''2024-05-02T10:00:00Z''
        = (([], []), fs1)"
    unfolding r by simp
  then show ?thesis
    unfolding r using f by simp
qed

text \<open>
  Claim C1 as stated fails on a Ledger whose last line has no line feed: the text
  of the first call is glued to that line, whose last token then is no URL, and
  the second call appends the same link again.
\<close>

theorem append_twice_counterexample:
  "appendNewLiveLinks (\<lambda>raw. None)
     ((\<lambda>p. None)(''saved_live_links.txt'' \<mapsto> ''[saved streams]''))
     ''saved_live_links.txt'' [''abc12345678''] False []
   = (([''abc12345678''], [''https://www.youtube.com/watch?v=abc12345678'']),
      (\<lambda>p. None)(''saved_live_links.txt'' \<mapsto>
        ''[saved streams]https://www.youtube.com/watch?v=abc12345678'' @ [CHR 0x0A]))
   \<and> appendNewLiveLinks (\<lambda>raw. None)
     ((\<lambda>p. None)(''saved_live_links.txt'' \<mapsto>
        ''[saved streams]https://www.youtube.com/watch?v=abc12345678'' @ [CHR 0x0A]))
     ''saved_live_links.txt'' [''abc12345678''] False []
   = (([''abc12345678''], [''https://www.youtube.com/watch?v=abc12345678'']),
      (\<lambda>p. None)(''saved_live_links.txt'' \<mapsto>
        ''[saved streams]https://www.youtube.com/watch?v=abc12345678'' @ [CHR 0x0A]
          @ ''https://www.youtube.com/watch?v=abc12345678'' @ [CHR 0x0A]))"
proof -
  have k0: "readExistingVideoIds (\<lambda>raw. None)
      ((\<lambda>p. None)(''saved_live_links.txt'' \<mapsto> ''[saved streams]'')) ''saved_live_links.txt'' = []"
    by code_simp
  have k1: "readExistingVideoIds (\<lambda>raw. None)
      ((\<lambda>p. None)(''saved_live_links.txt'' \<mapsto>
        ''[saved streams]https://www.youtube.com/watch?v=abc12345678'' @ [CHR 0x0A]))
      ''saved_live_links.txt'' = []"
    by code_simp
  show ?thesis
    using k0 k1
    by (simp add: appendNewLiveLinks_eq Let_def watch_url_def ledger_line_def appendFileSync_def)
qed

section \<open>Properties of the playlist reconciler\<close>

lemma first_by_key_noop:
  "distinct xs \<Longrightarrow> set xs \<inter> seen = {} \<Longrightarrow> first_by_key (\<lambda>v. v) seen xs = xs"
  by (induction xs arbitrary: seen) auto

lemma tidy_unique:
  assumes "tidy xs"
  shows "uniqueExactStrings xs = xs"
proof -
  have m: "map trim xs = xs"
    using assms by (intro map_idI) (simp add: tidy_def)
  have f: "filter (\<lambda>r. r \<noteq> []) xs = xs"
    using assms by (simp add: tidy_def filter_id_conv)
  have "first_by_key (\<lambda>v. v) {} xs = xs"
    using assms by (intro first_by_key_noop) (simp_all add: tidy_def)
  then show ?thesis
    by (simp add: uniqueExactStrings_eq m f)
qed

lemma uniqueExactStrings_tidy: "tidy (uniqueExactStrings vs)"
proof -
  have "x \<noteq> [] \<and> trim x = x" if "x \<in> set (uniqueExactStrings vs)" for x
  proof -
    from that have "x \<in> set (filter (\<lambda>r. r \<noteq> []) (map trim vs))"
      by (simp add: uniqueExactStrings_eq first_by_key_set)
    then obtain y where "x = trim y" and "x \<noteq> []" by auto
    then show ?thesis using trim_idem[of y] by simp
  qed
  moreover have "distinct (uniqueExactStrings vs)"
    by (simp add: uniqueExactStrings_eq first_by_key_distinct_id)
  ultimately show ?thesis
    unfolding tidy_def by blast
qed

lemma tidy_filter: "tidy xs \<Longrightarrow> tidy (filter P xs)"
  by (auto simp: tidy_def)

lemma addVideoIds_loop_eq:
  "addVideoIds_loop ins ids (added, failed) =
     (added + length (filter (\<lambda>v. ins v = None) ids),
      failed @ List.map_filter (\<lambda>v. map_option (\<lambda>m. (v, m)) (ins v)) ids)"
proof (induction ids arbitrary: added failed)
  case Nil
  then show ?case by (simp add: List.map_filter_def)
next
  case (Cons v ids)
  then show ?case by (cases "ins v") (simp_all add: List.map_filter_def)
qed

lemma failed_ids:
  "map fst (List.map_filter (\<lambda>v. map_option (\<lambda>m. (v, m)) (ins v)) ids) =
     filter (\<lambda>v. ins v \<noteq> None) ids"
  by (induction ids) (auto simp: List.map_filter_def)

lemma filter_failed:
  "filter (\<lambda>v. v \<in> set (filter (\<lambda>v. ins v \<noteq> None) ids)) ids = filter (\<lambda>v. ins v \<noteq> None) ids"
  by (rule filter_cong) auto

lemma addVideoIdsToPlaylist_tidy:
  assumes "tidy ids"
  shows "addVideoIdsToPlaylist ins ids =
     ((length (filter (\<lambda>v. ins v = None) ids),
       List.map_filter (\<lambda>v. map_option (\<lambda>m. (v, m)) (ins v)) ids), ids)"
  by (simp add: addVideoIdsToPlaylist_def tidy_unique[OF assms] addVideoIds_loop_eq)

text \<open>
  Claim C4. \<open>syncOutputFileToPlaylist\<close> requests an insertion exactly for the IDs
  of the desired set (the queue and then the Ledger, each ID once) that are not
  in the fetched membership of the playlist, each once; it requests none when the
  token, the playlist lookup or the fetch fails. So no ID of the fetched membership
  is ever passed to insertion.
\<close>

theorem backfill_inserts_only_missing:
  "(case syncOutputFileToPlaylist other rem fs qp out of
      (result, fs', requested) \<Rightarrow>
        (let desiredIds = uniqueExactStrings
                            (readVideoIdQueue other fs qp @ readExistingVideoIds other fs out)
         in requested =
              (case access_token rem of
                 Inl m \<Rightarrow> []
               | Inr t \<Rightarrow>
                   (case target_playlist rem of
                      Inl m \<Rightarrow> []
                    | Inr pid \<Rightarrow>
                        (case fetchPlaylistVideoIdSet (item_pages rem) of
                           Inl m \<Rightarrow> []
                         | Inr alreadyInPlaylist \<Rightarrow>
                             filter (\<lambda>v. v \<notin> set alreadyInPlaylist) desiredIds)))
            \<and> distinct requested
            \<and> (\<forall>v \<in> set requested.
                  v \<in> set desiredIds
                  \<and> (\<forall>alreadyInPlaylist.
                        fetchPlaylistVideoIdSet (item_pages rem) = Inr alreadyInPlaylist
                        \<longrightarrow> v \<notin> set alreadyInPlaylist))))"
proof -
  define D where "D = uniqueExactStrings (readVideoIdQueue other fs qp @ readExistingVideoIds other fs out)"
  have td: "tidy D" unfolding D_def by (rule uniqueExactStrings_tidy)
  have pend: "\<And>S. addVideoIdsToPlaylist (insert_error rem) (filter (\<lambda>v. v \<notin> S) D) =
     ((length (filter (\<lambda>v. insert_error rem v = None) (filter (\<lambda>v. v \<notin> S) D)),
       List.map_filter (\<lambda>v. map_option (\<lambda>m. (v, m)) (insert_error rem v))
         (filter (\<lambda>v. v \<notin> S) D)),
      filter (\<lambda>v. v \<notin> S) D)"
    by (rule addVideoIdsToPlaylist_tidy[OF tidy_filter[OF td]])
  obtain result fs' requested where
    r: "syncOutputFileToPlaylist other rem fs qp out = (result, fs', requested)"
    by (metis surj_pair)
  have req: "requested =
      (case access_token rem of
         Inl m \<Rightarrow> []
       | Inr t \<Rightarrow>
           (case target_playlist rem of
              Inl m \<Rightarrow> []
            | Inr pid \<Rightarrow>
                (case fetchPlaylistVideoIdSet (item_pages rem) of
                   Inl m \<Rightarrow> []
                 | Inr alreadyInPlaylist \<Rightarrow>
                     filter (\<lambda>v. v \<notin> set alreadyInPlaylist) D)))"
  proof (cases "D = []")
    case True
    with r show ?thesis
      unfolding syncOutputFileToPlaylist_def Let_def D_def[symmetric]
      by (simp split: sum.splits)
  next
    case False
    show ?thesis
    proof (cases "access_token rem")
      case (Inl m)
      with r False show ?thesis
        unfolding syncOutputFileToPlaylist_def Let_def D_def[symmetric] by simp
    next
      case tok: (Inr t)
      show ?thesis
      proof (cases "target_playlist rem")
        case (Inl m)
        with r False tok show ?thesis
          unfolding syncOutputFileToPlaylist_def Let_def D_def[symmetric] by simp
      next
        case pl: (Inr pid)
        show ?thesis
        proof (cases "fetchPlaylistVideoIdSet (item_pages rem)")
          case (Inl m)
          with r False tok pl show ?thesis
            unfolding syncOutputFileToPlaylist_def Let_def D_def[symmetric] by simp
        next
          case (Inr already)
          show ?thesis
          proof (cases "filter (\<lambda>v. v \<notin> set already) D = []")
            case True
            with r False tok pl Inr show ?thesis
              unfolding syncOutputFileToPlaylist_def Let_def D_def[symmetric] by simp
          next
            case ne: False
            with r False tok pl Inr show ?thesis
              unfolding syncOutputFileToPlaylist_def Let_def D_def[symmetric]
              by (simp add: pend)
          qed
        qed
      qed
    qed
  qed
  have dis: "distinct requested"
    unfolding req using td by (auto simp: tidy_def split: sum.splits)
  have mem: "\<forall>v \<in> set requested.
                  v \<in> set D
                  \<and> (\<forall>alreadyInPlaylist.
                        fetchPlaylistVideoIdSet (item_pages rem) = Inr alreadyInPlaylist
                        \<longrightarrow> v \<notin> set alreadyInPlaylist)"
    unfolding req by (auto split: sum.splits)
  show ?thesis
    unfolding r D_def[symmetric] Let_def prod.case using req dis mem by blast
qed

theorem backfill_inserts_only_missing_witness:
  "fetchPlaylistVideoIdSet
     [Inr (JObj [(''items'', JArr [JObj [(''contentDetails'', JObj [(''videoId'', JStr ''abc12345678'')])]]),
                 (''nextPageToken'', JStr ''page2'')]),
      Inr (JObj [(''items'', JArr [JObj [(''contentDetails'', JObj [(''videoId'', JStr ''old12345678'')])]])])]
     = Inr [''abc12345678'', ''old12345678'']
   \<and> snd (snd (syncOutputFileToPlaylist (\<lambda>raw. None)
        \<lparr>access_token = Inr ''token'', target_playlist = Inr ''PL1'',
          item_pages =
            [Inr (JObj [(''items'', JArr [JObj [(''contentDetails'', JObj [(''videoId'', JStr ''abc12345678'')])]]),
                        (''nextPageToken'', JStr ''page2'')]),
             Inr (JObj [(''items'', JArr [JObj [(''contentDetails'', JObj [(''videoId'', JStr ''old12345678'')])]])])],
          insert_error = (\<lambda>v. None)\<rparr>
        ((\<lambda>p. None)(''saved_live_links.txt'' \<mapsto>
            ''https://www.youtube.com/watch?v=abc12345678'' @ [CHR 0x0A]
              @ ''https://www.youtube.com/watch?v=xyz12345678'' @ [CHR 0x0A]))
        ''saved_live_links.playlist_queue.txt'' ''saved_live_links.txt''))
     = [''xyz12345678'']"
proof -
  let ?pages = "[Inr (JObj [(''items'', JArr [JObj [(''contentDetails'', JObj [(''videoId'', JStr ''abc12345678'')])]]),
                        (''nextPageToken'', JStr ''page2'')]),
             Inr (JObj [(''items'', JArr [JObj [(''contentDetails'', JObj [(''videoId'', JStr ''old12345678'')])]])])]"
  let ?rem = "\<lparr>access_token = Inr ''token'', target_playlist = Inr ''PL1'',
          item_pages = ?pages, insert_error = (\<lambda>v. None)\<rparr>"
  let ?fs = "(\<lambda>p. None)(''saved_live_links.txt'' \<mapsto>
            ''https://www.youtube.com/watch?v=abc12345678'' @ [CHR 0x0A]
              @ ''https://www.youtube.com/watch?v=xyz12345678'' @ [CHR 0x0A])"
  have pages: "fetchPlaylistVideoIdSet ?pages = Inr [''abc12345678'', ''old12345678'']"
    by code_simp
  have ledger: "readExistingVideoIds (\<lambda>raw. None) ?fs ''saved_live_links.txt''
      = [''abc12345678'', ''xyz12345678'']"
    by code_simp
  have queue: "readVideoIdQueue (\<lambda>raw. None) ?fs ''saved_live_links.playlist_queue.txt'' = []"
    by code_simp
  have desired: "uniqueExactStrings ([] @ [''abc12345678'', ''xyz12345678'']) = [''abc12345678'', ''xyz12345678'']"
    by code_simp
  obtain result fs' requested where
    r: "syncOutputFileToPlaylist (\<lambda>raw. None) ?rem ?fs ''saved_live_links.playlist_queue.txt''
          ''saved_live_links.txt'' = (result, fs', requested)"
    by (metis surj_pair)
  from backfill_inserts_only_missing[where other = "\<lambda>raw. None" and rem = ?rem and fs = ?fs
      and qp = "''saved_live_links.playlist_queue.txt''" and out = "''saved_live_links.txt''"]
  have "requested = [''xyz12345678'']"
    unfolding r prod.case Let_def ledger queue desired using pages by simp
  with pages show ?thesis
    unfolding r by simp
qed

lemma lineVideoId_bare:
  assumes "valid_video_id v"
  shows "lineVideoId other v = Some v"
proof -
  have nows: "\<forall>c \<in> set v. \<not> js_whitespace c"
    using assms valid_video_id_chars id_char_facts(1) by blast
  have t: "trim v = v"
    using valid_video_id_nonempty[OF assms] valid_video_id_hd[OF assms]
      valid_video_id_last[OF assms] id_char_facts(1)
    by (intro trim_noop) auto
  show ?thesis
    using valid_video_id_nonempty[OF assms]
    by (simp add: lineVideoId_def Let_def t split_runs_no_sep[OF nows] extract_bare[OF assms])
qed

lemma join_lines_concat:
  "ids \<noteq> [] \<Longrightarrow> join_lines ids @ [CHR 0x0A] = concat (map (\<lambda>v. v @ [CHR 0x0A]) ids)"
  by (induction ids rule: join_lines.induct) simp_all

lemma valid_no_lf:
  assumes "valid_video_id v"
  shows "CHR 0x0A \<notin> set v" and "v = [] \<or> last v \<noteq> CHR 0x0D"
  using assms valid_video_id_chars[of v] valid_video_id_last[OF assms] id_char_facts(4,5)
  by auto

lemma split_lines_ids:
  assumes "list_all valid_video_id ids"
  shows "split_lines (concat (map (\<lambda>v. v @ [CHR 0x0A]) ids)) = ids @ [[]]"
  using assms
proof (induction ids)
  case Nil
  then show ?case by simp
next
  case (Cons v ids)
  then have v: "valid_video_id v" by simp
  from split_lines_line[OF valid_no_lf[OF v], of "concat (map (\<lambda>v. v @ [CHR 0x0A]) ids)"] Cons
  show ?case by simp
qed

lemma map_filter_lineVideoId:
  assumes "list_all valid_video_id ids"
  shows "List.map_filter (lineVideoId other) (ids @ [[]]) = ids"
  using assms
  by (induction ids) (simp_all add: List.map_filter_def lineVideoId_bare lineVideoId_empty)

lemma valid_tidy:
  assumes "list_all valid_video_id ids" and "distinct ids"
  shows "tidy ids"
proof -
  have "x \<noteq> [] \<and> trim x = x" if "x \<in> set ids" for x
  proof -
    from that assms(1) have v: "valid_video_id x" by (simp add: list_all_iff)
    have "trim x = x"
      using valid_video_id_nonempty[OF v] valid_video_id_hd[OF v] valid_video_id_last[OF v]
        id_char_facts(1)
      by (intro trim_noop) auto
    with valid_video_id_nonempty[OF v] show ?thesis by simp
  qed
  with assms(2) show ?thesis unfolding tidy_def by blast
qed

lemma readVideoIdQueue_written:
  assumes "list_all valid_video_id ids" and "distinct ids" and "ids \<noteq> []"
  shows "readVideoIdQueue other (fs(qp \<mapsto> join_lines ids @ [CHR 0x0A])) qp = ids"
  using assms
  by (simp add: readVideoIdQueue_def join_lines_concat split_lines_ids map_filter_lineVideoId
      tidy_unique[OF valid_tidy])

lemma writeVideoIdQueue_tidy:
  "tidy ids \<Longrightarrow> writeVideoIdQueue fs qp ids =
     (if ids = [] then fs(qp := None) else fs(qp \<mapsto> join_lines ids @ [CHR 0x0A]))"
  by (simp add: writeVideoIdQueue_def tidy_unique)

lemma flush_merged:
  assumes m: "uniqueExactStrings (readVideoIdQueue other fs qp @ newIds) \<noteq> []"
  shows "flushPlaylistQueue other rem fs qp newIds ensure =
     (let merged = uniqueExactStrings (readVideoIdQueue other fs qp @ newIds);
          failed = filter (\<lambda>v. insert_error rem v \<noteq> None) merged;
          stuck = (\<lambda>message.
             (\<lparr>queuePath = qp, playlistId = None, addedCount = 0,
                failures = [(''playlist'', message)], remainingCount = length merged,
                synced = None\<rparr>,
              fs(qp \<mapsto> join_lines merged @ [CHR 0x0A]), []))
      in case access_token rem of
           Inl message \<Rightarrow> stuck message
         | Inr t \<Rightarrow>
             (case target_playlist rem of
                Inl message \<Rightarrow> stuck message
              | Inr pid \<Rightarrow>
                  (\<lparr>queuePath = qp, playlistId = Some pid,
                     addedCount = length (filter (\<lambda>v. insert_error rem v = None) merged),
                     failures = List.map_filter
                        (\<lambda>v. map_option (\<lambda>m. (v, m)) (insert_error rem v)) merged,
                     remainingCount = length failed, synced = None\<rparr>,
                   (if failed = [] then fs(qp := None)
                    else fs(qp \<mapsto> join_lines failed @ [CHR 0x0A])),
                   merged)))"
proof -
  define M where "M = uniqueExactStrings (readVideoIdQueue other fs qp @ newIds)"
  have tm: "tidy M" unfolding M_def by (rule uniqueExactStrings_tidy)
  have ne: "M \<noteq> []" using m unfolding M_def .
  have nn: "\<not> (readVideoIdQueue other fs qp = [] \<and> newIds = [])"
  proof
    assume "readVideoIdQueue other fs qp = [] \<and> newIds = []"
    then have "M = []" unfolding M_def by (simp add: uniqueExactStrings_def)
    with ne show False by simp
  qed
  have w1: "writeVideoIdQueue fs qp M = fs(qp \<mapsto> join_lines M @ [CHR 0x0A])"
    using ne by (simp add: writeVideoIdQueue_tidy[OF tm])
  have add: "addVideoIdsToPlaylist (insert_error rem) M =
     ((length (filter (\<lambda>v. insert_error rem v = None) M),
       List.map_filter (\<lambda>v. map_option (\<lambda>m. (v, m)) (insert_error rem v)) M), M)"
    by (rule addVideoIdsToPlaylist_tidy[OF tm])
  have rem_eq: "filter (\<lambda>v. v \<in> set (map fst
        (List.map_filter (\<lambda>v. map_option (\<lambda>m. (v, m)) (insert_error rem v)) M))) M
      = filter (\<lambda>v. insert_error rem v \<noteq> None) M"
    unfolding failed_ids by (rule filter_failed)
  have w2: "\<And>P X. writeVideoIdQueue (fs(qp \<mapsto> X)) qp (filter P M) =
      (if filter P M = [] then fs(qp := None)
       else fs(qp \<mapsto> join_lines (filter P M) @ [CHR 0x0A]))"
    by (simp add: writeVideoIdQueue_tidy[OF tidy_filter[OF tm]])
  show ?thesis
    unfolding flushPlaylistQueue_def Let_def M_def[symmetric]
    using nn ne
    by (simp add: w1 add rem_eq w2 split: sum.splits del: set_map)
qed

lemma readVideoIdQueue_two:
  assumes "valid_video_id a" and "valid_video_id b" and "a \<noteq> b"
    and "fs qp = Some (a @ [CHR 0x0A] @ b @ [CHR 0x0A])"
  shows "readVideoIdQueue other fs qp = [a, b]"
proof -
  have "fs = fs(qp \<mapsto> join_lines [a, b] @ [CHR 0x0A])"
    using assms(4) by (auto simp: fun_eq_iff)
  then have "readVideoIdQueue other fs qp =
      readVideoIdQueue other (fs(qp \<mapsto> join_lines [a, b] @ [CHR 0x0A])) qp"
    by simp
  also have "\<dots> = [a, b]"
    using assms(1-3) by (intro readVideoIdQueue_written) simp_all
  finally show ?thesis .
qed

text \<open>
  Claim C3, amended. The merged queue is the IDs that the extractor finds in the
  lines of the queue file, followed by the new IDs, each once. When it is not
  empty and the token and the playlist are obtained, an insertion is requested
  for each of its entries, and afterwards the queue file holds exactly the
  entries whose insertion failed, one per line, or is deleted when there is none;
  for valid IDs, reading the queue again gives these entries. When the token or
  the playlist fails, the file holds the whole merged queue. When the new IDs are
  all blank and nothing is read from the file, the file is deleted; when there
  are no new IDs and nothing is read from the file, the file is left as it is. In
  particular, a queue file of two valid IDs of which the first fails and the
  second succeeds holds only the first afterwards.
\<close>

theorem flush_keeps_failed_ids:
  "(let merged = uniqueExactStrings (readVideoIdQueue other fs qp @ newIds);
        failed = filter (\<lambda>v. insert_error rem v \<noteq> None) merged
    in case flushPlaylistQueue other rem fs qp newIds ensure of
         (result, fs', requested) \<Rightarrow>
           (merged \<noteq> [] \<and> access_token rem = Inr t \<and> target_playlist rem = Inr pid
            \<longrightarrow> requested = merged
                \<and> map fst (failures result) = failed
                \<and> remainingCount result = length failed
                \<and> fs' = (if failed = [] then fs(qp := None)
                          else fs(qp \<mapsto> join_lines failed @ [CHR 0x0A]))
                \<and> (list_all valid_video_id merged \<longrightarrow> readVideoIdQueue other fs' qp = failed))
           \<and> (merged \<noteq> [] \<and> (access_token rem = Inl m \<or> target_playlist rem = Inl m)
               \<longrightarrow> requested = [] \<and> fs' = fs(qp \<mapsto> join_lines merged @ [CHR 0x0A]))
           \<and> (merged = [] \<and> newIds \<noteq> [] \<longrightarrow> requested = [] \<and> fs' = fs(qp := None))
           \<and> (readVideoIdQueue other fs qp = [] \<and> newIds = [] \<longrightarrow> requested = [] \<and> fs' = fs))
   \<and> (valid_video_id a \<and> valid_video_id b \<and> a \<noteq> b
        \<and> fs qp = Some (a @ [CHR 0x0A] @ b @ [CHR 0x0A])
        \<and> insert_error rem a = Some message \<and> insert_error rem b = None
        \<and> access_token rem = Inr t \<and> target_playlist rem = Inr pid
       \<longrightarrow> fst (snd (flushPlaylistQueue other rem fs qp [] ensure)) qp = Some (a @ [CHR 0x0A])
           \<and> readVideoIdQueue other (fst (snd (flushPlaylistQueue other rem fs qp [] ensure))) qp = [a])"
proof (rule conjI)
  define M where "M = uniqueExactStrings (readVideoIdQueue other fs qp @ newIds)"
  define F where "F = filter (\<lambda>v. insert_error rem v \<noteq> None) M"
  obtain result fs' requested where
    r: "flushPlaylistQueue other rem fs qp newIds ensure = (result, fs', requested)"
    by (metis surj_pair)
  have tm: "tidy M" unfolding M_def by (rule uniqueExactStrings_tidy)
  have ok: "M \<noteq> [] \<and> access_token rem = Inr t \<and> target_playlist rem = Inr pid \<longrightarrow>
        requested = M \<and> map fst (failures result) = F \<and> remainingCount result = length F
        \<and> fs' = (if F = [] then fs(qp := None) else fs(qp \<mapsto> join_lines F @ [CHR 0x0A]))
        \<and> (list_all valid_video_id M \<longrightarrow> readVideoIdQueue other fs' qp = F)"
  proof (intro impI, elim conjE)
    assume that: "M \<noteq> []" "access_token rem = Inr t" "target_playlist rem = Inr pid"
    from that(1) have m: "uniqueExactStrings (readVideoIdQueue other fs qp @ newIds) \<noteq> []"
      unfolding M_def .
    have main: "requested = M \<and> map fst (failures result) = F \<and> remainingCount result = length F
        \<and> fs' = (if F = [] then fs(qp := None) else fs(qp \<mapsto> join_lines F @ [CHR 0x0A]))"
    proof -
      have "flushPlaylistQueue other rem fs qp newIds ensure =
          (\<lparr>queuePath = qp, playlistId = Some pid,
                     addedCount = length (filter (\<lambda>v. insert_error rem v = None) M),
                     failures = List.map_filter
                        (\<lambda>v. map_option (\<lambda>m. (v, m)) (insert_error rem v)) M,
                     remainingCount = length F, synced = None\<rparr>,
           (if F = [] then fs(qp := None) else fs(qp \<mapsto> join_lines F @ [CHR 0x0A])),
           M)"
        unfolding flush_merged[OF m] Let_def M_def[symmetric] F_def[symmetric] that(2,3) sum.case
        by (rule refl)
      note eq = trans[OF r[symmetric] this, unfolded prod.inject]
      note res = eq[THEN conjunct1]
      note fs'_eq = eq[THEN conjunct2, THEN conjunct1]
      note req = eq[THEN conjunct2, THEN conjunct2]
      have "map fst (failures result) = F"
        unfolding res F_def using failed_ids[of "insert_error rem" M] by simp
      with res fs'_eq req show ?thesis by simp
    qed
    have "readVideoIdQueue other fs' qp = F" if v: "list_all valid_video_id M"
    proof (cases "F = []")
      case True
      with main show ?thesis by (simp add: readVideoIdQueue_def)
    next
      case False
      have "list_all valid_video_id F" "distinct F"
        using v tm unfolding F_def by (auto simp: list_all_iff tidy_def)
      from readVideoIdQueue_written[OF this False, of other fs qp] main False
      show ?thesis by simp
    qed
    with main show "requested = M \<and> map fst (failures result) = F \<and> remainingCount result = length F
        \<and> fs' = (if F = [] then fs(qp := None) else fs(qp \<mapsto> join_lines F @ [CHR 0x0A]))
        \<and> (list_all valid_video_id M \<longrightarrow> readVideoIdQueue other fs' qp = F)" by blast
  qed
  have stuck: "M \<noteq> [] \<and> (access_token rem = Inl m \<or> target_playlist rem = Inl m) \<longrightarrow>
      requested = [] \<and> fs' = fs(qp \<mapsto> join_lines M @ [CHR 0x0A])"
  proof (intro impI, elim conjE)
    assume that: "M \<noteq> []" "access_token rem = Inl m \<or> target_playlist rem = Inl m"
    from that(1) have m: "uniqueExactStrings (readVideoIdQueue other fs qp @ newIds) \<noteq> []"
      unfolding M_def .
    show "requested = [] \<and> fs' = fs(qp \<mapsto> join_lines M @ [CHR 0x0A])"
      using r that(2) unfolding flush_merged[OF m] Let_def M_def[symmetric]
      by (auto split: sum.splits)
  qed
  have w0: "writeVideoIdQueue fs qp [] = fs(qp := None)"
    by (simp add: writeVideoIdQueue_def uniqueExactStrings_def)
  have blank: "M = [] \<and> newIds \<noteq> [] \<longrightarrow> requested = [] \<and> fs' = fs(qp := None)"
  proof (intro impI, elim conjE)
    assume that: "M = []" "newIds \<noteq> []"
    have "flushPlaylistQueue other rem fs qp newIds ensure =
        (\<lparr>queuePath = qp, playlistId = None, addedCount = 0, failures = [],
           remainingCount = 0, synced = None\<rparr>, fs(qp := None), [])"
      unfolding flushPlaylistQueue_def Let_def M_def[symmetric] using that by (simp add: w0)
    from trans[OF r[symmetric] this, unfolded prod.inject]
    show "requested = [] \<and> fs' = fs(qp := None)" by blast
  qed
  have untouched: "readVideoIdQueue other fs qp = [] \<and> newIds = [] \<longrightarrow> requested = [] \<and> fs' = fs"
  proof (intro impI)
    assume that: "readVideoIdQueue other fs qp = [] \<and> newIds = []"
    have "snd (flushPlaylistQueue other rem fs qp newIds ensure) = (fs, [])"
      unfolding flushPlaylistQueue_def Let_def using that by (simp split: sum.splits)
    then show "requested = [] \<and> fs' = fs" unfolding r by simp
  qed
  show "let merged = uniqueExactStrings (readVideoIdQueue other fs qp @ newIds);
        failed = filter (\<lambda>v. insert_error rem v \<noteq> None) merged
    in case flushPlaylistQueue other rem fs qp newIds ensure of
         (result, fs', requested) \<Rightarrow>
           (merged \<noteq> [] \<and> access_token rem = Inr t \<and> target_playlist rem = Inr pid
            \<longrightarrow> requested = merged
                \<and> map fst (failures result) = failed
                \<and> remainingCount result = length failed
                \<and> fs' = (if failed = [] then fs(qp := None)
                          else fs(qp \<mapsto> join_lines failed @ [CHR 0x0A]))
                \<and> (list_all valid_video_id merged \<longrightarrow> readVideoIdQueue other fs' qp = failed))
           \<and> (merged \<noteq> [] \<and> (access_token rem = Inl m \<or> target_playlist rem = Inl m)
               \<longrightarrow> requested = [] \<and> fs' = fs(qp \<mapsto> join_lines merged @ [CHR 0x0A]))
           \<and> (merged = [] \<and> newIds \<noteq> [] \<longrightarrow> requested = [] \<and> fs' = fs(qp := None))
           \<and> (readVideoIdQueue other fs qp = [] \<and> newIds = [] \<longrightarrow> requested = [] \<and> fs' = fs)"
    unfolding Let_def r prod.case M_def[symmetric] F_def[symmetric]
    apply (rule conjI, rule ok)
    apply (rule conjI, rule stuck)
    apply (rule conjI, rule blank)
    apply (rule untouched)
    done
next
  show "valid_video_id a \<and> valid_video_id b \<and> a \<noteq> b
        \<and> fs qp = Some (a @ [CHR 0x0A] @ b @ [CHR 0x0A])
        \<and> insert_error rem a = Some message \<and> insert_error rem b = None
        \<and> access_token rem = Inr t \<and> target_playlist rem = Inr pid
       \<longrightarrow> fst (snd (flushPlaylistQueue other rem fs qp [] ensure)) qp = Some (a @ [CHR 0x0A])
           \<and> readVideoIdQueue other (fst (snd (flushPlaylistQueue other rem fs qp [] ensure))) qp = [a]"
  proof
    assume h: "valid_video_id a \<and> valid_video_id b \<and> a \<noteq> b
        \<and> fs qp = Some (a @ [CHR 0x0A] @ b @ [CHR 0x0A])
        \<and> insert_error rem a = Some message \<and> insert_error rem b = None
        \<and> access_token rem = Inr t \<and> target_playlist rem = Inr pid"
    then have q: "readVideoIdQueue other fs qp = [a, b]"
      by (intro readVideoIdQueue_two) simp_all
    have t: "tidy [a, b]"
      using h by (intro valid_tidy) simp_all
    have u: "uniqueExactStrings ([a, b] @ []) = [a, b]"
      using tidy_unique[OF t] by simp
    have m: "uniqueExactStrings (readVideoIdQueue other fs qp @ []) \<noteq> []"
      unfolding q u by simp
    have fs': "fst (snd (flushPlaylistQueue other rem fs qp [] ensure)) = fs(qp \<mapsto> a @ [CHR 0x0A])"
      unfolding flush_merged[OF m] Let_def q u using h by simp
    have "readVideoIdQueue other (fs(qp \<mapsto> join_lines [a] @ [CHR 0x0A])) qp = [a]"
      using h by (intro readVideoIdQueue_written) simp_all
    then show "fst (snd (flushPlaylistQueue other rem fs qp [] ensure)) qp = Some (a @ [CHR 0x0A])
           \<and> readVideoIdQueue other (fst (snd (flushPlaylistQueue other rem fs qp [] ensure))) qp = [a]"
      unfolding fs' by simp
  qed
qed

theorem flush_keeps_failed_ids_witness:
  "fst (snd (flushPlaylistQueue (\<lambda>raw. None)
       \<lparr>access_token = Inr ''token'', target_playlist = Inr ''PL1'', item_pages = [],
         insert_error = (\<lambda>v. if v = ''abc12345678'' then Some ''quotaExceeded'' else None)\<rparr>
       ((\<lambda>p. None)(''queue.txt'' \<mapsto> ''abc12345678'' @ [CHR 0x0A] @ ''xyz12345678'' @ [CHR 0x0A]))
       ''queue.txt'' [] False)) ''queue.txt''
     = Some (''abc12345678'' @ [CHR 0x0A])
   \<and> readVideoIdQueue (\<lambda>raw. None)
       (fst (snd (flushPlaylistQueue (\<lambda>raw. None)
          \<lparr>access_token = Inr ''token'', target_playlist = Inr ''PL1'', item_pages = [],
            insert_error = (\<lambda>v. if v = ''abc12345678'' then Some ''quotaExceeded'' else None)\<rparr>
          ((\<lambda>p. None)(''queue.txt'' \<mapsto> ''abc12345678'' @ [CHR 0x0A] @ ''xyz12345678'' @ [CHR 0x0A]))
          ''queue.txt'' [] False)))
       ''queue.txt''
     = [''abc12345678'']"
proof -
  have v: "valid_video_id ''abc12345678''" "valid_video_id ''xyz12345678''"
    by (simp_all add: valid_video_id_def id_char_def ascii_alpha_def ascii_digit_def)
  show ?thesis
    using flush_keeps_failed_ids[
        where a = "''abc12345678''" and b = "''xyz12345678''" and other = "\<lambda>raw. None"
          and fs = "(\<lambda>p. None)(''queue.txt'' \<mapsto> ''abc12345678'' @ [CHR 0x0A] @ ''xyz12345678'' @ [CHR 0x0A])"
          and qp = "''queue.txt''" and message = "''quotaExceeded''" and t = "''token''"
          and pid = "''PL1''" and ensure = False
          and rem = "\<lparr>access_token = Inr ''token'', target_playlist = Inr ''PL1'', item_pages = [],
            insert_error = (\<lambda>v. if v = ''abc12345678'' then Some ''quotaExceeded'' else None)\<rparr>",
        THEN conjunct2]
      v
    by simp
qed

text \<open>
  Claim C3 as stated fails on a queue file whose lines are no video IDs, such as
  the two lines \<open>v1\<close> and \<open>v2\<close> of the example read as they stand: nothing is read
  from the file, no insertion is requested, and the file stays as it was instead
  of holding \<open>v1\<close> only.
\<close>

theorem flush_keeps_failed_ids_counterexample:
  "flushPlaylistQueue (\<lambda>raw. None)
     \<lparr>access_token = Inr ''token'', target_playlist = Inr ''PL1'', item_pages = [],
       insert_error = (\<lambda>v. if v = ''v1'' then Some ''quotaExceeded'' else None)\<rparr>
     ((\<lambda>p. None)(''queue.txt'' \<mapsto> ''v1'' @ [CHR 0x0A] @ ''v2'' @ [CHR 0x0A]))
     ''queue.txt'' [] False
   = (\<lparr>queuePath = ''queue.txt'', playlistId = None, addedCount = 0, failures = [],
        remainingCount = 0, synced = None\<rparr>,
      (\<lambda>p. None)(''queue.txt'' \<mapsto> ''v1'' @ [CHR 0x0A] @ ''v2'' @ [CHR 0x0A]),
      [])"
proof -
  have q: "readVideoIdQueue (\<lambda>raw. None)
      ((\<lambda>p. None)(''queue.txt'' \<mapsto> ''v1'' @ [CHR 0x0A] @ ''v2'' @ [CHR 0x0A])) ''queue.txt'' = []"
    by code_simp
  show ?thesis
    unfolding flushPlaylistQueue_def Let_def q by simp
qed

section \<open>Properties of the run\<close>

lemma channel_loop_many:
  assumes "n \<noteq> 1"
  shows "fst (channel_loop lk n inputs (memo, cache, live, errs)) =
     Inr (fold (\<lambda>v acc. set_add acc v)
            (live_of_successes (channel_outcomes lk (memo, cache) inputs)) live,
          errs @ messages_of_failures (channel_outcomes lk (memo, cache) inputs))"
proof (induction inputs arbitrary: memo cache live errs)
  case Nil
  then show ?case by (simp add: live_of_successes_def messages_of_failures_def List.map_filter_def)
next
  case (Cons c inputs)
  obtain found memo' cache' where a: "channel_attempt lk (memo, cache) c = (found, memo', cache')"
    by (metis surj_pair)
  show ?case
  proof (cases found)
    case (Inl message)
    with a assms Cons.IH[of memo' cache' live "errs @ [''['' @ c @ ''] '' @ message]"]
    show ?thesis
      by (simp add: live_of_successes_def messages_of_failures_def List.map_filter_def)
  next
    case (Inr ids)
    with a Cons.IH[of memo' cache' "fold (\<lambda>v acc. set_add acc v) ids live" errs]
    show ?thesis
      by (simp add: live_of_successes_def messages_of_failures_def List.map_filter_def)
  qed
qed

lemma channel_outcomes_inputs: "map fst (channel_outcomes lk st inputs) = inputs"
  by (induction inputs arbitrary: st) (auto split: prod.splits)

lemma set_fold_set_add: "set (fold (\<lambda>v acc. set_add acc v) xs acc) = set acc \<union> set xs"
  by (induction xs arbitrary: acc) (auto simp: set_add_def)

lemma distinct_fold_set_add: "distinct acc \<Longrightarrow> distinct (fold (\<lambda>v acc. set_add acc v) xs acc)"
  by (induction xs arbitrary: acc) (auto simp: set_add_def)

lemma set_live_of_successes:
  "set (live_of_successes outcomes) =
     (\<Union>found \<in> snd ` set outcomes. case found of Inl message \<Rightarrow> {} | Inr ids \<Rightarrow> set ids)"
  by (induction outcomes)
     (auto simp: live_of_successes_def List.map_filter_def split: sum.splits)

lemma channel_loop_single:
  assumes "channel_attempt lk (memo, cache) c = (Inl message, memo', cache')"
  shows "channel_loop lk 1 [c] (memo, cache, live, errs) = (Inl message, memo', cache')"
  using assms by simp

lemma runOnce_after_loop:
  assumes "apiKey cfg \<noteq> []" and "channelInputs cfg \<noteq> []"
    and "0 < scanLatest cfg" and "scanLatest cfg \<le> 50"
    and "channel_loop lk (length (channelInputs cfg)) (channelInputs cfg)
           (channelIdByInput w, caches w, [], []) = (Inr (live, errors), memo, cache)"
  shows "\<not> isl (outcome (runOnce other cfg lk rem w))"
    and "reported_errors (runOnce other cfg lk rem w) = errors"
  using assms
  by (auto simp: runOnce_def split: prod.splits)

text \<open>
  Claim C9. In a run with more than one channel input no error of a channel
  leaves \<open>runOnce\<close>: every input is attempted, the run returns an exit code, the
  errors it reports are the messages of the channels that failed, and the merged
  live set is the union of the live sets of the channels that succeeded. With one
  channel input, the error of that channel leaves \<open>runOnce\<close>.
\<close>

theorem channel_failures_are_isolated:
  assumes "apiKey cfg \<noteq> []" and "0 < scanLatest cfg" and "scanLatest cfg \<le> 50"
  shows "(let outcomes = channel_outcomes lk (channelIdByInput w, caches w) (channelInputs cfg);
              merged = fold (\<lambda>v acc. set_add acc v) (live_of_successes outcomes) [];
              r = runOnce other cfg lk rem w
          in (1 < length (channelInputs cfg)
              \<longrightarrow> \<not> isl (outcome r)
                  \<and> reported_errors r = messages_of_failures outcomes
                  \<and> map fst outcomes = channelInputs cfg
                  \<and> fst (channel_loop lk (length (channelInputs cfg)) (channelInputs cfg)
                            (channelIdByInput w, caches w, [], []))
                      = Inr (merged, messages_of_failures outcomes)
                  \<and> distinct merged
                  \<and> set merged = (\<Union>found \<in> snd ` set outcomes.
                                     case found of Inl message \<Rightarrow> {} | Inr ids \<Rightarrow> set ids))
             \<and> (channelInputs cfg = [c]
                  \<and> fst (channel_attempt lk (channelIdByInput w, caches w) c) = Inl message
                 \<longrightarrow> outcome r = Inl message))"
proof -
  define Outs where "Outs = channel_outcomes lk (channelIdByInput w, caches w) (channelInputs cfg)"
  define L where "L = fold (\<lambda>v acc. set_add acc v) (live_of_successes Outs) []"
  have many: "\<not> isl (outcome (runOnce other cfg lk rem w))
        \<and> reported_errors (runOnce other cfg lk rem w) = messages_of_failures Outs
        \<and> map fst Outs = channelInputs cfg
        \<and> fst (channel_loop lk (length (channelInputs cfg)) (channelInputs cfg)
                  (channelIdByInput w, caches w, [], [])) = Inr (L, messages_of_failures Outs)
        \<and> distinct L
        \<and> set L = (\<Union>found \<in> snd ` set Outs. case found of Inl message \<Rightarrow> {} | Inr ids \<Rightarrow> set ids)"
    if n: "1 < length (channelInputs cfg)"
  proof -
    from n have n1: "length (channelInputs cfg) \<noteq> 1" and ne: "channelInputs cfg \<noteq> []" by auto
    have f: "fst (channel_loop lk (length (channelInputs cfg)) (channelInputs cfg)
                  (channelIdByInput w, caches w, [], [])) = Inr (L, messages_of_failures Outs)"
      unfolding L_def Outs_def using channel_loop_many[OF n1, of lk "channelInputs cfg"
          "channelIdByInput w" "caches w" "[]" "[]"] by simp
    then obtain memo cache where cl: "channel_loop lk (length (channelInputs cfg)) (channelInputs cfg)
           (channelIdByInput w, caches w, [], []) = (Inr (L, messages_of_failures Outs), memo, cache)"
      by (metis prod.collapse)
    note after = runOnce_after_loop[OF assms(1) ne assms(2,3) cl, of other rem]
    have "map fst Outs = channelInputs cfg" unfolding Outs_def by (rule channel_outcomes_inputs)
    moreover have "distinct L" unfolding L_def by (rule distinct_fold_set_add) simp
    moreover have "set L = (\<Union>found \<in> snd ` set Outs. case found of Inl message \<Rightarrow> {} | Inr ids \<Rightarrow> set ids)"
      unfolding L_def by (simp add: set_fold_set_add set_live_of_successes)
    ultimately show ?thesis using after f by blast
  qed
  have one: "outcome (runOnce other cfg lk rem w) = Inl message"
    if h: "channelInputs cfg = [c]
           \<and> fst (channel_attempt lk (channelIdByInput w, caches w) c) = Inl message"
  proof -
    from h obtain memo' cache' where
      a: "channel_attempt lk (channelIdByInput w, caches w) c = (Inl message, memo', cache')"
      by (metis prod.collapse)
    have "channel_loop lk 1 [c] (channelIdByInput w, caches w, [], []) = (Inl message, memo', cache')"
      by (rule channel_loop_single[OF a])
    with h assms show ?thesis
      by (simp add: runOnce_def)
  qed
  show ?thesis
    unfolding Let_def Outs_def[symmetric] L_def[symmetric] using many one by blast
qed

theorem channel_failures_are_isolated_witness:
  "outcome (runOnce (\<lambda>raw. None)
       \<lparr>apiKey = ''key'', channelInputs = [''@one'', ''@bad'', ''@two''],
         outputPath = ''saved_live_links.txt'',
         playlistQueuePath = ''saved_live_links.playlist_queue.txt'',
         playlistStatePath = ''saved_live_links.playlist_state.json'',
         scanLatest = 50, withTimestamp = False, debug = False, saveToPlaylist = False,
         playlistSyncOutputEnabled = False, needsPlaylistBackfill = False\<rparr>
       \<lparr>resolveChannelId = (\<lambda>c. if c = ''@bad'' then Inl ''No channel found'' else Inr (''UC'' @ c)),
         fetchLiveVideoIds = (\<lambda>cache cid. (if cid = ''UC@one'' then Inr [''abc12345678'']
                                             else Inr [''xyz12345678'', ''abc12345678''], cache)),
         timestamp = ''2024-05-01T10:00:00Z'', sync_state_text = (\<lambda>fs pid. ''{}''),
         state_playlistId = None\<rparr>
       \<lparr>access_token = Inl ''none'', target_playlist = Inl ''none'', item_pages = [],
         insert_error = (\<lambda>v. None)\<rparr>
       \<lparr>file_system = (\<lambda>p. None), channelIdByInput = (\<lambda>c. None), caches = ()\<rparr>) = Inr 1
   \<and> reported_errors (runOnce (\<lambda>raw. None)
       \<lparr>apiKey = ''key'', channelInputs = [''@one'', ''@bad'', ''@two''],
         outputPath = ''saved_live_links.txt'',
         playlistQueuePath = ''saved_live_links.playlist_queue.txt'',
         playlistStatePath = ''saved_live_links.playlist_state.json'',
         scanLatest = 50, withTimestamp = False, debug = False, saveToPlaylist = False,
         playlistSyncOutputEnabled = False, needsPlaylistBackfill = False\<rparr>
       \<lparr>resolveChannelId = (\<lambda>c. if c = ''@bad'' then Inl ''No channel found'' else Inr (''UC'' @ c)),
         fetchLiveVideoIds = (\<lambda>cache cid. (if cid = ''UC@one'' then Inr [''abc12345678'']
                                             else Inr [''xyz12345678'', ''abc12345678''], cache)),
         timestamp = ''2024-05-01T10:00:00Z'', sync_state_text = (\<lambda>fs pid. ''{}''),
         state_playlistId = None\<rparr>
       \<lparr>access_token = Inl ''none'', target_playlist = Inl ''none'', item_pages = [],
         insert_error = (\<lambda>v. None)\<rparr>
       \<lparr>file_system = (\<lambda>p. None), channelIdByInput = (\<lambda>c. None), caches = ()\<rparr>)
     = [''[@bad] No channel found'']
   \<and> outcome (runOnce (\<lambda>raw. None)
       \<lparr>apiKey = ''key'', channelInputs = [''@bad''],
         outputPath = ''saved_live_links.txt'',
         playlistQueuePath = ''saved_live_links.playlist_queue.txt'',
         playlistStatePath = ''saved_live_links.playlist_state.json'',
         scanLatest = 50, withTimestamp = False, debug = False, saveToPlaylist = False,
         playlistSyncOutputEnabled = False, needsPlaylistBackfill = False\<rparr>
       \<lparr>resolveChannelId = (\<lambda>c. if c = ''@bad'' then Inl ''No channel found'' else Inr (''UC'' @ c)),
         fetchLiveVideoIds = (\<lambda>cache cid. (if cid = ''UC@one'' then Inr [''abc12345678'']
                                             else Inr [''xyz12345678'', ''abc12345678''], cache)),
         timestamp = ''2024-05-01T10:00:00Z'', sync_state_text = (\<lambda>fs pid. ''{}''),
         state_playlistId = None\<rparr>
       \<lparr>access_token = Inl ''none'', target_playlist = Inl ''none'', item_pages = [],
         insert_error = (\<lambda>v. None)\<rparr>
       \<lparr>file_system = (\<lambda>p. None), channelIdByInput = (\<lambda>c. None), caches = ()\<rparr>)
     = Inl ''No channel found''"
proof -
  let ?lk = "\<lparr>resolveChannelId = (\<lambda>c. if c = ''@bad'' then Inl ''No channel found'' else Inr (''UC'' @ c)),
         fetchLiveVideoIds = (\<lambda>cache cid. (if cid = ''UC@one'' then Inr [''abc12345678'']
                                             else Inr [''xyz12345678'', ''abc12345678''], cache)),
         timestamp = ''2024-05-01T10:00:00Z'', sync_state_text = (\<lambda>fs pid. ''{}''),
         state_playlistId = None\<rparr> :: unit lookups"
  let ?rem = "\<lparr>access_token = Inl ''none'', target_playlist = Inl ''none'', item_pages = [],
         insert_error = (\<lambda>v. None)\<rparr>"
  let ?w = "\<lparr>file_system = (\<lambda>p. None), channelIdByInput = (\<lambda>c. None), caches = ()\<rparr>"
  let ?cfg3 = "\<lparr>apiKey = ''key'', channelInputs = [''@one'', ''@bad'', ''@two''],
         outputPath = ''saved_live_links.txt'',
         playlistQueuePath = ''saved_live_links.playlist_queue.txt'',
         playlistStatePath = ''saved_live_links.playlist_state.json'',
         scanLatest = 50, withTimestamp = False, debug = False, saveToPlaylist = False,
         playlistSyncOutputEnabled = False, needsPlaylistBackfill = False\<rparr>"
  let ?cfg1 = "\<lparr>apiKey = ''key'', channelInputs = [''@bad''],
         outputPath = ''saved_live_links.txt'',
         playlistQueuePath = ''saved_live_links.playlist_queue.txt'',
         playlistStatePath = ''saved_live_links.playlist_state.json'',
         scanLatest = 50, withTimestamp = False, debug = False, saveToPlaylist = False,
         playlistSyncOutputEnabled = False, needsPlaylistBackfill = False\<rparr>"
  have outs: "channel_outcomes ?lk (\<lambda>c. None, ()) [''@one'', ''@bad'', ''@two''] =
      [(''@one'', Inr [''abc12345678'']), (''@bad'', Inl ''No channel found''),
       (''@two'', Inr [''xyz12345678'', ''abc12345678''])]"
    by (simp add: channel_attempt_def)
  have att: "fst (channel_attempt ?lk (\<lambda>c. None, ()) ''@bad'') = Inl ''No channel found''"
    by (simp add: channel_attempt_def)
  have code: "outcome (runOnce (\<lambda>raw. None) ?cfg3 ?lk ?rem ?w) = Inr 1"
    by (simp add: runOnce_def channel_attempt_def set_add_def appendNewLiveLinks_eq)
  have three: "reported_errors (runOnce (\<lambda>raw. None) ?cfg3 ?lk ?rem ?w) = [''[@bad] No channel found'']"
    using channel_failures_are_isolated[where cfg = ?cfg3 and lk = ?lk and w = ?w
        and other = "\<lambda>raw. None" and rem = ?rem] outs
    unfolding Let_def by (simp add: messages_of_failures_def List.map_filter_def)
  have single: "outcome (runOnce (\<lambda>raw. None) ?cfg1 ?lk ?rem ?w) = Inl ''No channel found''"
    using channel_failures_are_isolated[where cfg = ?cfg1 and lk = ?lk and w = ?w
        and other = "\<lambda>raw. None" and rem = ?rem and c = "''@bad''" and message = "''No channel found''"]
      att
    unfolding Let_def by simp
  show ?thesis using code three single by simp
qed

lemma writeVideoIdQueue_other: "p \<noteq> qp \<Longrightarrow> writeVideoIdQueue fs qp ids p = fs p"
  by (simp add: writeVideoIdQueue_def Let_def)

lemma flush_only_queue:
  assumes "p \<noteq> qp"
  shows "fst (snd (flushPlaylistQueue other rem fs qp newIds ensure)) p = fs p"
proof (cases "uniqueExactStrings (readVideoIdQueue other fs qp @ newIds) = []")
  case False
  show ?thesis
    unfolding flush_merged[OF False] Let_def using assms
    by (simp split: sum.splits)
next
  case True
  show ?thesis
    unfolding flushPlaylistQueue_def Let_def True using assms
    by (simp add: writeVideoIdQueue_other split: sum.splits)
qed

lemma sync_only_queue:
  assumes "p \<noteq> qp"
  shows "fst (snd (syncOutputFileToPlaylist other rem fs qp out)) p = fs p"
  unfolding syncOutputFileToPlaylist_def Let_def using assms
  by (simp add: writeVideoIdQueue_other split: sum.splits prod.splits)

lemma sync_failure:
  assumes "uniqueExactStrings (readVideoIdQueue other fs qp @ readExistingVideoIds other fs out) \<noteq> []"
    and "access_token rem = Inl m \<or> target_playlist rem = Inl m
         \<or> fetchPlaylistVideoIdSet (item_pages rem) = Inl m"
  shows "fst (snd (syncOutputFileToPlaylist other rem fs qp out)) = fs"
    and "synced (fst (syncOutputFileToPlaylist other rem fs qp out)) = Some False"
    and "failures (fst (syncOutputFileToPlaylist other rem fs qp out)) \<noteq> []"
    and "snd (snd (syncOutputFileToPlaylist other rem fs qp out)) = []"
  unfolding syncOutputFileToPlaylist_def Let_def using assms
  by (auto split: sum.splits)

lemma playlist_step_parts:
  "fst (playlist_step other cfg lk rem fs newIds ens) = fst (reconcile other cfg rem fs newIds ens)"
  "snd (snd (playlist_step other cfg lk rem fs newIds ens)) =
     snd (snd (reconcile other cfg rem fs newIds ens))"
  "p \<noteq> playlistStatePath cfg \<Longrightarrow>
     fst (snd (playlist_step other cfg lk rem fs newIds ens)) p =
     fst (snd (reconcile other cfg rem fs newIds ens)) p"
  by (simp_all add: playlist_step_def Let_def split: prod.splits)

lemma playlist_step_not_synced:
  assumes "needsPlaylistBackfill cfg"
    and "synced (fst (syncOutputFileToPlaylist other rem fs (playlistQueuePath cfg) (outputPath cfg)))
           = Some False"
  shows "fst (snd (playlist_step other cfg lk rem fs newIds ens)) =
         fst (snd (syncOutputFileToPlaylist other rem fs (playlistQueuePath cfg) (outputPath cfg)))"
proof -
  obtain result fs' requested where
    r: "syncOutputFileToPlaylist other rem fs (playlistQueuePath cfg) (outputPath cfg)
          = (result, fs', requested)"
    by (metis surj_pair)
  with assms(2) have "synced result = Some False" by simp
  with assms(1) r show ?thesis
    by (simp add: playlist_step_def Let_def)
qed

lemma playlist_step_other:
  assumes "p \<noteq> playlistStatePath cfg" and "p \<noteq> playlistQueuePath cfg"
  shows "fst (snd (playlist_step other cfg lk rem fs newIds ens)) p = fs p"
  using assms
  by (simp add: playlist_step_parts(3) flush_only_queue sync_only_queue)

lemma set_uniqueExactStrings: "set (uniqueExactStrings xs) = trim ` set xs - {[]}"
  by (auto simp: uniqueExactStrings_eq first_by_key_set)

lemma runOnce_live:
  assumes "apiKey cfg \<noteq> []" and "0 < scanLatest cfg" and "scanLatest cfg \<le> 50"
    and "saveToPlaylist cfg"
    and loop: "channel_loop lk (length (channelInputs cfg)) (channelInputs cfg)
           (channelIdByInput w, caches w, [], []) = (Inr (live, errors), memo, cache)"
    and "live \<noteq> []"
    and app: "appendNewLiveLinks other (file_system w) (outputPath cfg) live
           (withTimestamp cfg) (timestamp lk) = (savedResult, fs1)"
  shows "runOnce other cfg lk rem w =
     (case playlist_step other cfg lk rem fs1 (fst savedResult) False of
        (result, fs2, requested) \<Rightarrow>
          \<lparr>outcome = Inr (if errors \<noteq> [] \<or> failures result \<noteq> [] then 1 else 0),
            world_after = \<lparr>file_system = fs2, channelIdByInput = memo, caches = cache\<rparr>,
            reported_errors = errors, saved = savedResult,
            playlist_failures = failures result,
            insert_requests = requested\<rparr>)"
proof -
  have "channelInputs cfg \<noteq> []"
  proof
    assume "channelInputs cfg = []"
    with loop have "live = []" by simp
    with assms(6) show False by simp
  qed
  with assms show ?thesis
    by (simp add: runOnce_def)
qed

lemma runOnce_playlist:
  assumes "apiKey cfg \<noteq> []" and "channelInputs cfg \<noteq> []"
    and "0 < scanLatest cfg" and "scanLatest cfg \<le> 50"
    and "saveToPlaylist cfg"
    and loop: "channel_loop lk (length (channelInputs cfg)) (channelInputs cfg)
           (channelIdByInput w, caches w, [], []) = (Inr (live, errors), memo, cache)"
    and app: "(if live = [] then (([], []), file_system w)
               else appendNewLiveLinks other (file_system w) (outputPath cfg) live
                      (withTimestamp cfg) (timestamp lk)) = (savedResult, fs1)"
  shows "runOnce other cfg lk rem w =
     (case playlist_step other cfg lk rem fs1 (fst savedResult) (live = [] \<and> debug cfg) of
        (result, fs2, requested) \<Rightarrow>
          \<lparr>outcome = Inr (if errors \<noteq> [] \<or> failures result \<noteq> [] then 1 else 0),
            world_after = \<lparr>file_system = fs2, channelIdByInput = memo, caches = cache\<rparr>,
            reported_errors = errors, saved = savedResult,
            playlist_failures = failures result,
            insert_requests = requested\<rparr>)"
proof (cases "live = []")
  case True
  with app have "savedResult = ([], [])" "fs1 = file_system w" by simp_all
  with True assms(1-5) loop show ?thesis
    by (simp add: runOnce_def)
next
  case False
  with app have "appendNewLiveLinks other (file_system w) (outputPath cfg) live
                      (withTimestamp cfg) (timestamp lk) = (savedResult, fs1)" by simp
  with False assms(1-5) loop show ?thesis
    by (simp add: runOnce_def)
qed

lemma writeVideoIdQueue_none: "writeVideoIdQueue fs qp [] = fs(qp := None)"
  by (simp add: writeVideoIdQueue_def uniqueExactStrings_def)

lemma sync_success:
  assumes d: "uniqueExactStrings (readVideoIdQueue other fs qp @ readExistingVideoIds other fs out) \<noteq> []"
    and tok: "access_token rem = Inr t" and pl: "target_playlist rem = Inr pid"
    and mem: "fetchPlaylistVideoIdSet (item_pages rem) = Inr members"
  shows "snd (snd (syncOutputFileToPlaylist other rem fs qp out)) =
           filter (\<lambda>v. v \<notin> set members)
             (uniqueExactStrings (readVideoIdQueue other fs qp @ readExistingVideoIds other fs out))"
    and "fst (snd (syncOutputFileToPlaylist other rem fs qp out)) qp =
           (let pending = filter (\<lambda>v. v \<notin> set members)
                  (uniqueExactStrings (readVideoIdQueue other fs qp @ readExistingVideoIds other fs out));
                failed = filter (\<lambda>v. insert_error rem v \<noteq> None) pending
            in if pending = [] then (if readVideoIdQueue other fs qp = [] then fs qp else None)
               else if failed = [] then None
               else Some (join_lines failed @ [CHR 0x0A]))"
    and "synced (fst (syncOutputFileToPlaylist other rem fs qp out)) = Some True"
proof -
  define D where "D = uniqueExactStrings (readVideoIdQueue other fs qp @ readExistingVideoIds other fs out)"
  define P where "P = filter (\<lambda>v. v \<notin> set members) D"
  define F where "F = filter (\<lambda>v. insert_error rem v \<noteq> None) P"
  have td: "tidy D" unfolding D_def by (rule uniqueExactStrings_tidy)
  have tp: "tidy P" unfolding P_def by (rule tidy_filter[OF td])
  have tf: "tidy F" unfolding F_def by (rule tidy_filter[OF tp])
  have ne: "D \<noteq> []" using d unfolding D_def .
  have add: "addVideoIdsToPlaylist (insert_error rem) P =
     ((length (filter (\<lambda>v. insert_error rem v = None) P),
       List.map_filter (\<lambda>v. map_option (\<lambda>m. (v, m)) (insert_error rem v)) P), P)"
    by (rule addVideoIdsToPlaylist_tidy[OF tp])
  have rem_eq: "filter (\<lambda>v. v \<in> set (map fst
        (List.map_filter (\<lambda>v. map_option (\<lambda>m. (v, m)) (insert_error rem v)) P))) P = F"
    unfolding failed_ids F_def by (rule filter_failed)
  have wf: "writeVideoIdQueue fs qp F =
      (if F = [] then fs(qp := None) else fs(qp \<mapsto> join_lines F @ [CHR 0x0A]))"
    by (rule writeVideoIdQueue_tidy[OF tf])
  have s: "syncOutputFileToPlaylist other rem fs qp out =
      (if P = []
       then (\<lparr>queuePath = qp, playlistId = Some pid, addedCount = 0, failures = [],
               remainingCount = 0, synced = Some True\<rparr>,
             (if readVideoIdQueue other fs qp \<noteq> [] then fs(qp := None) else fs), [])
       else (\<lparr>queuePath = qp, playlistId = Some pid,
               addedCount = length (filter (\<lambda>v. insert_error rem v = None) P),
               failures = List.map_filter (\<lambda>v. map_option (\<lambda>m. (v, m)) (insert_error rem v)) P,
               remainingCount = length F, synced = Some True\<rparr>,
             (if F = [] then fs(qp := None) else fs(qp \<mapsto> join_lines F @ [CHR 0x0A])), P))"
    unfolding syncOutputFileToPlaylist_def Let_def
    unfolding D_def[symmetric]
    unfolding mem sum.case P_def[symmetric]
    using ne tok pl rem_eq
    by (simp add: add wf writeVideoIdQueue_none)
  show "snd (snd (syncOutputFileToPlaylist other rem fs qp out)) =
           filter (\<lambda>v. v \<notin> set members)
             (uniqueExactStrings (readVideoIdQueue other fs qp @ readExistingVideoIds other fs out))"
    unfolding s D_def[symmetric] P_def[symmetric] by simp
  show "fst (snd (syncOutputFileToPlaylist other rem fs qp out)) qp =
           (let pending = filter (\<lambda>v. v \<notin> set members)
                  (uniqueExactStrings (readVideoIdQueue other fs qp @ readExistingVideoIds other fs out));
                failed = filter (\<lambda>v. insert_error rem v \<noteq> None) pending
            in if pending = [] then (if readVideoIdQueue other fs qp = [] then fs qp else None)
               else if failed = [] then None
               else Some (join_lines failed @ [CHR 0x0A]))"
    unfolding s Let_def D_def[symmetric] P_def[symmetric] F_def[symmetric] by simp
  show "synced (fst (syncOutputFileToPlaylist other rem fs qp out)) = Some True"
    unfolding s by simp
qed


lemma sync_empty:
  assumes "uniqueExactStrings (readVideoIdQueue other fs qp @ readExistingVideoIds other fs out) = []"
  shows "fst (snd (syncOutputFileToPlaylist other rem fs qp out)) = fs"
    and "snd (snd (syncOutputFileToPlaylist other rem fs qp out)) = []"
  unfolding syncOutputFileToPlaylist_def Let_def using assms by simp_all

lemma flush_empty:
  assumes "uniqueExactStrings (readVideoIdQueue other fs qp @ newIds) = []"
  shows "snd (snd (flushPlaylistQueue other rem fs qp newIds ensure)) = []"
    and "fst (snd (flushPlaylistQueue other rem fs qp newIds ensure)) qp = fs qp
         \<or> fst (snd (flushPlaylistQueue other rem fs qp newIds ensure)) qp = None"
  unfolding flushPlaylistQueue_def Let_def using assms
  by (simp_all add: writeVideoIdQueue_none split: sum.splits)

text \<open>
  Claim C5, amended. Take a run with playlist saving whose settings pass the
  checks, whose channel loop completes, and whose Ledger, queue file and state
  file are three different files; live videos may or may not have been found.
  Whatever the remote side answers, the run returns an exit code, it returns the
  links that the Ledger append saved, and the Ledger file is as the append left
  it. In the incremental path the queue file afterwards holds the whole merged
  queue (the queue read from the file and the saved IDs, trimmed, each once) when
  the token or the playlist lookup fails, and the entries whose insertion failed
  otherwise; when the merged queue is empty no insertion is requested. In the
  backfill path, when the queue and the Ledger hold no ID, nothing is requested
  and the queue file stays as it is; when the token, the playlist lookup and the
  membership fetch succeed, an insertion is requested for the IDs of the queue
  and the Ledger that the playlist lacks, and the queue file afterwards holds
  those whose insertion failed. Only when the token, the playlist lookup or the
  membership fetch of a backfill fails is nothing written: every file is as the
  append left it, the queue file and the sync state included, no insertion is
  requested and the exit code is 1.
\<close>

theorem playlist_failures_keep_ledger:
  assumes "apiKey cfg \<noteq> []" and "channelInputs cfg \<noteq> []"
    and "0 < scanLatest cfg" and "scanLatest cfg \<le> 50"
    and "saveToPlaylist cfg"
    and "outputPath cfg \<noteq> playlistQueuePath cfg"
    and "outputPath cfg \<noteq> playlistStatePath cfg"
    and "playlistQueuePath cfg \<noteq> playlistStatePath cfg"
    and "channel_loop lk (length (channelInputs cfg)) (channelInputs cfg)
           (channelIdByInput w, caches w, [], []) = (Inr (live, errors), memo, cache)"
  shows "(let r = runOnce other cfg lk rem w;
              fs2 = file_system (world_after r);
              appended = (if live = [] then (([], []), file_system w)
                          else appendNewLiveLinks other (file_system w) (outputPath cfg) live
                                 (withTimestamp cfg) (timestamp lk));
              savedResult = fst appended;
              fs1 = snd appended;
              queue = readVideoIdQueue other fs1 (playlistQueuePath cfg);
              merged = uniqueExactStrings (queue @ fst savedResult);
              failed = filter (\<lambda>v. insert_error rem v \<noteq> None) merged;
              desired = uniqueExactStrings (queue @ readExistingVideoIds other fs1 (outputPath cfg));
              pending = filter (\<lambda>v. v \<notin> set members) desired;
              refused = filter (\<lambda>v. insert_error rem v \<noteq> None) pending
          in \<not> isl (outcome r)
             \<and> saved r = savedResult
             \<and> fs2 (outputPath cfg) = fs1 (outputPath cfg)
             \<and> set merged = trim ` (set queue \<union> set (fst savedResult)) - {[]}
             \<and> (\<not> needsPlaylistBackfill cfg \<and> merged = []
                 \<longrightarrow> insert_requests r = []
                     \<and> (fs2 (playlistQueuePath cfg) = fs1 (playlistQueuePath cfg)
                          \<or> fs2 (playlistQueuePath cfg) = None))
             \<and> (needsPlaylistBackfill cfg \<and> desired = []
                 \<longrightarrow> insert_requests r = []
                     \<and> fs2 (playlistQueuePath cfg) = fs1 (playlistQueuePath cfg))
             \<and> (\<not> needsPlaylistBackfill cfg \<and> merged \<noteq> []
                  \<and> (access_token rem = Inl m \<or> target_playlist rem = Inl m)
                 \<longrightarrow> fs2 (playlistQueuePath cfg) = Some (join_lines merged @ [CHR 0x0A])
                     \<and> insert_requests r = [])
             \<and> (\<not> needsPlaylistBackfill cfg \<and> merged \<noteq> []
                  \<and> access_token rem = Inr t \<and> target_playlist rem = Inr pid
                 \<longrightarrow> fs2 (playlistQueuePath cfg) =
                       (if failed = [] then None else Some (join_lines failed @ [CHR 0x0A]))
                     \<and> insert_requests r = merged)
             \<and> (needsPlaylistBackfill cfg \<and> desired \<noteq> []
                  \<and> access_token rem = Inr t \<and> target_playlist rem = Inr pid
                  \<and> fetchPlaylistVideoIdSet (item_pages rem) = Inr members
                 \<longrightarrow> fs2 (playlistQueuePath cfg) =
                       (if pending = [] then (if queue = [] then fs1 (playlistQueuePath cfg) else None)
                        else if refused = [] then None
                        else Some (join_lines refused @ [CHR 0x0A]))
                     \<and> insert_requests r = pending)
             \<and> (needsPlaylistBackfill cfg \<and> desired \<noteq> []
                  \<and> (access_token rem = Inl m \<or> target_playlist rem = Inl m
                      \<or> fetchPlaylistVideoIdSet (item_pages rem) = Inl m)
                 \<longrightarrow> fs2 = fs1 \<and> outcome r = Inr 1 \<and> insert_requests r = []))"
proof -
  define qp where "qp = playlistQueuePath cfg"
  define appended where "appended = (if live = [] then (([], []), file_system w)
                          else appendNewLiveLinks other (file_system w) (outputPath cfg) live
                                 (withTimestamp cfg) (timestamp lk))"
  define savedResult where "savedResult = fst appended"
  define fs1 where "fs1 = snd appended"
  define ens where "ens \<longleftrightarrow> live = [] \<and> debug cfg"
  define Q where "Q = readVideoIdQueue other fs1 qp"
  define M where "M = uniqueExactStrings (Q @ fst savedResult)"
  define D where "D = uniqueExactStrings (Q @ readExistingVideoIds other fs1 (outputPath cfg))"
  define P where "P = filter (\<lambda>v. v \<notin> set members) D"
  have app: "(if live = [] then (([], []), file_system w)
              else appendNewLiveLinks other (file_system w) (outputPath cfg) live
                     (withTimestamp cfg) (timestamp lk)) = (savedResult, fs1)"
    unfolding savedResult_def fs1_def appended_def by simp
  obtain result fs2 requested where
    ps: "playlist_step other cfg lk rem fs1 (fst savedResult) ens = (result, fs2, requested)"
    by (metis surj_pair)
  have r: "runOnce other cfg lk rem w =
      \<lparr>outcome = Inr (if errors \<noteq> [] \<or> failures result \<noteq> [] then 1 else 0),
        world_after = \<lparr>file_system = fs2, channelIdByInput = memo, caches = cache\<rparr>,
        reported_errors = errors, saved = savedResult,
        playlist_failures = failures result,
        insert_requests = requested\<rparr>"
    unfolding runOnce_playlist[OF assms(1-5) assms(9) app] ens_def[symmetric] ps by simp
  have res: "result = fst (playlist_step other cfg lk rem fs1 (fst savedResult) ens)"
    and fs2: "fs2 = fst (snd (playlist_step other cfg lk rem fs1 (fst savedResult) ens))"
    and req: "requested = snd (snd (playlist_step other cfg lk rem fs1 (fst savedResult) ens))"
    unfolding ps by simp_all
  have ledger: "fs2 (outputPath cfg) = fs1 (outputPath cfg)"
    unfolding fs2 by (rule playlist_step_other[OF assms(7) assms(6)])
  have q: "fs2 qp = fst (snd (reconcile other cfg rem fs1 (fst savedResult) ens)) qp"
    unfolding fs2 qp_def by (rule playlist_step_parts(3)[OF assms(8)])
  have rq: "requested = snd (snd (reconcile other cfg rem fs1 (fst savedResult) ens))"
    unfolding req by (rule playlist_step_parts(2))
  have idle: "\<not> needsPlaylistBackfill cfg \<and> M = []
        \<longrightarrow> requested = [] \<and> (fs2 qp = fs1 qp \<or> fs2 qp = None)"
  proof (intro impI, elim conjE)
    assume h: "\<not> needsPlaylistBackfill cfg" "M = []"
    from h(2) have m: "uniqueExactStrings (readVideoIdQueue other fs1 qp @ fst savedResult) = []"
      unfolding M_def Q_def .
    note e = flush_empty[OF m, of rem ens]
    show "requested = [] \<and> (fs2 qp = fs1 qp \<or> fs2 qp = None)"
      unfolding q rq using h(1) e unfolding qp_def[symmetric] by simp
  qed
  have bare: "needsPlaylistBackfill cfg \<and> D = []
        \<longrightarrow> requested = [] \<and> fs2 qp = fs1 qp"
  proof (intro impI, elim conjE)
    assume h: "needsPlaylistBackfill cfg" "D = []"
    from h(2) have d: "uniqueExactStrings
        (readVideoIdQueue other fs1 qp @ readExistingVideoIds other fs1 (outputPath cfg)) = []"
      unfolding D_def Q_def .
    note e = sync_empty[OF d, of rem]
    show "requested = [] \<and> fs2 qp = fs1 qp"
      unfolding q rq using h(1) e unfolding qp_def[symmetric] by simp
  qed
  have stuck: "\<not> needsPlaylistBackfill cfg \<and> M \<noteq> []
                  \<and> (access_token rem = Inl m \<or> target_playlist rem = Inl m)
        \<longrightarrow> fs2 qp = Some (join_lines M @ [CHR 0x0A]) \<and> requested = []"
  proof (intro impI, elim conjE)
    assume h: "\<not> needsPlaylistBackfill cfg" "M \<noteq> []"
      "access_token rem = Inl m \<or> target_playlist rem = Inl m"
    from h(2) have m: "uniqueExactStrings (readVideoIdQueue other fs1 qp @ fst savedResult) \<noteq> []"
      unfolding M_def Q_def .
    show "fs2 qp = Some (join_lines M @ [CHR 0x0A]) \<and> requested = []"
      unfolding q rq using h(1,3)
      unfolding qp_def[symmetric] flush_merged[OF m] Let_def Q_def[symmetric] M_def[symmetric]
      by (auto split: sum.splits)
  qed
  have flushed: "\<not> needsPlaylistBackfill cfg \<and> M \<noteq> []
                  \<and> access_token rem = Inr t \<and> target_playlist rem = Inr pid
        \<longrightarrow> fs2 qp = (if filter (\<lambda>v. insert_error rem v \<noteq> None) M = [] then None
                       else Some (join_lines (filter (\<lambda>v. insert_error rem v \<noteq> None) M) @ [CHR 0x0A]))
            \<and> requested = M"
  proof (intro impI, elim conjE)
    assume h: "\<not> needsPlaylistBackfill cfg" "M \<noteq> []"
      "access_token rem = Inr t" "target_playlist rem = Inr pid"
    from h(2) have m: "uniqueExactStrings (readVideoIdQueue other fs1 qp @ fst savedResult) \<noteq> []"
      unfolding M_def Q_def .
    show "fs2 qp = (if filter (\<lambda>v. insert_error rem v \<noteq> None) M = [] then None
                       else Some (join_lines (filter (\<lambda>v. insert_error rem v \<noteq> None) M) @ [CHR 0x0A]))
            \<and> requested = M"
      unfolding q rq using h(1,3,4)
      unfolding qp_def[symmetric] flush_merged[OF m] Let_def Q_def[symmetric] M_def[symmetric]
      by simp
  qed
  have filled: "needsPlaylistBackfill cfg \<and> D \<noteq> []
                  \<and> access_token rem = Inr t \<and> target_playlist rem = Inr pid
                  \<and> fetchPlaylistVideoIdSet (item_pages rem) = Inr members
        \<longrightarrow> fs2 qp =
              (if P = [] then (if Q = [] then fs1 qp else None)
               else if filter (\<lambda>v. insert_error rem v \<noteq> None) P = [] then None
               else Some (join_lines (filter (\<lambda>v. insert_error rem v \<noteq> None) P) @ [CHR 0x0A]))
            \<and> requested = P"
  proof (intro impI, elim conjE)
    assume h: "needsPlaylistBackfill cfg" "D \<noteq> []"
      "access_token rem = Inr t" "target_playlist rem = Inr pid"
      "fetchPlaylistVideoIdSet (item_pages rem) = Inr members"
    from h(2) have d: "uniqueExactStrings
        (readVideoIdQueue other fs1 qp @ readExistingVideoIds other fs1 (outputPath cfg)) \<noteq> []"
      unfolding D_def Q_def .
    note s = sync_success[OF d h(3-5)]
    have a: "fs2 qp =
              (if P = [] then (if Q = [] then fs1 qp else None)
               else if filter (\<lambda>v. insert_error rem v \<noteq> None) P = [] then None
               else Some (join_lines (filter (\<lambda>v. insert_error rem v \<noteq> None) P) @ [CHR 0x0A]))"
      unfolding q using h(1) s(2)
      unfolding qp_def[symmetric] Let_def Q_def[symmetric] D_def[symmetric] P_def[symmetric]
      by simp
    have b: "requested = P"
      unfolding rq using h(1) s(1)
      unfolding qp_def[symmetric] Q_def[symmetric] D_def[symmetric] P_def[symmetric]
      by simp
    from a b show "fs2 qp =
              (if P = [] then (if Q = [] then fs1 qp else None)
               else if filter (\<lambda>v. insert_error rem v \<noteq> None) P = [] then None
               else Some (join_lines (filter (\<lambda>v. insert_error rem v \<noteq> None) P) @ [CHR 0x0A]))
            \<and> requested = P" ..
  qed
  have backfill: "needsPlaylistBackfill cfg \<and> D \<noteq> []
                  \<and> (access_token rem = Inl m \<or> target_playlist rem = Inl m
                      \<or> fetchPlaylistVideoIdSet (item_pages rem) = Inl m)
        \<longrightarrow> fs2 = fs1 \<and> Inr (if errors \<noteq> [] \<or> failures result \<noteq> [] then 1 else 0) = (Inr 1 :: string + nat)
            \<and> requested = []"
  proof (intro impI, elim conjE)
    assume h: "needsPlaylistBackfill cfg" "D \<noteq> []"
      "access_token rem = Inl m \<or> target_playlist rem = Inl m
                      \<or> fetchPlaylistVideoIdSet (item_pages rem) = Inl m"
    from h(2) have d: "uniqueExactStrings
        (readVideoIdQueue other fs1 (playlistQueuePath cfg)
         @ readExistingVideoIds other fs1 (outputPath cfg)) \<noteq> []"
      unfolding D_def Q_def qp_def .
    note f = sync_failure[OF d h(3)]
    have a: "fs2 = fs1"
      unfolding fs2 playlist_step_not_synced[OF h(1) f(2)] by (rule f(1))
    have b: "failures result \<noteq> []"
      unfolding res playlist_step_parts(1) using h(1) f(3) by simp
    have c: "requested = []"
      unfolding rq using h(1) f(4) by simp
    from a b c show "fs2 = fs1
        \<and> Inr (if errors \<noteq> [] \<or> failures result \<noteq> [] then 1 else 0) = (Inr 1 :: string + nat)
        \<and> requested = []"
      by simp
  qed
  have sm: "set M = trim ` (set Q \<union> set (fst savedResult)) - {[]}"
    unfolding M_def by (simp add: set_uniqueExactStrings)
  show ?thesis
    unfolding Let_def appended_def[symmetric]
    unfolding savedResult_def[symmetric] fs1_def[symmetric]
    unfolding r qp_def[symmetric] Q_def[symmetric]
    unfolding M_def[symmetric] D_def[symmetric]
    unfolding P_def[symmetric]
    apply (simp only: run_result.simps world.simps sum.disc simp_thms)
    apply (rule conjI, rule ledger)
    apply (rule conjI, rule sm)
    apply (rule conjI, rule idle)
    apply (rule conjI, rule bare)
    apply (rule conjI, rule stuck)
    apply (rule conjI, rule flushed)
    apply (rule conjI, rule filled)
    apply (rule backfill)
    done
qed

theorem playlist_failures_keep_ledger_witness:
  "saved (runOnce (\<lambda>raw. None)
       \<lparr>apiKey = ''key'', channelInputs = [''@one''],
         outputPath = ''saved_live_links.txt'',
         playlistQueuePath = ''saved_live_links.playlist_queue.txt'',
         playlistStatePath = ''saved_live_links.playlist_state.json'',
         scanLatest = 50, withTimestamp = False, debug = False, saveToPlaylist = True,
         playlistSyncOutputEnabled = True, needsPlaylistBackfill = False\<rparr>
       \<lparr>resolveChannelId = (\<lambda>c. Inr ''UCone''),
         fetchLiveVideoIds = (\<lambda>cache cid. (Inr [''xyz12345678''], cache)),
         timestamp = ''2024-05-01T10:00:00Z'', sync_state_text = (\<lambda>fs pid. ''{}''),
         state_playlistId = None\<rparr>
       \<lparr>access_token = Inl ''invalid_grant'', target_playlist = Inr ''PL1'', item_pages = [],
         insert_error = (\<lambda>v. None)\<rparr>
       \<lparr>file_system = (\<lambda>p. None)(''saved_live_links.txt'' \<mapsto>
            ''https://www.youtube.com/watch?v=abc12345678'' @ [CHR 0x0A]),
         channelIdByInput = (\<lambda>c. None), caches = ()\<rparr>)
     = ([''xyz12345678''], [''https://www.youtube.com/watch?v=xyz12345678''])
   \<and> file_system (world_after (runOnce (\<lambda>raw. None)
       \<lparr>apiKey = ''key'', channelInputs = [''@one''],
         outputPath = ''saved_live_links.txt'',
         playlistQueuePath = ''saved_live_links.playlist_queue.txt'',
         playlistStatePath = ''saved_live_links.playlist_state.json'',
         scanLatest = 50, withTimestamp = False, debug = False, saveToPlaylist = True,
         playlistSyncOutputEnabled = True, needsPlaylistBackfill = False\<rparr>
       \<lparr>resolveChannelId = (\<lambda>c. Inr ''UCone''),
         fetchLiveVideoIds = (\<lambda>cache cid. (Inr [''xyz12345678''], cache)),
         timestamp = ''2024-05-01T10:00:00Z'', sync_state_text = (\<lambda>fs pid. ''{}''),
         state_playlistId = None\<rparr>
       \<lparr>access_token = Inl ''invalid_grant'', target_playlist = Inr ''PL1'', item_pages = [],
         insert_error = (\<lambda>v. None)\<rparr>
       \<lparr>file_system = (\<lambda>p. None)(''saved_live_links.txt'' \<mapsto>
            ''https://www.youtube.com/watch?v=abc12345678'' @ [CHR 0x0A]),
         channelIdByInput = (\<lambda>c. None), caches = ()\<rparr>))
       ''saved_live_links.txt''
     = Some (''https://www.youtube.com/watch?v=abc12345678'' @ [CHR 0x0A]
             @ ''https://www.youtube.com/watch?v=xyz12345678'' @ [CHR 0x0A])
   \<and> file_system (world_after (runOnce (\<lambda>raw. None)
       \<lparr>apiKey = ''key'', channelInputs = [''@one''],
         outputPath = ''saved_live_links.txt'',
         playlistQueuePath = ''saved_live_links.playlist_queue.txt'',
         playlistStatePath = ''saved_live_links.playlist_state.json'',
         scanLatest = 50, withTimestamp = False, debug = False, saveToPlaylist = True,
         playlistSyncOutputEnabled = True, needsPlaylistBackfill = False\<rparr>
       \<lparr>resolveChannelId = (\<lambda>c. Inr ''UCone''),
         fetchLiveVideoIds = (\<lambda>cache cid. (Inr [''xyz12345678''], cache)),
         timestamp = ''2024-05-01T10:00:00Z'', sync_state_text = (\<lambda>fs pid. ''{}''),
         state_playlistId = None\<rparr>
       \<lparr>access_token = Inl ''invalid_grant'', target_playlist = Inr ''PL1'', item_pages = [],
         insert_error = (\<lambda>v. None)\<rparr>
       \<lparr>file_system = (\<lambda>p. None)(''saved_live_links.txt'' \<mapsto>
            ''https://www.youtube.com/watch?v=abc12345678'' @ [CHR 0x0A]),
         channelIdByInput = (\<lambda>c. None), caches = ()\<rparr>))
       ''saved_live_links.playlist_queue.txt''
     = Some (''xyz12345678'' @ [CHR 0x0A])
   \<and> insert_requests (runOnce (\<lambda>raw. None)
       \<lparr>apiKey = ''key'', channelInputs = [''@one''],
         outputPath = ''saved_live_links.txt'',
         playlistQueuePath = ''saved_live_links.playlist_queue.txt'',
         playlistStatePath = ''saved_live_links.playlist_state.json'',
         scanLatest = 50, withTimestamp = False, debug = False, saveToPlaylist = True,
         playlistSyncOutputEnabled = True, needsPlaylistBackfill = False\<rparr>
       \<lparr>resolveChannelId = (\<lambda>c. Inr ''UCone''),
         fetchLiveVideoIds = (\<lambda>cache cid. (Inr [''xyz12345678''], cache)),
         timestamp = ''2024-05-01T10:00:00Z'', sync_state_text = (\<lambda>fs pid. ''{}''),
         state_playlistId = None\<rparr>
       \<lparr>access_token = Inl ''invalid_grant'', target_playlist = Inr ''PL1'', item_pages = [],
         insert_error = (\<lambda>v. None)\<rparr>
       \<lparr>file_system = (\<lambda>p. None)(''saved_live_links.txt'' \<mapsto>
            ''https://www.youtube.com/watch?v=abc12345678'' @ [CHR 0x0A]),
         channelIdByInput = (\<lambda>c. None), caches = ()\<rparr>) = []
   \<and> file_system (world_after (runOnce (\<lambda>raw. None)
       \<lparr>apiKey = ''key'', channelInputs = [''@one''],
         outputPath = ''saved_live_links.txt'',
         playlistQueuePath = ''saved_live_links.playlist_queue.txt'',
         playlistStatePath = ''saved_live_links.playlist_state.json'',
         scanLatest = 50, withTimestamp = False, debug = False, saveToPlaylist = True,
         playlistSyncOutputEnabled = True, needsPlaylistBackfill = True\<rparr>
       \<lparr>resolveChannelId = (\<lambda>c. Inr ''UCone''),
         fetchLiveVideoIds = (\<lambda>cache cid. (Inr [''xyz12345678''], cache)),
         timestamp = ''2024-05-01T10:00:00Z'', sync_state_text = (\<lambda>fs pid. ''{}''),
         state_playlistId = None\<rparr>
       \<lparr>access_token = Inr ''token'', target_playlist = Inr ''PL1'',
         item_pages = [Inr (JObj [(''items'',
           JArr [JObj [(''contentDetails'', JObj [(''videoId'', JStr ''abc12345678'')])]])])],
         insert_error = (\<lambda>v. Some ''quotaExceeded'')\<rparr>
       \<lparr>file_system = (\<lambda>p. None)(''saved_live_links.txt'' \<mapsto>
            ''https://www.youtube.com/watch?v=abc12345678'' @ [CHR 0x0A]),
         channelIdByInput = (\<lambda>c. None), caches = ()\<rparr>))
       ''saved_live_links.playlist_queue.txt''
     = Some (''xyz12345678'' @ [CHR 0x0A])
   \<and> insert_requests (runOnce (\<lambda>raw. None)
       \<lparr>apiKey = ''key'', channelInputs = [''@one''],
         outputPath = ''saved_live_links.txt'',
         playlistQueuePath = ''saved_live_links.playlist_queue.txt'',
         playlistStatePath = ''saved_live_links.playlist_state.json'',
         scanLatest = 50, withTimestamp = False, debug = False, saveToPlaylist = True,
         playlistSyncOutputEnabled = True, needsPlaylistBackfill = True\<rparr>
       \<lparr>resolveChannelId = (\<lambda>c. Inr ''UCone''),
         fetchLiveVideoIds = (\<lambda>cache cid. (Inr [''xyz12345678''], cache)),
         timestamp = ''2024-05-01T10:00:00Z'', sync_state_text = (\<lambda>fs pid. ''{}''),
         state_playlistId = None\<rparr>
       \<lparr>access_token = Inr ''token'', target_playlist = Inr ''PL1'',
         item_pages = [Inr (JObj [(''items'',
           JArr [JObj [(''contentDetails'', JObj [(''videoId'', JStr ''abc12345678'')])]])])],
         insert_error = (\<lambda>v. Some ''quotaExceeded'')\<rparr>
       \<lparr>file_system = (\<lambda>p. None)(''saved_live_links.txt'' \<mapsto>
            ''https://www.youtube.com/watch?v=abc12345678'' @ [CHR 0x0A]),
         channelIdByInput = (\<lambda>c. None), caches = ()\<rparr>) = [''xyz12345678'']"
proof -
  let ?cfg = "\<lparr>apiKey = ''key'', channelInputs = [''@one''],
         outputPath = ''saved_live_links.txt'',
         playlistQueuePath = ''saved_live_links.playlist_queue.txt'',
         playlistStatePath = ''saved_live_links.playlist_state.json'',
         scanLatest = 50, withTimestamp = False, debug = False, saveToPlaylist = True,
         playlistSyncOutputEnabled = True, needsPlaylistBackfill = False\<rparr>"
  let ?cfgb = "\<lparr>apiKey = ''key'', channelInputs = [''@one''],
         outputPath = ''saved_live_links.txt'',
         playlistQueuePath = ''saved_live_links.playlist_queue.txt'',
         playlistStatePath = ''saved_live_links.playlist_state.json'',
         scanLatest = 50, withTimestamp = False, debug = False, saveToPlaylist = True,
         playlistSyncOutputEnabled = True, needsPlaylistBackfill = True\<rparr>"
  let ?lk = "\<lparr>resolveChannelId = (\<lambda>c. Inr ''UCone''),
         fetchLiveVideoIds = (\<lambda>cache cid. (Inr [''xyz12345678''], cache)),
         timestamp = ''2024-05-01T10:00:00Z'', sync_state_text = (\<lambda>fs pid. ''{}''),
         state_playlistId = None\<rparr> :: unit lookups"
  let ?rem = "\<lparr>access_token = Inl ''invalid_grant'', target_playlist = Inr ''PL1'', item_pages = [],
         insert_error = (\<lambda>v. None)\<rparr>"
  let ?remb = "\<lparr>access_token = Inr ''token'', target_playlist = Inr ''PL1'',
         item_pages = [Inr (JObj [(''items'',
           JArr [JObj [(''contentDetails'', JObj [(''videoId'', JStr ''abc12345678'')])]])])],
         insert_error = (\<lambda>v. Some ''quotaExceeded'')\<rparr>"
  let ?fs0 = "(\<lambda>p. None)(''saved_live_links.txt'' \<mapsto>
            ''https://www.youtube.com/watch?v=abc12345678'' @ [CHR 0x0A])"
  let ?fs1 = "(\<lambda>p. None)(''saved_live_links.txt'' \<mapsto>
            ''https://www.youtube.com/watch?v=abc12345678'' @ [CHR 0x0A]
             @ ''https://www.youtube.com/watch?v=xyz12345678'' @ [CHR 0x0A])"
  let ?w = "\<lparr>file_system = ?fs0, channelIdByInput = (\<lambda>c. None), caches = ()\<rparr>"
  have loop: "channel_loop ?lk (Suc 0) [''@one''] (\<lambda>c. None, (), [], [])
      = (Inr ([''xyz12345678''], []), (\<lambda>c. None)(''@one'' \<mapsto> ''UCone''), ())"
    by (simp add: channel_attempt_def set_add_def)
  have k0: "readExistingVideoIds (\<lambda>raw. None) ?fs0 ''saved_live_links.txt'' = [''abc12345678'']"
    by code_simp
  have app: "appendNewLiveLinks (\<lambda>raw. None) ?fs0 ''saved_live_links.txt'' [''xyz12345678'']
      False ''2024-05-01T10:00:00Z''
      = (([''xyz12345678''], [''https://www.youtube.com/watch?v=xyz12345678'']), ?fs1)"
    using k0
    by (simp add: appendNewLiveLinks_eq Let_def watch_url_def ledger_line_def appendFileSync_def)
  have k1: "readExistingVideoIds (\<lambda>raw. None) ?fs1 ''saved_live_links.txt''
      = [''abc12345678'', ''xyz12345678'']"
    by code_simp
  have q: "readVideoIdQueue (\<lambda>raw. None) ?fs1 ''saved_live_links.playlist_queue.txt'' = []"
    by (simp add: readVideoIdQueue_def)
  have u: "uniqueExactStrings [''xyz12345678''] = [''xyz12345678'']"
    "uniqueExactStrings [''abc12345678'', ''xyz12345678''] = [''abc12345678'', ''xyz12345678'']"
    by code_simp+
  have j: "join_lines [''xyz12345678''] = ''xyz12345678''"
    by code_simp
  have mem: "fetchPlaylistVideoIdSet (item_pages ?remb) = Inr [''abc12345678'']"
    by code_simp
  have stuck: "saved (runOnce (\<lambda>raw. None) ?cfg ?lk ?rem ?w)
        = ([''xyz12345678''], [''https://www.youtube.com/watch?v=xyz12345678''])
      \<and> file_system (world_after (runOnce (\<lambda>raw. None) ?cfg ?lk ?rem ?w)) ''saved_live_links.txt''
        = Some (''https://www.youtube.com/watch?v=abc12345678'' @ [CHR 0x0A]
             @ ''https://www.youtube.com/watch?v=xyz12345678'' @ [CHR 0x0A])
      \<and> file_system (world_after (runOnce (\<lambda>raw. None) ?cfg ?lk ?rem ?w))
          ''saved_live_links.playlist_queue.txt''
        = Some (''xyz12345678'' @ [CHR 0x0A])
      \<and> insert_requests (runOnce (\<lambda>raw. None) ?cfg ?lk ?rem ?w) = []"
    using playlist_failures_keep_ledger[where cfg = ?cfg and lk = ?lk and w = ?w
        and other = "\<lambda>raw. None" and rem = ?rem and live = "[''xyz12345678'']" and errors = "[]"
        and memo = "(\<lambda>c. None)(''@one'' \<mapsto> ''UCone'')" and cache = "()"
        and m = "''invalid_grant''"] loop app q u j
    by (simp add: Let_def)
  have refused: "file_system (world_after (runOnce (\<lambda>raw. None) ?cfgb ?lk ?remb ?w))
          ''saved_live_links.playlist_queue.txt''
        = Some (''xyz12345678'' @ [CHR 0x0A])
      \<and> insert_requests (runOnce (\<lambda>raw. None) ?cfgb ?lk ?remb ?w) = [''xyz12345678'']"
    using playlist_failures_keep_ledger[where cfg = ?cfgb and lk = ?lk and w = ?w
        and other = "\<lambda>raw. None" and rem = ?remb and live = "[''xyz12345678'']" and errors = "[]"
        and memo = "(\<lambda>c. None)(''@one'' \<mapsto> ''UCone'')" and cache = "()"
        and t = "''token''" and pid = "''PL1''" and members = "[''abc12345678'']"]
      loop app q u j k1 mem
    by (simp add: Let_def)
  from stuck refused show ?thesis by simp
qed

text \<open>
  Claim C5 as stated fails in the backfill path: when the token cannot be obtained,
  \<open>syncOutputFileToPlaylist\<close> returns before it writes anything, so the link that
  the run has just saved is in the Ledger and not in the queue file, which here
  does not exist afterwards.
\<close>

theorem playlist_failures_keep_ledger_counterexample:
  "saved (runOnce (\<lambda>raw. None)
       \<lparr>apiKey = ''key'', channelInputs = [''@one''],
         outputPath = ''saved_live_links.txt'',
         playlistQueuePath = ''saved_live_links.playlist_queue.txt'',
         playlistStatePath = ''saved_live_links.playlist_state.json'',
         scanLatest = 50, withTimestamp = False, debug = False, saveToPlaylist = True,
         playlistSyncOutputEnabled = True, needsPlaylistBackfill = True\<rparr>
       \<lparr>resolveChannelId = (\<lambda>c. Inr ''UCone''),
         fetchLiveVideoIds = (\<lambda>cache cid. (Inr [''xyz12345678''], cache)),
         timestamp = ''2024-05-01T10:00:00Z'', sync_state_text = (\<lambda>fs pid. ''{}''),
         state_playlistId = None\<rparr>
       \<lparr>access_token = Inl ''invalid_grant'', target_playlist = Inr ''PL1'', item_pages = [],
         insert_error = (\<lambda>v. None)\<rparr>
       \<lparr>file_system = (\<lambda>p. None)(''saved_live_links.txt'' \<mapsto>
            ''https://www.youtube.com/watch?v=abc12345678'' @ [CHR 0x0A]),
         channelIdByInput = (\<lambda>c. None), caches = ()\<rparr>)
     = ([''xyz12345678''], [''https://www.youtube.com/watch?v=xyz12345678''])
   \<and> file_system (world_after (runOnce (\<lambda>raw. None)
       \<lparr>apiKey = ''key'', channelInputs = [''@one''],
         outputPath = ''saved_live_links.txt'',
         playlistQueuePath = ''saved_live_links.playlist_queue.txt'',
         playlistStatePath = ''saved_live_links.playlist_state.json'',
         scanLatest = 50, withTimestamp = False, debug = False, saveToPlaylist = True,
         playlistSyncOutputEnabled = True, needsPlaylistBackfill = True\<rparr>
       \<lparr>resolveChannelId = (\<lambda>c. Inr ''UCone''),
         fetchLiveVideoIds = (\<lambda>cache cid. (Inr [''xyz12345678''], cache)),
         timestamp = ''2024-05-01T10:00:00Z'', sync_state_text = (\<lambda>fs pid. ''{}''),
         state_playlistId = None\<rparr>
       \<lparr>access_token = Inl ''invalid_grant'', target_playlist = Inr ''PL1'', item_pages = [],
         insert_error = (\<lambda>v. None)\<rparr>
       \<lparr>file_system = (\<lambda>p. None)(''saved_live_links.txt'' \<mapsto>
            ''https://www.youtube.com/watch?v=abc12345678'' @ [CHR 0x0A]),
         channelIdByInput = (\<lambda>c. None), caches = ()\<rparr>))
       ''saved_live_links.playlist_queue.txt''
     = None"
proof -
  let ?cfg = "\<lparr>apiKey = ''key'', channelInputs = [''@one''],
         outputPath = ''saved_live_links.txt'',
         playlistQueuePath = ''saved_live_links.playlist_queue.txt'',
         playlistStatePath = ''saved_live_links.playlist_state.json'',
         scanLatest = 50, withTimestamp = False, debug = False, saveToPlaylist = True,
         playlistSyncOutputEnabled = True, needsPlaylistBackfill = True\<rparr>"
  let ?lk = "\<lparr>resolveChannelId = (\<lambda>c. Inr ''UCone''),
         fetchLiveVideoIds = (\<lambda>cache cid. (Inr [''xyz12345678''], cache)),
         timestamp = ''2024-05-01T10:00:00Z'', sync_state_text = (\<lambda>fs pid. ''{}''),
         state_playlistId = None\<rparr> :: unit lookups"
  let ?rem = "\<lparr>access_token = Inl ''invalid_grant'', target_playlist = Inr ''PL1'', item_pages = [],
         insert_error = (\<lambda>v. None)\<rparr>"
  let ?fs0 = "(\<lambda>p. None)(''saved_live_links.txt'' \<mapsto>
            ''https://www.youtube.com/watch?v=abc12345678'' @ [CHR 0x0A])"
  let ?fs1 = "(\<lambda>p. None)(''saved_live_links.txt'' \<mapsto>
            ''https://www.youtube.com/watch?v=abc12345678'' @ [CHR 0x0A]
             @ ''https://www.youtube.com/watch?v=xyz12345678'' @ [CHR 0x0A])"
  let ?w = "\<lparr>file_system = ?fs0, channelIdByInput = (\<lambda>c. None), caches = ()\<rparr>"
  have loop: "channel_loop ?lk (length (channelInputs ?cfg)) (channelInputs ?cfg)
      (channelIdByInput ?w, caches ?w, [], [])
      = (Inr ([''xyz12345678''], []), (\<lambda>c. None)(''@one'' \<mapsto> ''UCone''), ())"
    by (simp add: channel_attempt_def set_add_def)
  have k0: "readExistingVideoIds (\<lambda>raw. None) ?fs0 ''saved_live_links.txt'' = [''abc12345678'']"
    by code_simp
  have app: "appendNewLiveLinks (\<lambda>raw. None) (file_system ?w) (outputPath ?cfg) [''xyz12345678'']
      (withTimestamp ?cfg) (timestamp ?lk)
      = (([''xyz12345678''], [''https://www.youtube.com/watch?v=xyz12345678'']), ?fs1)"
    using k0
    by (simp add: appendNewLiveLinks_eq Let_def watch_url_def ledger_line_def appendFileSync_def)
  have k1: "readExistingVideoIds (\<lambda>raw. None) ?fs1 ''saved_live_links.txt''
      = [''abc12345678'', ''xyz12345678'']"
    by code_simp
  have d: "uniqueExactStrings
        (readVideoIdQueue (\<lambda>raw. None) ?fs1 (playlistQueuePath ?cfg)
         @ readExistingVideoIds (\<lambda>raw. None) ?fs1 (outputPath ?cfg)) \<noteq> []"
    using k1 by (simp add: readVideoIdQueue_def uniqueExactStrings_def trim_def js_whitespace_def)
  have tok: "access_token ?rem = Inl ''invalid_grant'' \<or> target_playlist ?rem = Inl ''invalid_grant''
      \<or> fetchPlaylistVideoIdSet (item_pages ?rem) = Inl ''invalid_grant''"
    by simp
  note f = sync_failure[OF d tok]
  have step: "fst (snd (playlist_step (\<lambda>raw. None) ?cfg ?lk ?rem ?fs1 [''xyz12345678''] False)) = ?fs1"
    using playlist_step_not_synced[where cfg = ?cfg and other = "\<lambda>raw. None" and rem = ?rem
        and fs = ?fs1 and lk = ?lk and newIds = "[''xyz12345678'']" and ens = False] f(1) f(2)
    by simp
  obtain result fs2 requested where
    ps: "playlist_step (\<lambda>raw. None) ?cfg ?lk ?rem ?fs1 [''xyz12345678''] False = (result, fs2, requested)"
    by (metis surj_pair)
  from step have fs2: "fs2 = ?fs1" unfolding ps by simp
  show ?thesis
    using runOnce_live[where cfg = ?cfg and lk = ?lk and w = ?w and other = "\<lambda>raw. None"
        and rem = ?rem and live = "[''xyz12345678'']" and errors = "[]"
        and memo = "(\<lambda>c. None)(''@one'' \<mapsto> ''UCone'')" and cache = "()"
        and savedResult = "([''xyz12345678''], [''https://www.youtube.com/watch?v=xyz12345678''])"
        and ?fs1.0 = ?fs1] loop app ps fs2
    by simp
qed

end
